theory Spec2Isabelle
  imports Main "HOL-Library.Word"
begin

unbundle bit_operations_syntax

section \<open>Constants of the system headers\<close>

text \<open>
  The source compares families, socket types, protocols and error codes by value only.
  The numbers below are those of the OpenBSD headers the file was written against
  (\<^verbatim>\<open>sys/socket.h\<close>, \<^verbatim>\<open>netinet/in.h\<close>, \<^verbatim>\<open>netdb.h\<close>,
  \<^verbatim>\<open>arpa/nameser.h\<close>, \<^verbatim>\<open>errno.h\<close>); the headers are not part of the
  repository, and every result below depends on the numbers only through their being
  distinct.
\<close>

definition PF_UNSPEC :: int where "PF_UNSPEC = 0"
definition PF_INET :: int where "PF_INET = 2"
definition PF_INET6 :: int where "PF_INET6 = 24"

definition SOCK_STREAM :: int where "SOCK_STREAM = 1"
definition SOCK_DGRAM :: int where "SOCK_DGRAM = 2"
definition SOCK_RAW :: int where "SOCK_RAW = 3"

definition IPPROTO_TCP :: int where "IPPROTO_TCP = 6"
definition IPPROTO_UDP :: int where "IPPROTO_UDP = 17"

definition AI_PASSIVE :: "32 word" where "AI_PASSIVE = 1"
definition AI_CANONNAME :: "32 word" where "AI_CANONNAME = 2"
definition AI_NUMERICHOST :: "32 word" where "AI_NUMERICHOST = 4"
definition AI_NUMERICSERV :: "32 word" where "AI_NUMERICSERV = 16"
definition AI_FQDN :: "32 word" where "AI_FQDN = 32"
definition AI_MASK :: "32 word" where
  "AI_MASK = AI_PASSIVE OR AI_CANONNAME OR AI_NUMERICHOST OR AI_NUMERICSERV OR AI_FQDN"

definition EAI_BADFLAGS :: int where "EAI_BADFLAGS = - 1"
definition EAI_NONAME :: int where "EAI_NONAME = - 2"
definition EAI_AGAIN :: int where "EAI_AGAIN = - 3"
definition EAI_FAIL :: int where "EAI_FAIL = - 4"
definition EAI_NODATA :: int where "EAI_NODATA = - 5"
definition EAI_FAMILY :: int where "EAI_FAMILY = - 6"
definition EAI_SOCKTYPE :: int where "EAI_SOCKTYPE = - 7"
definition EAI_SERVICE :: int where "EAI_SERVICE = - 8"
definition EAI_MEMORY :: int where "EAI_MEMORY = - 10"
definition EAI_SYSTEM :: int where "EAI_SYSTEM = - 11"
definition EAI_BADHINTS :: int where "EAI_BADHINTS = - 12"

definition ENOMEM :: int where "ENOMEM = 12"
definition ERANGE :: int where "ERANGE = 34"
definition EOPNOTSUPP :: int where "EOPNOTSUPP = 45"

definition USHRT_MAX :: int where "USHRT_MAX = 65535"

definition C_IN :: int where "C_IN = 1"
definition T_A :: int where "T_A = 1"
definition T_AAAA :: int where "T_AAAA = 28"

lemmas sock_consts =
  PF_UNSPEC_def PF_INET_def PF_INET6_def SOCK_STREAM_def SOCK_DGRAM_def SOCK_RAW_def
  IPPROTO_TCP_def IPPROTO_UDP_def

lemmas flag_consts =
  AI_PASSIVE_def AI_CANONNAME_def AI_NUMERICHOST_def AI_NUMERICSERV_def AI_FQDN_def
  AI_MASK_def

lemmas eai_consts =
  EAI_BADFLAGS_def EAI_NONAME_def EAI_AGAIN_def EAI_FAIL_def EAI_NODATA_def
  EAI_FAMILY_def EAI_SOCKTYPE_def EAI_SERVICE_def EAI_MEMORY_def EAI_SYSTEM_def
  EAI_BADHINTS_def

section \<open>Data of the request\<close>

text \<open>
  A socket address: the family tag, the port field and the raw address bytes. The port
  field is kept as the 16-bit number that \<^verbatim>\<open>htons\<close> stores in network order.
\<close>

record sockaddr =
  sa_family :: int
  sa_port :: "16 word"
  sa_addr :: "8 word list"

text \<open>
  \<^verbatim>\<open>struct addrinfo\<close>. The entries of a result list are kept in a HOL list in append
  order, which stands for the chain of \<^verbatim>\<open>ai_next\<close> pointers from
  \<^verbatim>\<open>aifirst\<close> to \<^verbatim>\<open>ailast\<close>; for the hints, \<open>ai_next\<close> says whether
  the pointer is set.
\<close>

record addrinfo =
  ai_flags :: "32 word"
  ai_family :: int
  ai_socktype :: int
  ai_protocol :: int
  ai_addrlen :: nat
  ai_addr :: "sockaddr option"
  ai_canonname :: "string option"
  ai_next :: bool

text \<open>\<^verbatim>\<open>struct match\<close> and the static table \<^verbatim>\<open>matches\<close>, sentinel included.\<close>

record match =
  m_family :: int
  m_socktype :: int
  m_protocol :: int

definition mk_match :: "int \<Rightarrow> int \<Rightarrow> int \<Rightarrow> match" where
  "mk_match f s p = \<lparr>m_family = f, m_socktype = s, m_protocol = p\<rparr>"

definition matches :: "match list" where
  "matches =
    [mk_match PF_INET SOCK_DGRAM IPPROTO_UDP,
     mk_match PF_INET SOCK_STREAM IPPROTO_TCP,
     mk_match PF_INET SOCK_RAW 0,
     mk_match PF_INET6 SOCK_DGRAM IPPROTO_UDP,
     mk_match PF_INET6 SOCK_STREAM IPPROTO_TCP,
     mk_match PF_INET6 SOCK_RAW 0,
     mk_match (- 1) 0 0]"

text \<open>The three macros; the second argument is the table row \<^verbatim>\<open>matches[b]\<close>.\<close>

definition MATCH_FAMILY :: "int \<Rightarrow> match \<Rightarrow> bool" where
  "MATCH_FAMILY a b \<longleftrightarrow> a = m_family b \<or> a = PF_UNSPEC"

definition MATCH_PROTO :: "int \<Rightarrow> match \<Rightarrow> bool" where
  "MATCH_PROTO a b \<longleftrightarrow> a = m_protocol b \<or> a = 0 \<or> m_protocol b = 0"

definition MATCH_SOCKTYPE :: "int \<Rightarrow> match \<Rightarrow> bool" where
  "MATCH_SOCKTYPE a b \<longleftrightarrow> a = m_socktype b \<or> (a = 0 \<and> m_socktype b \<noteq> SOCK_RAW)"

section \<open>The request and its collaborators\<close>

text \<open>
  Modelled from the spec: the declarations of \<^verbatim>\<open>asr_private.h\<close> are not part of the
  sources at hand. The orchestrator states are the seven the function dispatches on; every
  other value of \<^verbatim>\<open>as_state\<close> is \<open>ASR_STATE_OTHER\<close> and takes the
  \<^verbatim>\<open>default\<close> branch. The backend kinds are the three the function dispatches on
  and \<open>ASR_DB_OTHER\<close> for the rest.
\<close>

datatype asr_state =
    ASR_STATE_INIT
  | ASR_STATE_NEXT_DB
  | ASR_STATE_SAME_DB
  | ASR_STATE_NEXT_FAMILY
  | ASR_STATE_SUBQUERY
  | ASR_STATE_NOT_FOUND
  | ASR_STATE_HALT
  | ASR_STATE_OTHER nat

datatype asr_db = ASR_DB_FILE | ASR_DB_DNS | ASR_DB_YP | ASR_DB_OTHER

text \<open>
  Modelled from the spec: the retry mark of a request and the bound on the tokens of a
  line are macros of \<^verbatim>\<open>asr_private.h\<close>; the results depend on the mark only
  through its being one nonzero bit.
\<close>

definition ASYNC_AGAIN :: "32 word" where "ASYNC_AGAIN = 0x200"

definition MAXTOKEN :: nat where "MAXTOKEN = 10"

text \<open>The resolver context: the configured backends, families and hosts file.\<close>

record asr_ctx =
  ac_db :: "asr_db list"
  ac_family :: "int list"
  ac_hostfile :: string

text \<open>A sub-query handed to the external DNS primitive: search or plain query, name, class, type.\<close>

record subq =
  sq_search :: bool
  sq_name :: string
  sq_class :: int
  sq_type :: int

text \<open>\<^verbatim>\<open>struct async\<close>, with the fields of \<^verbatim>\<open>as.ai\<close> that the function uses.\<close>

record async =
  as_state :: asr_state
  as_ctx :: asr_ctx
  as_count :: int
  as_db_idx :: nat
  as_family_idx :: nat
  hostname :: "string option"
  servname :: "string option"
  hints :: addrinfo
  fqdn :: "string option"
  port_tcp :: int
  port_udp :: int
  ailist :: "addrinfo list"
  subquery :: "subq option"
  flags :: "32 word"

text \<open>
  A decoded DNS response: the question that the last \<^verbatim>\<open>unpack_query\<close> left in
  \<^verbatim>\<open>q\<close> and the answer records in the order \<^verbatim>\<open>unpack_rr\<close> yields them. Names
  are the text \<^verbatim>\<open>asr_strdname\<close> prints, trailing dot included. A record carries
  both views of its data union.
\<close>

record query =
  q_dname :: string
  q_type :: int
  q_class :: int

record rr =
  rr_type :: int
  rr_class :: int
  rr_dname :: string
  in_a_addr :: "8 word list"
  in_aaaa_addr6 :: "8 word list"

record packet =
  pkt_query :: query
  pkt_answers :: "rr list"

text \<open>\<^verbatim>\<open>struct async_res\<close>, with the fields the function reads or writes.\<close>

record async_res =
  ar_errno :: int
  ar_gai_errno :: int
  ar_count :: int
  ar_addrinfo :: "addrinfo list"
  ar_datalen :: int
  ar_data :: "packet option"

text \<open>
  The collaborators outside the file, as parameters: the build switches of the
  preprocessor, the address parser, the number parser, the services database, the
  hosts file (each line split into its address token and its name tokens, as
  \<^verbatim>\<open>asr_parse_namedb_line\<close> returns them), the creation of a sub-query (the
  \<^verbatim>\<open>errno\<close> it fails with, if it fails) and the NIS client.
\<close>

record env =
  have_EAI_BADHINTS :: bool
  have_GETSERVBYNAME_R_4_ARGS :: bool
  have_YP :: bool
  sockaddr_from_str :: "int \<Rightarrow> string \<Rightarrow> sockaddr option"
  strtonum :: "string \<Rightarrow> int \<Rightarrow> int \<Rightarrow> int + int"
  getservbyname_r :: "string \<Rightarrow> string \<Rightarrow> int option"
  SA_LEN :: "sockaddr \<Rightarrow> nat"
  fopen :: "string \<Rightarrow> (string \<times> string list) list option"
  subq_new :: "subq \<Rightarrow> int option"
  yp_check :: "string option"
  yp_match :: "string \<Rightarrow> string \<Rightarrow> string \<Rightarrow> int \<times> string"

text \<open>
  What one resumption of the owned sub-query reports: \<^verbatim>\<open>ASYNC_COND\<close>,
  completion without data (\<^verbatim>\<open>ar_datalen\<close> is \<open>-1\<close>), or completion with a
  response of some length.
\<close>

datatype subq_event = Subq_cond | Subq_nodata | Subq_data nat packet

text \<open>The calls that reach a backend, recorded in the order they are made.\<close>

datatype call =
    Call_fopen string
  | Call_subq_new subq
  | Call_subq_run
  | Call_yp_check
  | Call_yp_match string string string

text \<open>
  The mutable surroundings: how many further allocations succeed before one fails
  (\<open>None\<close>: none ever fails), \<^verbatim>\<open>errno\<close>, the reports the sub-queries will give,
  the static \<^verbatim>\<open>domain\<close> of the NIS branch, and the record of backend calls.
\<close>

record world =
  w_alloc :: "nat option"
  w_errno :: int
  w_events :: "subq_event list"
  w_domain :: "string option"
  w_trace :: "call list"

definition alloc :: "world \<Rightarrow> bool \<times> world" where
  "alloc w =
    (case w_alloc w of
      None \<Rightarrow> (True, w)
    | Some 0 \<Rightarrow> (False, w\<lparr>w_errno := ENOMEM\<rparr>)
    | Some (Suc n) \<Rightarrow> (True, w\<lparr>w_alloc := Some n\<rparr>))"

text \<open>
  Modelled from the spec: the macro \<^verbatim>\<open>AS_FAMILY\<close>, the macro \<^verbatim>\<open>AS_DB\<close> and
  \<^verbatim>\<open>asr_iter_db\<close> are not in the sources at hand. Both are plain forward iterators:
  the family at the family cursor, or the exhaustion marker \<open>-1\<close> past the configured
  list; the backend selected last (the cursor counts the backends selected so far), and
  the selection of the next backend, \<open>-1\<close> when none remains.
\<close>

definition AS_FAMILY :: "async \<Rightarrow> int" where
  "AS_FAMILY as =
    (if as_family_idx as < length (ac_family (as_ctx as))
     then ac_family (as_ctx as) ! as_family_idx as else - 1)"

definition AS_DB :: "async \<Rightarrow> asr_db" where
  "AS_DB as =
    (if 0 < as_db_idx as \<and> as_db_idx as \<le> length (ac_db (as_ctx as))
     then ac_db (as_ctx as) ! (as_db_idx as - 1) else ASR_DB_OTHER)"

definition asr_iter_db :: "async \<Rightarrow> int \<times> async" where
  "asr_iter_db as =
    (if as_db_idx as \<ge> length (ac_db (as_ctx as)) then (- 1, as)
     else (0, as\<lparr>as_db_idx := as_db_idx as + 1\<rparr>))"

section \<open>Ports and families\<close>

definition get_port :: "env \<Rightarrow> string option \<Rightarrow> string \<Rightarrow> bool \<Rightarrow> int" where
  "get_port e sn proto numonly =
    (case sn of
      None \<Rightarrow> 0
    | Some s \<Rightarrow>
        (case strtonum e s 0 USHRT_MAX of
          Inr port \<Rightarrow> port
        | Inl err \<Rightarrow>
            if err = ERANGE then - 2
            else if numonly then - 2
            else if have_GETSERVBYNAME_R_4_ARGS e then
              (case getservbyname_r e s proto of None \<Rightarrow> - 1 | Some port \<Rightarrow> port)
            else - 1))"

definition iter_family :: "async \<Rightarrow> bool \<Rightarrow> int \<times> async" where
  "iter_family as first =
    (if first then
       (let as1 = as\<lparr>as_family_idx := 0\<rparr> in
        if ai_family (hints as1) \<noteq> PF_UNSPEC then (ai_family (hints as1), as1)
        else (AS_FAMILY as1, as1))
     else if ai_family (hints as) \<noteq> PF_UNSPEC then (- 1, as)
     else
       (let as1 = as\<lparr>as_family_idx := as_family_idx as + 1\<rparr> in (AS_FAMILY as1, as1)))"

section \<open>The address list builder\<close>

text \<open>
  The entry \<^verbatim>\<open>addrinfo_add\<close> fills in for one table row: zeroed by
  \<^verbatim>\<open>calloc\<close>, then family, socket type, protocol, length, the copied address with the
  port stored for the two known families, and the canonical name if one was copied.
\<close>

definition set_port :: "sockaddr \<Rightarrow> int \<Rightarrow> sockaddr" where
  "set_port sa port =
    (if sa_family sa = PF_INET then sa\<lparr>sa_port := word_of_int port\<rparr>
     else if sa_family sa = PF_INET6 then sa\<lparr>sa_port := word_of_int port\<rparr>
     else sa)"

definition new_ai :: "env \<Rightarrow> match \<Rightarrow> sockaddr \<Rightarrow> int \<Rightarrow> int \<Rightarrow> string option \<Rightarrow> addrinfo" where
  "new_ai e m sa proto port cn =
    \<lparr>ai_flags = 0, ai_family = sa_family sa, ai_socktype = m_socktype m,
     ai_protocol = proto, ai_addrlen = SA_LEN e sa, ai_addr = Some (set_port sa port),
     ai_canonname = cn, ai_next = False\<rparr>"

definition ai_append :: "async \<Rightarrow> addrinfo \<Rightarrow> async" where
  "ai_append as ai = as\<lparr>ailist := ailist as @ [ai], as_count := as_count as + 1\<rparr>"

definition row_proto :: "async \<Rightarrow> match \<Rightarrow> int" where
  "row_proto as m =
    (if ai_protocol (hints as) = 0 then m_protocol m else ai_protocol (hints as))"

definition row_port :: "async \<Rightarrow> int \<Rightarrow> int" where
  "row_port as proto =
    (if proto = IPPROTO_TCP then port_tcp as
     else if proto = IPPROTO_UDP then port_udp as
     else 0)"

fun addrinfo_add_from ::
  "env \<Rightarrow> match list \<Rightarrow> sockaddr \<Rightarrow> string option \<Rightarrow> async \<Rightarrow> world \<Rightarrow> int \<times> async \<times> world"
where
  "addrinfo_add_from e [] sa cname as w = (0, as, w)"
| "addrinfo_add_from e (m # ms) sa cname as w =
    (if m_family m = - 1 then (0, as, w)
     else if m_family m \<noteq> sa_family sa
        \<or> \<not> MATCH_SOCKTYPE (ai_socktype (hints as)) m
        \<or> \<not> MATCH_PROTO (ai_protocol (hints as)) m
     then addrinfo_add_from e ms sa cname as w
     else if row_port as (row_proto as m) = - 1
     then addrinfo_add_from e ms sa cname as w
     else
       (case alloc w of
         (False, w1) \<Rightarrow> (EAI_MEMORY, as, w1)
       | (True, w1) \<Rightarrow>
           if cname \<noteq> None \<and> ai_flags (hints as) AND (AI_CANONNAME OR AI_FQDN) \<noteq> 0
           then
             (case alloc w1 of
               (False, w2) \<Rightarrow> (EAI_MEMORY, as, w2)
             | (True, w2) \<Rightarrow>
                 addrinfo_add_from e ms sa cname
                   (ai_append as
                     (new_ai e m sa (row_proto as m) (row_port as (row_proto as m)) cname))
                   w2)
           else
             addrinfo_add_from e ms sa cname
               (ai_append as
                 (new_ai e m sa (row_proto as m) (row_port as (row_proto as m)) None))
               w1))"

definition addrinfo_add ::
  "env \<Rightarrow> async \<Rightarrow> world \<Rightarrow> sockaddr \<Rightarrow> string option \<Rightarrow> int \<times> async \<times> world"
where
  "addrinfo_add e as w sa cname = addrinfo_add_from e matches sa cname as w"

section \<open>The local database line matcher\<close>

text \<open>
  \<^verbatim>\<open>strcasecmp\<close>, as the truth value of its result: true when the two strings differ
  after folding the ASCII capitals.
\<close>

definition tolower :: "char \<Rightarrow> char" where
  "tolower c =
    (if (65::nat) \<le> of_char c \<and> of_char c \<le> (90::nat)
     then char_of (of_char c + (32::nat)) else c)"

definition strcasecmp :: "string \<Rightarrow> string \<Rightarrow> bool" where
  "strcasecmp a b \<longleftrightarrow> map tolower a \<noteq> map tolower b"

text \<open>
  The inner loop over the name tokens \<^verbatim>\<open>tokens[1..n-1]\<close> of one line: the address
  parsed at the first token that equals the hostname, or \<open>Some None\<close> when the loop
  runs to \<^verbatim>\<open>i == n\<close>. The outer \<open>None\<close> is the fault of comparing against a
  hostname that is a null pointer, which the C leaves undefined.
\<close>

fun line_match ::
  "env \<Rightarrow> string option \<Rightarrow> int \<Rightarrow> string \<Rightarrow> string list \<Rightarrow> sockaddr option option"
where
  "line_match e h family addr [] = Some None"
| "line_match e h family addr (t # ts) =
    (case h of
      None \<Rightarrow> None
    | Some hn \<Rightarrow>
        if strcasecmp hn t then line_match e h family addr ts
        else
          (case sockaddr_from_str e family addr of
            None \<Rightarrow> line_match e h family addr ts
          | Some u \<Rightarrow> Some (Some u)))"

fun addrinfo_from_file ::
  "env \<Rightarrow> async \<Rightarrow> world \<Rightarrow> int \<Rightarrow> (string \<times> string list) list
    \<Rightarrow> (int \<times> async \<times> world) option"
where
  "addrinfo_from_file e as w family [] = Some (0, as, w)"
| "addrinfo_from_file e as w family ((addr, []) # ls) = addrinfo_from_file e as w family ls"
| "addrinfo_from_file e as w family ((addr, t1 # ts) # ls) =
    (case line_match e (hostname as) family addr (t1 # ts) of
      None \<Rightarrow> None
    | Some None \<Rightarrow> addrinfo_from_file e as w family ls
    | Some (Some u) \<Rightarrow>
        (case addrinfo_add e as w u
            (if ai_flags (hints as) AND (AI_CANONNAME OR AI_FQDN) \<noteq> 0 then Some t1 else None)
         of (r, as1, w1) \<Rightarrow>
           if r \<noteq> 0 then Some (- 1, as1, w1)
           else addrinfo_from_file e as1 w1 family ls))"

section \<open>The DNS answer extractor\<close>

definition sockaddr_of_rr :: "rr \<Rightarrow> sockaddr option" where
  "sockaddr_of_rr r =
    (if rr_type r = T_A
     then Some \<lparr>sa_family = PF_INET, sa_port = 0, sa_addr = in_a_addr r\<rparr>
     else if rr_type r = T_AAAA
     then Some \<lparr>sa_family = PF_INET6, sa_port = 0, sa_addr = in_aaaa_addr6 r\<rparr>
     else None)"

definition pkt_cname :: "async \<Rightarrow> rr \<Rightarrow> string option" where
  "pkt_cname as r =
    (if ai_flags (hints as) AND AI_CANONNAME \<noteq> 0 then Some (butlast (rr_dname r))
     else if ai_flags (hints as) AND AI_FQDN \<noteq> 0 then fqdn as
     else None)"

text \<open>
  The name learned from the question at the first matching record, when the request has
  none yet: the printed name without its last character, copied by \<^verbatim>\<open>strdup\<close>.
\<close>

definition learn_fqdn :: "async \<Rightarrow> world \<Rightarrow> query \<Rightarrow> bool \<times> async \<times> world" where
  "learn_fqdn as w q =
    (if fqdn as = None
     then
       (case alloc w of
         (False, w1) \<Rightarrow> (False, as, w1)
       | (True, w1) \<Rightarrow> (True, as\<lparr>fqdn := Some (butlast (q_dname q))\<rparr>, w1))
     else (True, as, w))"

fun addrinfo_from_rrs ::
  "env \<Rightarrow> async \<Rightarrow> world \<Rightarrow> query \<Rightarrow> rr list \<Rightarrow> int \<times> async \<times> world"
where
  "addrinfo_from_rrs e as w q [] = (0, as, w)"
| "addrinfo_from_rrs e as w q (r # rs) =
    (if rr_type r \<noteq> q_type q \<or> rr_class r \<noteq> q_class q
     then addrinfo_from_rrs e as w q rs
     else
       (case learn_fqdn as w q of
          (False, as1, w1) \<Rightarrow> (- 1, as1, w1)
        | (True, as1, w1) \<Rightarrow>
            (case sockaddr_of_rr r of
              None \<Rightarrow> addrinfo_from_rrs e as1 w1 q rs
            | Some u \<Rightarrow>
                (case addrinfo_add e as1 w1 u (pkt_cname as1 r) of (r1, as2, w2) \<Rightarrow>
                  if r1 \<noteq> 0 then (- 1, as2, w2)
                  else addrinfo_from_rrs e as2 w2 q rs))))"

definition addrinfo_from_pkt :: "env \<Rightarrow> async \<Rightarrow> world \<Rightarrow> packet \<Rightarrow> int \<times> async \<times> world" where
  "addrinfo_from_pkt e as w pkt = addrinfo_from_rrs e as w (pkt_query pkt) (pkt_answers pkt)"

section \<open>The NIS lines\<close>

text \<open>
  The fields that repeated \<^verbatim>\<open>strsep\<close> (or \<^verbatim>\<open>strchr\<close> for the lines) cuts a
  string into at the delimiters, empty fields included.
\<close>

fun fields :: "(char \<Rightarrow> bool) \<Rightarrow> string \<Rightarrow> string list" where
  "fields d [] = [[]]"
| "fields d (c # cs) =
    (if d c then [] # fields d cs
     else (case fields d cs of [] \<Rightarrow> [[c]] | f # fs \<Rightarrow> (c # f) # fs))"

definition strsplit :: "string \<Rightarrow> nat \<Rightarrow> string list" where
  "strsplit line ntokens =
    take ntokens (filter (\<lambda>t. t \<noteq> []) (fields (\<lambda>c. c = CHR '' '' \<or> c = CHR 0x09) line))"

fun addrinfo_from_yp_lines ::
  "env \<Rightarrow> async \<Rightarrow> world \<Rightarrow> int \<Rightarrow> string list \<Rightarrow> int \<times> async \<times> world"
where
  "addrinfo_from_yp_lines e as w family [] = (0, as, w)"
| "addrinfo_from_yp_lines e as w family (l # ls) =
    (case strsplit l MAXTOKEN of
      t0 # t1 # ts \<Rightarrow>
        (case sockaddr_from_str e family t0 of
          None \<Rightarrow> addrinfo_from_yp_lines e as w family ls
        | Some u \<Rightarrow>
            (case addrinfo_add e as w u
                (if ai_flags (hints as) AND (AI_CANONNAME OR AI_FQDN) \<noteq> 0 then Some t1 else None)
             of (r, as1, w1) \<Rightarrow>
               if r \<noteq> 0 then (- 1, as1, w1)
               else addrinfo_from_yp_lines e as1 w1 family ls))
    | _ \<Rightarrow> addrinfo_from_yp_lines e as w family ls)"

definition addrinfo_from_yp :: "env \<Rightarrow> async \<Rightarrow> world \<Rightarrow> int \<Rightarrow> string \<Rightarrow> int \<times> async \<times> world" where
  "addrinfo_from_yp e as w family line =
    addrinfo_from_yp_lines e as w family (fields (\<lambda>c. c = CHR 0x0A) line)"

section \<open>Frame of the builder\<close>

text \<open>
  The builder and the three feeders change the output list, the output count and the
  learned name of the request, and nothing else of it.
\<close>

definition grown :: "async \<Rightarrow> async \<Rightarrow> bool" where
  "grown as as' \<longleftrightarrow>
    as_state as' = as_state as \<and> as_ctx as' = as_ctx as \<and> as_db_idx as' = as_db_idx as \<and>
    as_family_idx as' = as_family_idx as \<and> hostname as' = hostname as \<and>
    servname as' = servname as \<and> hints as' = hints as \<and> port_tcp as' = port_tcp as \<and>
    port_udp as' = port_udp as \<and> subquery as' = subquery as \<and> flags as' = flags as"

lemma grown_refl: "grown as as"
  by (simp add: grown_def)

lemma grown_trans: "grown a b \<Longrightarrow> grown b c \<Longrightarrow> grown a c"
  by (simp add: grown_def)

lemma grown_ai_append: "grown as (ai_append as ai)"
  by (simp add: grown_def ai_append_def)

lemma row_proto_grown: "grown as as' \<Longrightarrow> row_proto as' m = row_proto as m"
  by (simp add: grown_def row_proto_def)

lemma row_port_grown: "grown as as' \<Longrightarrow> row_port as' p = row_port as p"
  by (simp add: grown_def row_port_def)

lemma addrinfo_add_from_grown:
  "addrinfo_add_from e ms sa cname as w = (r, as', w') \<Longrightarrow> grown as as'"
proof (induction ms arbitrary: as w)
  case Nil
  then show ?case by (simp add: grown_refl)
next
  case (Cons m ms)
  show ?case
    using Cons.prems Cons.IH grown_ai_append grown_trans grown_refl
    by (fastforce split: if_splits prod.splits bool.splits)
qed

lemma addrinfo_add_grown: "addrinfo_add e as w sa cname = (r, as', w') \<Longrightarrow> grown as as'"
  unfolding addrinfo_add_def by (rule addrinfo_add_from_grown)

lemma addrinfo_from_file_grown:
  "addrinfo_from_file e as w family ls = Some (r, as', w') \<Longrightarrow> grown as as'"
proof (induction e as w family ls arbitrary: r as' w' rule: addrinfo_from_file.induct)
  case (1 e as w family)
  then show ?case by (simp add: grown_refl)
next
  case (2 e as w family addr ls)
  then show ?case by simp
next
  case (3 e as w family addr t1 ts ls)
  show ?case
  proof (cases "line_match e (hostname as) family addr (t1 # ts)")
    case None
    then show ?thesis using "3.prems" by simp
  next
    case (Some o1)
    note lm = Some
    show ?thesis
    proof (cases o1)
      case None
      then show ?thesis using lm "3.prems" "3.IH"(1) by simp
    next
      case (Some u)
      obtain r1 as1 w1 where a: "addrinfo_add e as w u
            (if ai_flags (hints as) AND (AI_CANONNAME OR AI_FQDN) \<noteq> 0 then Some t1 else None)
            = (r1, as1, w1)"
        by (cases "addrinfo_add e as w u
            (if ai_flags (hints as) AND (AI_CANONNAME OR AI_FQDN) \<noteq> 0 then Some t1 else None)")
          auto
      have g: "grown as as1" using a by (rule addrinfo_add_grown)
      show ?thesis
      proof (cases "r1 = 0")
        case True
        have "addrinfo_from_file e as1 w1 family ls = Some (r, as', w')"
          using "3.prems" lm Some a True by simp
        then have "grown as1 as'"
          using "3.IH"(2) lm Some a True by simp
        then show ?thesis using g grown_trans by blast
      next
        case False
        then show ?thesis using "3.prems" lm Some a g by simp
      qed
    qed
  qed
qed

lemma learn_fqdn_grown: "learn_fqdn as w q = (b, as', w') \<Longrightarrow> grown as as'"
  by (auto simp: learn_fqdn_def grown_def split: if_splits prod.splits bool.splits)

lemma addrinfo_from_rrs_grown:
  "addrinfo_from_rrs e as w q rs = (r, as', w') \<Longrightarrow> grown as as'"
proof (induction rs arbitrary: as w)
  case Nil
  then show ?case by (simp add: grown_refl)
next
  case (Cons a rs)
  show ?case
  proof (cases "rr_type a \<noteq> q_type q \<or> rr_class a \<noteq> q_class q")
    case True
    then show ?thesis using Cons by simp
  next
    case False
    obtain b as1 w1 where l: "learn_fqdn as w q = (b, as1, w1)"
      by (cases "learn_fqdn as w q") auto
    have g1: "grown as as1" using l by (rule learn_fqdn_grown)
    show ?thesis
    proof (cases b)
      case False
      then show ?thesis using Cons.prems \<open>\<not> (rr_type a \<noteq> q_type q \<or> rr_class a \<noteq> q_class q)\<close> l g1
        by simp
    next
      case True
      note b = True
      show ?thesis
      proof (cases "sockaddr_of_rr a")
        case None
        then have "addrinfo_from_rrs e as1 w1 q rs = (r, as', w')"
          using Cons.prems False l b by simp
        then have "grown as1 as'" by (rule Cons.IH)
        then show ?thesis using g1 grown_trans by blast
      next
        case (Some u)
        obtain r1 as2 w2 where a: "addrinfo_add e as1 w1 u (pkt_cname as1 a) = (r1, as2, w2)"
          by (cases "addrinfo_add e as1 w1 u (pkt_cname as1 a)") auto
        have g2: "grown as1 as2" using a by (rule addrinfo_add_grown)
        show ?thesis
        proof (cases "r1 = 0")
          case True
          then have "addrinfo_from_rrs e as2 w2 q rs = (r, as', w')"
            using Cons.prems False l b Some a by simp
          then have "grown as2 as'" by (rule Cons.IH)
          then show ?thesis using g1 g2 grown_trans by blast
        next
          case False
          then have "as' = as2"
            using Cons.prems \<open>\<not> (rr_type a \<noteq> q_type q \<or> rr_class a \<noteq> q_class q)\<close> l b Some a
            by simp
          then show ?thesis using g1 g2 grown_trans by blast
        qed
      qed
    qed
  qed
qed

lemma addrinfo_from_yp_lines_grown:
  "addrinfo_from_yp_lines e as w family ls = (r, as', w') \<Longrightarrow> grown as as'"
proof (induction ls arbitrary: as w)
  case Nil
  then show ?case by (simp add: grown_refl)
next
  case (Cons l ls)
  show ?case
  proof (cases "strsplit l MAXTOKEN")
    case Nil
    then have "addrinfo_from_yp_lines e as w family ls = (r, as', w')"
      using Cons.prems by simp
    then show ?thesis by (rule Cons.IH)
  next
    case c1: (Cons t0 ts0)
    show ?thesis
    proof (cases ts0)
      case Nil
      then have "addrinfo_from_yp_lines e as w family ls = (r, as', w')"
        using Cons.prems c1 by simp
      then show ?thesis by (rule Cons.IH)
    next
      case c2: (Cons t1 ts)
      show ?thesis
      proof (cases "sockaddr_from_str e family t0")
        case None
        then have "addrinfo_from_yp_lines e as w family ls = (r, as', w')"
          using Cons.prems c1 c2 by simp
        then show ?thesis by (rule Cons.IH)
      next
        case (Some u)
        obtain r1 as1 w1 where a: "addrinfo_add e as w u
            (if ai_flags (hints as) AND (AI_CANONNAME OR AI_FQDN) \<noteq> 0 then Some t1 else None) = (r1, as1, w1)"
          by (cases "addrinfo_add e as w u
            (if ai_flags (hints as) AND (AI_CANONNAME OR AI_FQDN) \<noteq> 0 then Some t1 else None)") auto
        have g: "grown as as1" using a by (rule addrinfo_add_grown)
        show ?thesis
        proof (cases "r1 = 0")
          case True
          then have "addrinfo_from_yp_lines e as1 w1 family ls = (r, as', w')"
            using Cons.prems c1 c2 Some a by simp
          then have "grown as1 as'" by (rule Cons.IH)
          then show ?thesis using g grown_trans by blast
        next
          case False
          then have "as' = as1"
            using Cons.prems c1 c2 Some a by simp
          then show ?thesis using g by simp
        qed
      qed
    qed
  qed
qed

section \<open>The orchestrator\<close>

type_synonym config = "async \<times> async_res \<times> world"

definition async_set_state :: "async \<Rightarrow> asr_state \<Rightarrow> async" where
  "async_set_state as st = as\<lparr>as_state := st\<rparr>"

definition halt_with :: "async \<Rightarrow> async_res \<Rightarrow> world \<Rightarrow> int \<Rightarrow> config" where
  "halt_with as ar w err = (async_set_state as ASR_STATE_HALT, ar\<lparr>ar_gai_errno := err\<rparr>, w)"

text \<open>The row at which the search for a valid combination stops.\<close>

fun find_match :: "addrinfo \<Rightarrow> match list \<Rightarrow> match" where
  "find_match ai [] = mk_match (- 1) 0 0"
| "find_match ai (m # ms) =
    (if m_family m = - 1 then m
     else if MATCH_FAMILY (ai_family ai) m \<and> MATCH_SOCKTYPE (ai_socktype ai) m
        \<and> MATCH_PROTO (ai_protocol ai) m
     then m
     else find_match ai ms)"

text \<open>The literal parsed for a family when the hostname is absent.\<close>

definition local_str :: "async \<Rightarrow> int \<Rightarrow> string" where
  "local_str as family =
    (if family = PF_INET
     then (if ai_flags (hints as) AND AI_PASSIVE \<noteq> 0 then ''0.0.0.0'' else ''127.0.0.1'')
     else (if ai_flags (hints as) AND AI_PASSIVE \<noteq> 0 then ''::'' else ''::1''))"

definition fam_measure :: "int \<Rightarrow> async \<Rightarrow> nat" where
  "fam_measure family as =
    (if family = - 1 then 0
     else Suc (length (ac_family (as_ctx as)) - as_family_idx as))"

lemma fam_measure_grown: "grown as as' \<Longrightarrow> fam_measure f as' = fam_measure f as"
  by (simp add: fam_measure_def grown_def)

lemma iter_family_next_less:
  assumes "family \<noteq> - 1" and "iter_family as False = (f', as')"
  shows "fam_measure f' as' < fam_measure family as"
  using assms
  by (auto simp: iter_family_def fam_measure_def AS_FAMILY_def Let_def split: if_splits)

text \<open>
  The loop for an absent hostname. The local \<^verbatim>\<open>sa\<close> keeps what the last successful
  parse wrote (the result of the parse is not tested); \<open>None\<close> in the third component
  is the local never written, and handing it to the builder is a fault (the result
  \<open>None\<close>).
\<close>

function local_loop :: "env \<Rightarrow> int \<Rightarrow> sockaddr option \<Rightarrow> async \<Rightarrow> async_res \<Rightarrow> world \<Rightarrow> config option"
where
  "local_loop e family sa as ar w =
    (if family = - 1 then Some (as, ar, w)
     else
       (case (case sockaddr_from_str e family (local_str as family) of
                None \<Rightarrow> sa | Some u \<Rightarrow> Some u)
        of
          None \<Rightarrow> None
        | Some u \<Rightarrow>
            (case addrinfo_add e as w u None of (r, as1, w1) \<Rightarrow>
              if r \<noteq> 0 then Some (as1, ar\<lparr>ar_gai_errno := r\<rparr>, w1)
              else
                (case iter_family as1 False of (f', as2) \<Rightarrow>
                  local_loop e f' (Some u) as2 ar w1))))"
  by pat_completeness auto
termination
proof (relation "measure (\<lambda>(e, family, sa, as, ar, w). fam_measure family as)", goal_cases)
  case 1
  show ?case by simp
next
  case (2 e family sa as ar w u r y as1 w1 f' as2)
  have "addrinfo_add e as w u None = (r, as1, w1)"
    using 2 by simp
  then have "grown as as1"
    by (rule addrinfo_add_grown)
  moreover have "fam_measure f' as2 < fam_measure family as1"
    using 2 iter_family_next_less [of family as1 f' as2] by simp
  ultimately show ?case
    by (simp add: fam_measure_grown)
qed

text \<open>The loop that tries the hostname as a numeric literal, family by family.\<close>

function numeric_loop :: "env \<Rightarrow> string \<Rightarrow> int \<Rightarrow> async \<Rightarrow> async_res \<Rightarrow> world \<Rightarrow> config"
where
  "numeric_loop e h family as ar w =
    (if family = - 1 then (as, ar, w)
     else
       (case sockaddr_from_str e family h of
         None \<Rightarrow>
           (case iter_family as False of (f', as1) \<Rightarrow> numeric_loop e h f' as1 ar w)
       | Some u \<Rightarrow>
           (case addrinfo_add e as w u None of (r, as1, w1) \<Rightarrow>
             (as1, (if r \<noteq> 0 then ar\<lparr>ar_gai_errno := r\<rparr> else ar), w1))))"
  by pat_completeness auto
termination
proof (relation "measure (\<lambda>(e, h, family, as, ar, w). fam_measure family as)", goal_cases)
  case 1
  show ?case by simp
next
  case (2 e h family as ar w f' as1)
  then show ?case
    using iter_family_next_less [of family as f' as1] by simp
qed

lemma iter_family_ctx:
  "iter_family as b = (f, as') \<Longrightarrow> as_ctx as' = as_ctx as \<and> as_db_idx as' = as_db_idx as"
  by (auto simp: iter_family_def Let_def split: if_splits)

lemma local_loop_ctx:
  "local_loop e family sa as ar w = Some (as', ar', w') \<Longrightarrow>
     as_ctx as' = as_ctx as \<and> as_db_idx as' = as_db_idx as"
proof (induction e family sa as ar w rule: local_loop.induct)
  case (1 e family sa as ar w)
  show ?case
  proof (cases "family = - 1")
    case True
    then show ?thesis using "1.prems" by simp
  next
    case False
    note nf = False
    obtain u where u: "(case sockaddr_from_str e family (local_str as family) of
                None \<Rightarrow> sa | Some u \<Rightarrow> Some u) = Some u"
      using "1.prems" nf by (auto split: option.splits)
    obtain r as1 w1 where a: "addrinfo_add e as w u None = (r, as1, w1)"
      by (cases "addrinfo_add e as w u None") auto
    have g: "grown as as1" using a by (rule addrinfo_add_grown)
    show ?thesis
    proof (cases "r = 0")
      case False
      then have "as' = as1" using "1.prems" nf u a by simp
      then show ?thesis using g by (simp add: grown_def)
    next
      case True
      obtain f' as2 where i: "iter_family as1 False = (f', as2)"
        by (cases "iter_family as1 False") auto
      have "local_loop e f' (Some u) as2 ar w1 = Some (as', ar', w')"
        using "1.prems" nf u a True i by simp
      then have "as_ctx as' = as_ctx as2 \<and> as_db_idx as' = as_db_idx as2"
        using "1.IH" [OF nf u a [symmetric] refl _ i [symmetric]] True by simp
      then show ?thesis using g iter_family_ctx [OF i] by (simp add: grown_def)
    qed
  qed
qed

lemma numeric_loop_ctx:
  "numeric_loop e h family as ar w = (as', ar', w') \<Longrightarrow>
     as_ctx as' = as_ctx as \<and> as_db_idx as' = as_db_idx as"
proof (induction e h family as ar w rule: numeric_loop.induct)
  case (1 e h family as ar w)
  show ?case
  proof (cases "family = - 1")
    case True
    then show ?thesis using "1.prems" by simp
  next
    case False
    note nf = False
    show ?thesis
    proof (cases "sockaddr_from_str e family h")
      case None
      obtain f' as1 where i: "iter_family as False = (f', as1)"
        by (cases "iter_family as False") auto
      have "numeric_loop e h f' as1 ar w = (as', ar', w')"
        using "1.prems" nf None i by simp
      then have "as_ctx as' = as_ctx as1 \<and> as_db_idx as' = as_db_idx as1"
        using "1.IH" [OF nf None i [symmetric]] by simp
      then show ?thesis using iter_family_ctx [OF i] by simp
    next
      case (Some u)
      obtain r as1 w1 where a: "addrinfo_add e as w u None = (r, as1, w1)"
        by (cases "addrinfo_add e as w u None") auto
      have g: "grown as as1" using a by (rule addrinfo_add_grown)
      have "as' = as1" using "1.prems" nf Some a by simp
      then show ?thesis using g by (simp add: grown_def)
    qed
  qed
qed

text \<open>The two port lookups of the initial state and the test that follows them.\<close>

definition resolve_ports :: "env \<Rightarrow> async \<Rightarrow> async" where
  "resolve_ports e as =
    (let ai = hints as;
         as1 = (if ai_protocol ai = 0 \<or> ai_protocol ai = IPPROTO_UDP
                then as\<lparr>port_udp :=
                  get_port e (servname as) ''udp'' (ai_flags ai AND AI_NUMERICSERV \<noteq> 0)\<rparr>
                else as)
     in (if ai_protocol ai = 0 \<or> ai_protocol ai = IPPROTO_TCP
         then as1\<lparr>port_tcp :=
           get_port e (servname as1) ''tcp'' (ai_flags ai AND AI_NUMERICSERV \<noteq> 0)\<rparr>
         else as1))"

definition ports_bad :: "async \<Rightarrow> bool" where
  "ports_bad as \<longleftrightarrow>
    port_tcp as = - 2 \<or> port_udp as = - 2
    \<or> (port_tcp as = - 1 \<and> port_udp as = - 1)
    \<or> (ai_protocol (hints as) \<noteq> 0 \<and> (port_udp as = - 1 \<or> port_tcp as = - 1))"

text \<open>
  The parameter checks that open \<^verbatim>\<open>case ASR_STATE_INIT\<close>, in the order of the
  source: the error code of the first check that fails, or \<open>None\<close> when all pass.
\<close>

definition check_params :: "env \<Rightarrow> async \<Rightarrow> int option" where
  "check_params e as =
    (let ai = hints as in
     if hostname as = None \<and> servname as = None
     then Some EAI_NONAME
     else if have_EAI_BADHINTS e
        \<and> (ai_addrlen ai \<noteq> 0 \<or> ai_canonname ai \<noteq> None \<or> ai_addr ai \<noteq> None \<or> ai_next ai)
     then Some EAI_BADHINTS
     else if ai_flags ai AND NOT AI_MASK \<noteq> 0
        \<or> (ai_flags ai AND AI_CANONNAME \<noteq> 0 \<and> ai_flags ai AND AI_FQDN \<noteq> 0)
     then Some EAI_BADFLAGS
     else if ai_family ai \<noteq> PF_UNSPEC \<and> ai_family ai \<noteq> PF_INET \<and> ai_family ai \<noteq> PF_INET6
     then Some EAI_FAMILY
     else if ai_socktype ai \<noteq> 0 \<and> ai_socktype ai \<noteq> SOCK_DGRAM
        \<and> ai_socktype ai \<noteq> SOCK_STREAM \<and> ai_socktype ai \<noteq> SOCK_RAW
     then Some EAI_SOCKTYPE
     else if ai_socktype ai = SOCK_RAW \<and> servname as \<noteq> None
     then Some EAI_SERVICE
     else if m_family (find_match ai matches) = - 1
     then Some (if have_EAI_BADHINTS e then EAI_BADHINTS else EAI_FAIL)
     else None)"

text \<open>
  The branch for an absent hostname, from the first family on. The result \<open>None\<close> is
  the fault of the local loop.
\<close>

definition init_local :: "env \<Rightarrow> async \<Rightarrow> async_res \<Rightarrow> world \<Rightarrow> config option" where
  "init_local e as ar w =
    (case iter_family as True of (family, as2) \<Rightarrow>
      (case local_loop e family None as2 ar w of
        None \<Rightarrow> None
      | Some (as3, ar3, w3) \<Rightarrow>
          Some (async_set_state as3 ASR_STATE_HALT,
                (if ar_gai_errno ar3 = 0 \<and> as_count as3 = 0
                 then ar3\<lparr>ar_gai_errno := EAI_NODATA\<rparr> else ar3),
                w3)))"

text \<open>The branch that tries the hostname as a numeric address, and the tests after it.\<close>

definition init_numeric :: "env \<Rightarrow> string \<Rightarrow> async \<Rightarrow> async_res \<Rightarrow> world \<Rightarrow> config" where
  "init_numeric e h as ar w =
    (case iter_family as True of (family, as2) \<Rightarrow>
      (case numeric_loop e h family as2 ar w of (as3, ar3, w3) \<Rightarrow>
        if ar_gai_errno ar3 \<noteq> 0 \<or> as_count as3 \<noteq> 0
        then (async_set_state as3 ASR_STATE_HALT, ar3, w3)
        else if ai_flags (hints as3) AND AI_NUMERICHOST \<noteq> 0
        then halt_with as3 ar3 w3 EAI_FAIL
        else (async_set_state as3 ASR_STATE_NEXT_DB, ar3, w3)))"

text \<open>\<^verbatim>\<open>case ASR_STATE_INIT\<close>.\<close>

definition state_init :: "env \<Rightarrow> async \<Rightarrow> async_res \<Rightarrow> world \<Rightarrow> config option" where
  "state_init e as0 ar w =
    (let as = as0\<lparr>as_count := 0\<rparr> in
     case check_params e as of
       Some err \<Rightarrow> Some (halt_with as ar w err)
     | None \<Rightarrow>
         (let as1 = resolve_ports e as in
          if ports_bad as1 then Some (halt_with as1 ar w EAI_SERVICE)
          else
            (case hostname as1 of
              None \<Rightarrow> init_local e as1 (ar\<lparr>ar_gai_errno := 0\<rparr>) w
            | Some h \<Rightarrow> Some (init_numeric e h as1 (ar\<lparr>ar_gai_errno := 0\<rparr>) w))))"

text \<open>\<^verbatim>\<open>case ASR_STATE_NEXT_DB\<close>.\<close>

definition state_next_db :: "async \<Rightarrow> async_res \<Rightarrow> world \<Rightarrow> config" where
  "state_next_db as ar w =
    (case asr_iter_db as of (r, as1) \<Rightarrow>
      if r = - 1 then (async_set_state as1 ASR_STATE_NOT_FOUND, ar, w)
      else (async_set_state (as1\<lparr>as_family_idx := 0\<rparr>) ASR_STATE_SAME_DB, ar, w))"

text \<open>\<^verbatim>\<open>case ASR_STATE_NEXT_FAMILY\<close>.\<close>

definition state_next_family :: "async \<Rightarrow> async_res \<Rightarrow> world \<Rightarrow> config" where
  "state_next_family as ar w =
    (let as1 = as\<lparr>as_family_idx := as_family_idx as + 1\<rparr> in
     if ai_family (hints as1) \<noteq> PF_UNSPEC \<or> AS_FAMILY as1 = - 1
     then
       (if as_count as1 \<noteq> 0
        then (async_set_state as1 ASR_STATE_HALT, ar\<lparr>ar_gai_errno := 0\<rparr>, w)
        else (async_set_state as1 ASR_STATE_NEXT_DB, ar, w))
     else (async_set_state as1 ASR_STATE_SAME_DB, ar, w))"

text \<open>
  \<^verbatim>\<open>case ASR_STATE_SAME_DB\<close>. The result \<open>None\<close> is the fault of using a hostname
  that is a null pointer.
\<close>

definition cur_family :: "async \<Rightarrow> int" where
  "cur_family as =
    (if ai_family (hints as) = PF_UNSPEC then AS_FAMILY as else ai_family (hints as))"

definition errno_gai :: "world \<Rightarrow> int" where
  "errno_gai w = (if w_errno w = ENOMEM then EAI_MEMORY else EAI_FAIL)"

definition traced :: "world \<Rightarrow> call \<Rightarrow> world" where
  "traced w c = w\<lparr>w_trace := w_trace w @ [c]\<rparr>"

definition dns_subq :: "async \<Rightarrow> subq option" where
  "dns_subq as =
    (let ty = (if cur_family as = PF_INET6 then T_AAAA else T_A) in
     case fqdn as of
       Some n \<Rightarrow> Some \<lparr>sq_search = False, sq_name = n, sq_class = C_IN, sq_type = ty\<rparr>
     | None \<Rightarrow>
         (case hostname as of
           None \<Rightarrow> None
         | Some h \<Rightarrow> Some \<lparr>sq_search = True, sq_name = h, sq_class = C_IN, sq_type = ty\<rparr>))"

definition state_same_db :: "env \<Rightarrow> async \<Rightarrow> async_res \<Rightarrow> world \<Rightarrow> config option" where
  "state_same_db e as ar w =
    (case (if AS_DB as = ASR_DB_YP \<and> \<not> have_YP e then ASR_DB_OTHER else AS_DB as) of
      ASR_DB_DNS \<Rightarrow>
        (case dns_subq as of
          None \<Rightarrow> None
        | Some sq \<Rightarrow>
            (case subq_new e sq of
              Some err \<Rightarrow>
                Some (halt_with (as\<lparr>subquery := None\<rparr>) ar
                  ((traced w (Call_subq_new sq))\<lparr>w_errno := err\<rparr>)
                  (if err = ENOMEM then EAI_MEMORY else EAI_FAIL))
            | None \<Rightarrow>
                Some (async_set_state (as\<lparr>subquery := Some sq\<rparr>) ASR_STATE_SUBQUERY, ar,
                  traced w (Call_subq_new sq))))
    | ASR_DB_FILE \<Rightarrow>
        (case fopen e (ac_hostfile (as_ctx as)) of
          None \<Rightarrow>
            Some (async_set_state as ASR_STATE_NEXT_DB, ar,
              traced w (Call_fopen (ac_hostfile (as_ctx as))))
        | Some ls \<Rightarrow>
            (case addrinfo_from_file e as (traced w (Call_fopen (ac_hostfile (as_ctx as))))
                (cur_family as) ls
             of
               None \<Rightarrow> None
             | Some (r, as1, w1) \<Rightarrow>
                 if r = - 1 then Some (halt_with as1 ar w1 (errno_gai w1))
                 else Some (async_set_state as1 ASR_STATE_NEXT_FAMILY, ar, w1)))
    | ASR_DB_YP \<Rightarrow>
        (let w1 = (if w_domain w = None
                   then (traced w Call_yp_check)\<lparr>w_domain := yp_check e\<rparr> else w) in
         case w_domain w1 of
           None \<Rightarrow> Some (async_set_state as ASR_STATE_NEXT_DB, ar, w1)
         | Some d \<Rightarrow>
             (case hostname as of
               None \<Rightarrow> None
             | Some h \<Rightarrow>
                 (let mp = (if cur_family as = PF_INET6 then ''ipnodes.byname''
                            else ''hosts.byname'');
                      w2 = traced w1 (Call_yp_match d mp h) in
                  case yp_match e d mp h of (r, res) \<Rightarrow>
                    if r = 0 then
                      (case addrinfo_from_yp e as w2 (cur_family as) res of (r1, as1, w3) \<Rightarrow>
                        if r1 = - 1 then Some (halt_with as1 ar w3 (errno_gai w3))
                        else Some (async_set_state as1 ASR_STATE_NEXT_FAMILY, ar, w3))
                    else Some (async_set_state as ASR_STATE_NEXT_FAMILY, ar, w2))))
    | ASR_DB_OTHER \<Rightarrow> Some (async_set_state as ASR_STATE_NEXT_DB, ar, w))"

text \<open>
  What \<^verbatim>\<open>getaddrinfo_async_run\<close> returns; \<open>FAULT\<close> is not a value of the C but
  the model's mark for the undefined behaviours named above.
\<close>

datatype retval = ASYNC_COND | ASYNC_DONE | FAULT

text \<open>
  \<^verbatim>\<open>case ASR_STATE_SUBQUERY\<close>: \<open>Inl\<close> is a return from the function, \<open>Inr\<close> the
  jump back to the dispatch. A sub-query with no report left has made no progress.
\<close>

definition state_subquery ::
  "env \<Rightarrow> async \<Rightarrow> async_res \<Rightarrow> world \<Rightarrow> (retval \<times> config) + config"
where
  "state_subquery e as ar w =
    (case subquery as of
      None \<Rightarrow> Inl (FAULT, (as, ar, w))
    | Some sq \<Rightarrow>
        (let w1 = traced w Call_subq_run in
         case w_events w1 of
           [] \<Rightarrow> Inl (ASYNC_COND, (as, ar, w1))
         | Subq_cond # evs \<Rightarrow> Inl (ASYNC_COND, (as, ar, w1\<lparr>w_events := evs\<rparr>))
         | Subq_nodata # evs \<Rightarrow>
             Inr (async_set_state (as\<lparr>subquery := None\<rparr>) ASR_STATE_NEXT_FAMILY,
                  ar\<lparr>ar_datalen := - 1, ar_data := None\<rparr>, w1\<lparr>w_events := evs\<rparr>)
         | Subq_data n pkt # evs \<Rightarrow>
             (case addrinfo_from_pkt e (as\<lparr>subquery := None\<rparr>) (w1\<lparr>w_events := evs\<rparr>) pkt
              of (r, as1, w2) \<Rightarrow>
                if r = - 1
                then Inr (halt_with as1 (ar\<lparr>ar_datalen := int n, ar_data := Some pkt\<rparr>) w2
                            (errno_gai w2))
                else Inr (async_set_state as1 ASR_STATE_NEXT_FAMILY,
                          ar\<lparr>ar_datalen := int n, ar_data := Some pkt\<rparr>, w2))))"

text \<open>\<^verbatim>\<open>case ASR_STATE_NOT_FOUND\<close>.\<close>

definition state_not_found :: "async \<Rightarrow> async_res \<Rightarrow> world \<Rightarrow> config" where
  "state_not_found as ar w =
    halt_with as ar w (if flags as AND ASYNC_AGAIN \<noteq> 0 then EAI_AGAIN else EAI_NODATA)"

text \<open>\<^verbatim>\<open>case ASR_STATE_HALT\<close>, which returns \<^verbatim>\<open>ASYNC_DONE\<close>.\<close>

definition state_halt :: "async \<Rightarrow> async_res \<Rightarrow> world \<Rightarrow> config" where
  "state_halt as ar w =
    (if ar_gai_errno ar = 0
     then (as\<lparr>ailist := []\<rparr>, ar\<lparr>ar_count := as_count as, ar_addrinfo := ailist as\<rparr>, w)
     else (as, ar\<lparr>ar_count := 0, ar_addrinfo := []\<rparr>, w))"

text \<open>The \<^verbatim>\<open>default\<close> branch.\<close>

definition state_default :: "async \<Rightarrow> async_res \<Rightarrow> world \<Rightarrow> config" where
  "state_default as ar w = halt_with as (ar\<lparr>ar_errno := EOPNOTSUPP\<rparr>) w EAI_SYSTEM"

text \<open>One pass through the \<^verbatim>\<open>switch\<close>.\<close>

definition step :: "env \<Rightarrow> config \<Rightarrow> (retval \<times> config) + config" where
  "step e c =
    (case c of (as, ar, w) \<Rightarrow>
      (case as_state as of
        ASR_STATE_INIT \<Rightarrow>
          (case state_init e as ar w of None \<Rightarrow> Inl (FAULT, c) | Some c' \<Rightarrow> Inr c')
      | ASR_STATE_NEXT_DB \<Rightarrow> Inr (state_next_db as ar w)
      | ASR_STATE_NEXT_FAMILY \<Rightarrow> Inr (state_next_family as ar w)
      | ASR_STATE_SAME_DB \<Rightarrow>
          (case state_same_db e as ar w of None \<Rightarrow> Inl (FAULT, c) | Some c' \<Rightarrow> Inr c')
      | ASR_STATE_SUBQUERY \<Rightarrow> state_subquery e as ar w
      | ASR_STATE_NOT_FOUND \<Rightarrow> Inr (state_not_found as ar w)
      | ASR_STATE_HALT \<Rightarrow> Inl (ASYNC_DONE, state_halt as ar w)
      | ASR_STATE_OTHER n \<Rightarrow> Inr (state_default as ar w)))"

section \<open>Termination of the dispatch loop\<close>

text \<open>
  A bound on the passes still to come: the backends not yet selected weigh more than
  the families not yet tried, and those more than the position inside one attempt.
\<close>

definition run_measure :: "config \<Rightarrow> nat" where
  "run_measure c =
    (case c of (as, ar, w) \<Rightarrow>
      (let nf = length (ac_family (as_ctx as));
           nd = length (ac_db (as_ctx as));
           base = 2 + (nd - as_db_idx as) * (3 * nf + 4) + 3 * (nf - as_family_idx as)
       in case as_state as of
            ASR_STATE_INIT \<Rightarrow> 3 + nd * (3 * nf + 4)
          | ASR_STATE_NEXT_DB \<Rightarrow> 2 + (nd - as_db_idx as) * (3 * nf + 4)
          | ASR_STATE_SAME_DB \<Rightarrow> base + 3
          | ASR_STATE_SUBQUERY \<Rightarrow> base + 2
          | ASR_STATE_NEXT_FAMILY \<Rightarrow> base + 1
          | ASR_STATE_NOT_FOUND \<Rightarrow> 1
          | ASR_STATE_HALT \<Rightarrow> 0
          | ASR_STATE_OTHER n \<Rightarrow> 1))"

lemma run_measure_halt: "run_measure (async_set_state as ASR_STATE_HALT, ar, w) = 0"
  by (simp add: run_measure_def async_set_state_def)

lemma run_measure_halt_with: "run_measure (halt_with as ar w err) = 0"
  by (simp add: run_measure_def async_set_state_def halt_with_def)

lemma state_next_db_less:
  "as_state as = ASR_STATE_NEXT_DB \<Longrightarrow>
    run_measure (state_next_db as ar w) < run_measure (as, ar, w)"
proof (cases "as_db_idx as \<ge> length (ac_db (as_ctx as))")
  case True
  assume "as_state as = ASR_STATE_NEXT_DB"
  then show ?thesis using True
    by (simp add: state_next_db_def asr_iter_db_def run_measure_def async_set_state_def)
next
  case False
  assume st: "as_state as = ASR_STATE_NEXT_DB"
  define W where "W = 3 * length (ac_family (as_ctx as)) + 4"
  define D where "D = length (ac_db (as_ctx as)) - as_db_idx as"
  have "D > 0" using False by (simp add: D_def)
  then obtain D' where D': "D = Suc D'" by (cases D) auto
  have "length (ac_db (as_ctx as)) - Suc (as_db_idx as) = D'"
    using D' by (simp add: D_def)
  then show ?thesis using False st D'
    by (simp add: state_next_db_def asr_iter_db_def run_measure_def async_set_state_def
        D_def [symmetric] Let_def)
qed

lemma state_next_family_less:
  "as_state as = ASR_STATE_NEXT_FAMILY \<Longrightarrow>
    run_measure (state_next_family as ar w) < run_measure (as, ar, w)"
  by (auto simp: state_next_family_def run_measure_def async_set_state_def Let_def
      AS_FAMILY_def split: if_splits)


lemma run_measure_grown_state:
  "grown as as' \<Longrightarrow>
    run_measure (async_set_state as' st, ar', w') = run_measure (async_set_state as st, ar, w)"
  by (cases st) (simp_all add: grown_def run_measure_def async_set_state_def Let_def)

lemma run_measure_same_db_next_db:
  "as_state as = ASR_STATE_SAME_DB \<Longrightarrow>
    run_measure (async_set_state as ASR_STATE_NEXT_DB, ar', w') < run_measure (as, ar, w)"
  by (simp add: run_measure_def async_set_state_def Let_def)

lemma run_measure_same_db_next_family:
  "as_state as = ASR_STATE_SAME_DB \<Longrightarrow>
    run_measure (async_set_state as ASR_STATE_NEXT_FAMILY, ar', w') < run_measure (as, ar, w)"
  by (simp add: run_measure_def async_set_state_def Let_def)

lemma run_measure_same_db_subquery:
  "as_state as = ASR_STATE_SAME_DB \<Longrightarrow>
    run_measure (async_set_state (as\<lparr>subquery := x\<rparr>) ASR_STATE_SUBQUERY, ar', w')
      < run_measure (as, ar, w)"
  by (simp add: run_measure_def async_set_state_def Let_def)

lemma run_measure_subquery_next_family:
  "as_state as = ASR_STATE_SUBQUERY \<Longrightarrow>
    run_measure (async_set_state (as\<lparr>subquery := x\<rparr>) ASR_STATE_NEXT_FAMILY, ar', w')
      < run_measure (as, ar, w)"
  by (simp add: run_measure_def async_set_state_def Let_def)

lemma run_measure_pos:
  "as_state as \<noteq> ASR_STATE_HALT \<Longrightarrow> 0 < run_measure (as, ar, w)"
  by (cases "as_state as") (simp_all add: run_measure_def Let_def)

lemma state_same_db_less:
  assumes st: "as_state as = ASR_STATE_SAME_DB"
    and s: "state_same_db e as ar w = Some c'"
  shows "run_measure c' < run_measure (as, ar, w)"
proof -
  have pos: "0 < run_measure (as, ar, w)" using st by (simp add: run_measure_pos)
  let ?db = "if AS_DB as = ASR_DB_YP \<and> \<not> have_YP e then ASR_DB_OTHER else AS_DB as"
  show ?thesis
  proof (cases ?db)
    case ASR_DB_OTHER
    then have "c' = (async_set_state as ASR_STATE_NEXT_DB, ar, w)"
      using s by (simp add: state_same_db_def)
    then show ?thesis using st by (simp add: run_measure_same_db_next_db)
  next
    case ASR_DB_DNS
    then show ?thesis
      using s st pos
      by (auto simp: state_same_db_def run_measure_halt_with run_measure_same_db_subquery
          split: option.splits)
  next
    case ASR_DB_FILE
    show ?thesis
    proof (cases "fopen e (ac_hostfile (as_ctx as))")
      case None
      then have "c' = (async_set_state as ASR_STATE_NEXT_DB, ar,
              traced w (Call_fopen (ac_hostfile (as_ctx as))))"
        using s ASR_DB_FILE by (simp add: state_same_db_def)
      then show ?thesis using st by (simp add: run_measure_same_db_next_db)
    next
      case (Some ls)
      obtain r as1 w1 where f: "addrinfo_from_file e as
          (traced w (Call_fopen (ac_hostfile (as_ctx as)))) (cur_family as) ls = Some (r, as1, w1)"
        using s ASR_DB_FILE Some by (auto simp: state_same_db_def split: option.splits)
      have g: "grown as as1" using f by (rule addrinfo_from_file_grown)
      show ?thesis
      proof (cases "r = - 1")
        case True
        then have "c' = halt_with as1 ar w1 (errno_gai w1)"
          using s ASR_DB_FILE Some f by (simp add: state_same_db_def)
        then show ?thesis using pos by (simp add: run_measure_halt_with)
      next
        case False
        then have "c' = (async_set_state as1 ASR_STATE_NEXT_FAMILY, ar, w1)"
          using s ASR_DB_FILE Some f by (simp add: state_same_db_def)
        then show ?thesis
          using run_measure_grown_state [OF g, of ASR_STATE_NEXT_FAMILY ar w1 ar w1]
            run_measure_same_db_next_family [OF st, of ar w1 ar w]
          by simp
      qed
    qed
  next
    case ASR_DB_YP
    define w1 where "w1 = (if w_domain w = None
                   then (traced w Call_yp_check)\<lparr>w_domain := yp_check e\<rparr> else w)"
    show ?thesis
    proof (cases "w_domain w1")
      case None
      then have "c' = (async_set_state as ASR_STATE_NEXT_DB, ar, w1)"
        using s ASR_DB_YP by (simp add: state_same_db_def w1_def Let_def)
      then show ?thesis using st by (simp add: run_measure_same_db_next_db)
    next
      case (Some d)
      obtain h where h: "hostname as = Some h"
        using s ASR_DB_YP Some
        by (auto simp: state_same_db_def w1_def Let_def split: option.splits)
      define mp where "mp = (if cur_family as = PF_INET6 then ''ipnodes.byname''
                            else ''hosts.byname'')"
      define w2 where "w2 = traced w1 (Call_yp_match d mp h)"
      obtain r res where y: "yp_match e d mp h = (r, res)"
        by (cases "yp_match e d mp h") auto
      show ?thesis
      proof (cases "r = 0")
        case False
        then have "c' = (async_set_state as ASR_STATE_NEXT_FAMILY, ar, w2)"
          using s ASR_DB_YP Some h y
          by (simp add: state_same_db_def w1_def [symmetric] mp_def [symmetric]
              w2_def [symmetric] Let_def)
        then show ?thesis using st by (simp add: run_measure_same_db_next_family)
      next
        case True
        obtain r1 as1 w3 where a: "addrinfo_from_yp e as w2 (cur_family as) res = (r1, as1, w3)"
          by (cases "addrinfo_from_yp e as w2 (cur_family as) res") auto
        have g: "grown as as1"
          using a unfolding addrinfo_from_yp_def by (rule addrinfo_from_yp_lines_grown)
        have c': "c' = (if r1 = - 1 then halt_with as1 ar w3 (errno_gai w3)
                  else (async_set_state as1 ASR_STATE_NEXT_FAMILY, ar, w3))"
          using s ASR_DB_YP Some h y True a
          by (auto simp: state_same_db_def w1_def [symmetric] mp_def [symmetric]
              w2_def [symmetric] Let_def)
        show ?thesis
        proof (cases "r1 = - 1")
          case True
          then show ?thesis using c' pos by (simp add: run_measure_halt_with)
        next
          case False
          then show ?thesis
            using c' run_measure_grown_state [OF g, of ASR_STATE_NEXT_FAMILY ar w3 ar w3]
              run_measure_same_db_next_family [OF st, of ar w3 ar w]
            by simp
        qed
      qed
    qed
  qed
qed


declare local_loop.simps [simp del] numeric_loop.simps [simp del]

lemma resolve_ports_ctx: "as_ctx (resolve_ports e as) = as_ctx as"
  by (simp add: resolve_ports_def Let_def)

lemma resolve_ports_hostname: "hostname (resolve_ports e as) = hostname as"
  by (simp add: resolve_ports_def Let_def)

lemma init_local_shape:
  assumes "init_local e as ar w = Some (as', ar', w')"
  shows "as_ctx as' = as_ctx as \<and> as_state as' = ASR_STATE_HALT"
proof -
  obtain family as2 where i: "iter_family as True = (family, as2)"
    by (cases "iter_family as True") auto
  obtain as3 ar3 w3 where l: "local_loop e family None as2 ar w = Some (as3, ar3, w3)"
    using assms i by (auto simp: init_local_def split: option.splits)
  have "as' = async_set_state as3 ASR_STATE_HALT"
    using assms i l by (simp add: init_local_def)
  then show ?thesis
    using local_loop_ctx [OF l] iter_family_ctx [OF i] by (simp add: async_set_state_def)
qed

lemma init_numeric_shape:
  assumes "init_numeric e h as ar w = (as', ar', w')"
  shows "as_ctx as' = as_ctx as \<and>
    (as_state as' = ASR_STATE_HALT \<or> as_state as' = ASR_STATE_NEXT_DB)"
proof -
  obtain family as2 where i: "iter_family as True = (family, as2)"
    by (cases "iter_family as True") auto
  obtain as3 ar3 w3 where n: "numeric_loop e h family as2 ar w = (as3, ar3, w3)"
    by (cases "numeric_loop e h family as2 ar w") auto
  have "as' = async_set_state as3 ASR_STATE_HALT \<or> as' = async_set_state as3 ASR_STATE_NEXT_DB"
    using assms i n by (auto simp: init_numeric_def halt_with_def split: if_splits)
  then show ?thesis
    using numeric_loop_ctx [OF n] iter_family_ctx [OF i] by (auto simp: async_set_state_def)
qed

lemma state_init_shape:
  assumes "state_init e as ar w = Some (as', ar', w')"
  shows "as_ctx as' = as_ctx as \<and>
    (as_state as' = ASR_STATE_HALT \<or> as_state as' = ASR_STATE_NEXT_DB)"
proof -
  define as0 where "as0 = as\<lparr>as_count := 0\<rparr>"
  define as1 where "as1 = resolve_ports e as0"
  have c1: "as_ctx as1 = as_ctx as"
    by (simp add: as1_def as0_def resolve_ports_ctx)
  show ?thesis
  proof (cases "check_params e as0")
    case (Some err)
    then have "as' = async_set_state as0 ASR_STATE_HALT"
      using assms by (simp add: state_init_def as0_def [symmetric] halt_with_def)
    then show ?thesis by (simp add: async_set_state_def as0_def)
  next
    case None
    note cp = None
    show ?thesis
    proof (cases "ports_bad as1")
      case True
      then have "as' = async_set_state as1 ASR_STATE_HALT"
        using assms cp
        by (simp add: state_init_def as0_def [symmetric] as1_def [symmetric] halt_with_def)
      then show ?thesis using c1 by (simp add: async_set_state_def)
    next
      case False
      show ?thesis
      proof (cases "hostname as1")
        case None
        then have "init_local e as1 (ar\<lparr>ar_gai_errno := 0\<rparr>) w = Some (as', ar', w')"
          using assms cp False
          by (simp add: state_init_def as0_def [symmetric] as1_def [symmetric])
        then show ?thesis using init_local_shape c1 by fastforce
      next
        case (Some h)
        then have "init_numeric e h as1 (ar\<lparr>ar_gai_errno := 0\<rparr>) w = (as', ar', w')"
          using assms cp False
          by (simp add: state_init_def as0_def [symmetric] as1_def [symmetric])
        then show ?thesis using init_numeric_shape c1 by fastforce
      qed
    qed
  qed
qed

lemma state_init_less:
  assumes st: "as_state as = ASR_STATE_INIT"
    and s: "state_init e as ar w = Some c'"
  shows "run_measure c' < run_measure (as, ar, w)"
proof -
  obtain as' ar' w' where c': "c' = (as', ar', w')" by (cases c') auto
  have sh: "as_ctx as' = as_ctx as \<and>
    (as_state as' = ASR_STATE_HALT \<or> as_state as' = ASR_STATE_NEXT_DB)"
    using s c' state_init_shape by simp
  define W where "W = 3 * length (ac_family (as_ctx as)) + 4"
  have le: "(length (ac_db (as_ctx as)) - as_db_idx as') * W \<le> length (ac_db (as_ctx as)) * W"
    by (rule mult_le_mono1) simp
  have m0: "run_measure (as, ar, w) = 3 + length (ac_db (as_ctx as)) * W"
    using st by (simp add: run_measure_def Let_def W_def)
  from sh show ?thesis
  proof (elim conjE disjE)
    assume "as_state as' = ASR_STATE_HALT"
    then have "run_measure c' = 0" using c' by (simp add: run_measure_def Let_def)
    then show ?thesis using m0 by simp
  next
    assume a: "as_ctx as' = as_ctx as" "as_state as' = ASR_STATE_NEXT_DB"
    then have "run_measure c' = 2 + (length (ac_db (as_ctx as)) - as_db_idx as') * W"
      using c' by (simp add: run_measure_def Let_def W_def)
    then show ?thesis using m0 le by linarith
  qed
qed

lemma state_subquery_less:
  assumes st: "as_state as = ASR_STATE_SUBQUERY"
    and s: "state_subquery e as ar w = Inr c'"
  shows "run_measure c' < run_measure (as, ar, w)"
proof -
  have pos: "0 < run_measure (as, ar, w)" using st by (simp add: run_measure_pos)
  obtain sq where sq: "subquery as = Some sq"
    using s by (auto simp: state_subquery_def split: option.splits)
  define w1 where "w1 = traced w Call_subq_run"
  obtain ev evs where ev: "w_events w1 = ev # evs"
    using s sq by (auto simp: state_subquery_def w1_def Let_def split: list.splits)
  show ?thesis
  proof (cases ev)
    case Subq_cond
    then show ?thesis
      using s sq ev by (simp add: state_subquery_def w1_def [symmetric] Let_def)
  next
    case Subq_nodata
    then have "c' = (async_set_state (as\<lparr>subquery := None\<rparr>) ASR_STATE_NEXT_FAMILY,
                  ar\<lparr>ar_datalen := - 1, ar_data := None\<rparr>, w1\<lparr>w_events := evs\<rparr>)"
      using s sq ev by (simp add: state_subquery_def w1_def [symmetric] Let_def)
    then show ?thesis using st by (simp add: run_measure_subquery_next_family)
  next
    case (Subq_data n pkt)
    obtain r as1 w2 where a:
      "addrinfo_from_pkt e (as\<lparr>subquery := None\<rparr>) (w1\<lparr>w_events := evs\<rparr>) pkt = (r, as1, w2)"
      by (cases "addrinfo_from_pkt e (as\<lparr>subquery := None\<rparr>) (w1\<lparr>w_events := evs\<rparr>) pkt") auto
    have g: "grown (as\<lparr>subquery := None\<rparr>) as1"
      using a unfolding addrinfo_from_pkt_def by (rule addrinfo_from_rrs_grown)
    show ?thesis
    proof (cases "r = - 1")
      case True
      then have "c' = halt_with as1 (ar\<lparr>ar_datalen := int n, ar_data := Some pkt\<rparr>) w2
                            (errno_gai w2)"
        using s sq ev Subq_data a by (simp add: state_subquery_def w1_def [symmetric] Let_def)
      then show ?thesis using pos by (simp add: run_measure_halt_with)
    next
      case False
      then have "c' = (async_set_state as1 ASR_STATE_NEXT_FAMILY,
                          ar\<lparr>ar_datalen := int n, ar_data := Some pkt\<rparr>, w2)"
        using s sq ev Subq_data a by (simp add: state_subquery_def w1_def [symmetric] Let_def)
      then show ?thesis
        using run_measure_grown_state [OF g, of ASR_STATE_NEXT_FAMILY
            "ar\<lparr>ar_datalen := int n, ar_data := Some pkt\<rparr>" w2 ar w]
          run_measure_subquery_next_family [OF st, of None ar w ar w]
        by simp
    qed
  qed
qed

lemma step_less:
  assumes "step e c = Inr c'"
  shows "run_measure c' < run_measure c"
proof -
  obtain as ar w where c: "c = (as, ar, w)" by (cases c) auto
  show ?thesis
  proof (cases "as_state as")
    case ASR_STATE_INIT
    then show ?thesis
      using assms c state_init_less [of as e ar w c']
      by (auto simp: step_def split: option.splits)
  next
    case ASR_STATE_NEXT_DB
    then show ?thesis
      using assms c state_next_db_less [of as ar w] by (auto simp: step_def)
  next
    case ASR_STATE_SAME_DB
    then show ?thesis
      using assms c state_same_db_less [of as e ar w c']
      by (auto simp: step_def split: option.splits)
  next
    case ASR_STATE_NEXT_FAMILY
    then show ?thesis
      using assms c state_next_family_less [of as ar w] by (auto simp: step_def)
  next
    case ASR_STATE_SUBQUERY
    then show ?thesis
      using assms c state_subquery_less [of as e ar w c'] by (auto simp: step_def)
  next
    case ASR_STATE_NOT_FOUND
    then show ?thesis
      using assms c
      by (auto simp: step_def state_not_found_def run_measure_halt_with run_measure_pos)
  next
    case ASR_STATE_HALT
    then show ?thesis using assms c by (simp add: step_def)
  next
    case (ASR_STATE_OTHER n)
    then show ?thesis
      using assms c
      by (auto simp: step_def state_default_def run_measure_halt_with run_measure_pos)
  qed
qed

text \<open>
  \<^verbatim>\<open>getaddrinfo_async_run\<close>: the dispatch is repeated until a state returns. The
  function is total: every pass that jumps back lowers \<open>run_measure\<close>.
\<close>

function getaddrinfo_async_run :: "env \<Rightarrow> config \<Rightarrow> retval \<times> config" where
  "getaddrinfo_async_run e c =
    (case step e c of Inl r \<Rightarrow> r | Inr c' \<Rightarrow> getaddrinfo_async_run e c')"
  by pat_completeness auto
termination
proof (relation "measure (\<lambda>(e, c). run_measure c)", goal_cases)
  case 1
  show ?case by simp
next
  case (2 e c c')
  then show ?case using step_less [of e c c'] by simp
qed

declare getaddrinfo_async_run.simps [simp del]


section \<open>Creating a request\<close>

text \<open>
  Modelled from the spec: \<^verbatim>\<open>async_new\<close> is not in the sources at hand. A request is
  created zeroed, in the initial state, bound to the resolver context.
\<close>

definition zero_addrinfo :: addrinfo where
  "zero_addrinfo =
    \<lparr>ai_flags = 0, ai_family = 0, ai_socktype = 0, ai_protocol = 0, ai_addrlen = 0,
     ai_addr = None, ai_canonname = None, ai_next = False\<rparr>"

definition async_new :: "asr_ctx \<Rightarrow> async" where
  "async_new ac =
    \<lparr>as_state = ASR_STATE_INIT, as_ctx = ac, as_count = 0, as_db_idx = 0,
     as_family_idx = 0, hostname = None, servname = None, hints = zero_addrinfo,
     fqdn = None, port_tcp = 0, port_udp = 0, ailist = [], subquery = None, flags = 0\<rparr>"

text \<open>
  \<^verbatim>\<open>getaddrinfo_async\<close>: the request, or \<open>None\<close> when the allocation of the
  request or the copy of a name fails.
\<close>

definition getaddrinfo_async ::
  "asr_ctx \<Rightarrow> string option \<Rightarrow> string option \<Rightarrow> addrinfo option \<Rightarrow> world
    \<Rightarrow> async option \<times> world"
where
  "getaddrinfo_async ac hn sn hs w =
    (case alloc w of
      (False, w1) \<Rightarrow> (None, w1)
    | (True, w1) \<Rightarrow>
        (case (if hn \<noteq> None then alloc w1 else (True, w1)) of
          (False, w2) \<Rightarrow> (None, w2)
        | (True, w2) \<Rightarrow>
            (case (if sn \<noteq> None then alloc w2 else (True, w2)) of
              (False, w3) \<Rightarrow> (None, w3)
            | (True, w3) \<Rightarrow>
                (Some ((async_new ac)
                   \<lparr>hostname := hn, servname := sn,
                    hints := (case hs of
                                Some h \<Rightarrow> h
                              | None \<Rightarrow> zero_addrinfo\<lparr>ai_family := PF_UNSPEC\<rparr>)\<rparr>),
                 w3))))"

section \<open>The error kinds of the specification\<close>

text \<open>
  The specification names kinds of failure where the source reports codes. Each code is
  read as the kind the specification gives to the failures that report it: the codes of
  the hint checks are \<open>InvalidArgument\<close>, \<^verbatim>\<open>EAI_SERVICE\<close> is the code of a service
  that cannot be resolved (\<open>ServiceNotFound\<close>), and \<^verbatim>\<open>EAI_FAIL\<close> is the code of a
  sub-query that cannot be submitted and of a response that cannot be used
  (\<open>ProtocolFailure\<close>). No code of the source is read as \<open>NotNumeric\<close> or as
  \<open>AddressFamilyNotSupported\<close>.
\<close>

datatype error_kind =
    InvalidArgument | ServiceNotFound | AddressFamilyNotSupported | NoData | Again
  | NotNumeric | OutOfMemory | ProtocolFailure | Unsupported

definition error_kind :: "int \<Rightarrow> error_kind option" where
  "error_kind err =
    (if err = EAI_NONAME \<or> err = EAI_BADFLAGS \<or> err = EAI_BADHINTS
        \<or> err = EAI_FAMILY \<or> err = EAI_SOCKTYPE then Some InvalidArgument
     else if err = EAI_SERVICE then Some ServiceNotFound
     else if err = EAI_NODATA then Some NoData
     else if err = EAI_AGAIN then Some Again
     else if err = EAI_MEMORY then Some OutOfMemory
     else if err = EAI_FAIL then Some ProtocolFailure
     else if err = EAI_SYSTEM then Some Unsupported
     else None)"

section \<open>A concrete resolver\<close>

text \<open>
  A small environment on which the results below are run: a parser that knows five
  literals, a number parser that knows two service numbers, a services database in which
  \<open>smtp\<close> is defined for TCP only and \<open>domain\<close> for both protocols, a hosts file of
  three lines, sub-queries that can always be created, and no NIS.
\<close>

definition ex_sockaddr_from_str :: "int \<Rightarrow> string \<Rightarrow> sockaddr option" where
  "ex_sockaddr_from_str family s =
    (if family = PF_INET then
       (if s = ''127.0.0.1''
        then Some \<lparr>sa_family = PF_INET, sa_port = 0, sa_addr = [127, 0, 0, 1]\<rparr>
        else if s = ''0.0.0.0''
        then Some \<lparr>sa_family = PF_INET, sa_port = 0, sa_addr = [0, 0, 0, 0]\<rparr>
        else if s = ''192.0.2.7''
        then Some \<lparr>sa_family = PF_INET, sa_port = 0, sa_addr = [192, 0, 2, 7]\<rparr>
        else None)
     else if family = PF_INET6 then
       (if s = ''::1''
        then Some \<lparr>sa_family = PF_INET6, sa_port = 0,
                   sa_addr = [0, 0, 0, 0, 0, 0, 0, 0, 0, 0, 0, 0, 0, 0, 0, 1]\<rparr>
        else if s = ''::''
        then Some \<lparr>sa_family = PF_INET6, sa_port = 0,
                   sa_addr = [0, 0, 0, 0, 0, 0, 0, 0, 0, 0, 0, 0, 0, 0, 0, 0]\<rparr>
        else None)
     else None)"

definition ex_strtonum :: "string \<Rightarrow> int \<Rightarrow> int \<Rightarrow> int + int" where
  "ex_strtonum s lo hi =
    (if s = ''80'' then Inr 80
     else if s = ''99999'' then Inl ERANGE
     else Inl 22)"

definition ex_getservbyname_r :: "string \<Rightarrow> string \<Rightarrow> int option" where
  "ex_getservbyname_r s proto =
    (if s = ''smtp'' \<and> proto = ''tcp'' then Some 25
     else if s = ''domain'' then Some 53
     else None)"

definition ex_hosts :: "(string \<times> string list) list" where
  "ex_hosts =
    [(''127.0.0.1'', [''localhost'']),
     (''::1'', [''localhost'']),
     (''192.0.2.7'', [''www.example.com'', ''www''])]"

definition ex_env :: env where
  "ex_env =
    \<lparr>have_EAI_BADHINTS = True, have_GETSERVBYNAME_R_4_ARGS = True, have_YP = False,
     sockaddr_from_str = ex_sockaddr_from_str, strtonum = ex_strtonum,
     getservbyname_r = ex_getservbyname_r,
     SA_LEN = (\<lambda>sa. if sa_family sa = PF_INET6 then 28 else 16),
     fopen = (\<lambda>p. if p = ''/etc/hosts'' then Some ex_hosts else None),
     subq_new = (\<lambda>sq. None), yp_check = None, yp_match = (\<lambda>d m k. (1, []))\<rparr>"

definition ex_ctx :: asr_ctx where
  "ex_ctx = \<lparr>ac_db = [ASR_DB_FILE, ASR_DB_DNS], ac_family = [PF_INET, PF_INET6],
     ac_hostfile = ''/etc/hosts''\<rparr>"

definition ex_world :: world where
  "ex_world = \<lparr>w_alloc = None, w_errno = 0, w_events = [], w_domain = None, w_trace = []\<rparr>"

definition ex_res :: async_res where
  "ex_res = \<lparr>ar_errno = 0, ar_gai_errno = 0, ar_count = 0, ar_addrinfo = [],
     ar_datalen = 0, ar_data = None\<rparr>"

text \<open>The address structure the parser gives for \<open>192.0.2.7\<close>.\<close>

definition ex_sa_192 :: sockaddr where
  "ex_sa_192 = \<lparr>sa_family = PF_INET, sa_port = 0, sa_addr = [192, 0, 2, 7]\<rparr>"

text \<open>The request that \<^verbatim>\<open>getaddrinfo_async\<close> creates in the concrete resolver.\<close>

definition ex_request :: "string option \<Rightarrow> string option \<Rightarrow> addrinfo option \<Rightarrow> async" where
  "ex_request hn sn hs =
    (case fst (getaddrinfo_async ex_ctx hn sn hs ex_world) of
      Some as \<Rightarrow> as | None \<Rightarrow> async_new ex_ctx)"

lemma ex_request_eq:
  "ex_request hn sn hs =
    (async_new ex_ctx)
      \<lparr>hostname := hn, servname := sn,
       hints := (case hs of Some h \<Rightarrow> h | None \<Rightarrow> zero_addrinfo\<lparr>ai_family := PF_UNSPEC\<rparr>)\<rparr>"
  by (simp add: ex_request_def getaddrinfo_async_def alloc_def ex_world_def)

section \<open>Runs that end in the initial state\<close>

lemma run_jump: "step e c = Inr c' \<Longrightarrow> getaddrinfo_async_run e c = getaddrinfo_async_run e c'"
  by (subst getaddrinfo_async_run.simps) simp

lemma run_return: "step e c = Inl r \<Longrightarrow> getaddrinfo_async_run e c = r"
  by (subst getaddrinfo_async_run.simps) simp

lemma run_halt:
  "as_state as = ASR_STATE_HALT \<Longrightarrow>
    getaddrinfo_async_run e (as, ar, w) = (ASYNC_DONE, state_halt as ar w)"
  by (rule run_return) (simp add: step_def)

lemma run_halt_with:
  "getaddrinfo_async_run e (halt_with as ar w err) =
    (ASYNC_DONE, state_halt (async_set_state as ASR_STATE_HALT) (ar\<lparr>ar_gai_errno := err\<rparr>) w)"
  unfolding halt_with_def by (rule run_halt) (simp add: async_set_state_def)

lemma state_halt_error:
  "err \<noteq> 0 \<Longrightarrow>
    state_halt as (ar\<lparr>ar_gai_errno := err\<rparr>) w =
      (as, ar\<lparr>ar_gai_errno := err, ar_count := 0, ar_addrinfo := []\<rparr>, w)"
  by (simp add: state_halt_def)

lemma check_params_nonzero: "check_params e as = Some err \<Longrightarrow> err \<noteq> 0"
  by (auto simp: check_params_def Let_def eai_consts split: if_splits)

lemma run_init_invalid:
  assumes "as_state as = ASR_STATE_INIT"
    and "check_params e (as\<lparr>as_count := 0\<rparr>) = Some err"
  shows "getaddrinfo_async_run e (as, ar, w) =
    (ASYNC_DONE, async_set_state (as\<lparr>as_count := 0\<rparr>) ASR_STATE_HALT,
      ar\<lparr>ar_gai_errno := err, ar_count := 0, ar_addrinfo := []\<rparr>, w)"
proof -
  have "step e (as, ar, w) = Inr (halt_with (as\<lparr>as_count := 0\<rparr>) ar w err)"
    using assms by (simp add: step_def state_init_def)
  then have "getaddrinfo_async_run e (as, ar, w) =
      getaddrinfo_async_run e (halt_with (as\<lparr>as_count := 0\<rparr>) ar w err)"
    by (rule run_jump)
  then show ?thesis
    using check_params_nonzero [OF assms(2)] by (simp add: run_halt_with state_halt_error)
qed


text \<open>
  Claim C5. A request in its initial state with neither a hostname nor a service name
  ends at once: the function returns \<^verbatim>\<open>ASYNC_DONE\<close> with the code
  \<^verbatim>\<open>EAI_NONAME\<close>, which is of the kind \<open>InvalidArgument\<close>, an empty list and
  the count zero, and the surroundings are untouched (no backend was called).
\<close>

theorem both_absent_invalid:
  assumes "as_state as = ASR_STATE_INIT"
    and "hostname as = None" and "servname as = None"
  shows "getaddrinfo_async_run e (as, ar, w) =
      (ASYNC_DONE, async_set_state (as\<lparr>as_count := 0\<rparr>) ASR_STATE_HALT,
        ar\<lparr>ar_gai_errno := EAI_NONAME, ar_count := 0, ar_addrinfo := []\<rparr>, w)
    \<and> error_kind EAI_NONAME = Some InvalidArgument"
proof -
  have "check_params e (as\<lparr>as_count := 0\<rparr>) = Some EAI_NONAME"
    using assms by (simp add: check_params_def)
  then show ?thesis
    using assms(1) by (simp add: run_init_invalid error_kind_def)
qed

theorem both_absent_invalid_witness:
  "getaddrinfo_async_run ex_env (ex_request None None None, ex_res, ex_world) =
    (ASYNC_DONE, async_set_state (ex_request None None None) ASR_STATE_HALT,
      ex_res\<lparr>ar_gai_errno := EAI_NONAME\<rparr>, ex_world)"
  using both_absent_invalid [of "ex_request None None None" ex_env ex_res ex_world]
  by (simp add: ex_request_eq async_new_def ex_res_def)

text \<open>
  The code with which the initial state halts a request for a raw socket that names a
  service: that of the first of the three earlier checks that fails (stray hint fields,
  flags, family), else that of the check of the raw socket itself.
\<close>

definition raw_service_code :: "env \<Rightarrow> addrinfo \<Rightarrow> int" where
  "raw_service_code e ai =
    (if have_EAI_BADHINTS e
        \<and> (ai_addrlen ai \<noteq> 0 \<or> ai_canonname ai \<noteq> None \<or> ai_addr ai \<noteq> None \<or> ai_next ai)
     then EAI_BADHINTS
     else if ai_flags ai AND NOT AI_MASK \<noteq> 0
        \<or> (ai_flags ai AND AI_CANONNAME \<noteq> 0 \<and> ai_flags ai AND AI_FQDN \<noteq> 0)
     then EAI_BADFLAGS
     else if ai_family ai \<noteq> PF_UNSPEC \<and> ai_family ai \<noteq> PF_INET \<and> ai_family ai \<noteq> PF_INET6
     then EAI_FAMILY
     else EAI_SERVICE)"

text \<open>
  Claim C2, amended. A request in its initial state whose hint socket type is RAW and
  whose service name is present ends at once, before any backend is called, with an
  empty list and the count zero. Its code is \<^verbatim>\<open>EAI_SERVICE\<close>, of the kind
  \<open>ServiceNotFound\<close>, unless an earlier hint check fails first, whose code is of
  the kind \<open>InvalidArgument\<close>.
\<close>

theorem raw_with_service_fails:
  assumes "as_state as = ASR_STATE_INIT"
    and "ai_socktype (hints as) = SOCK_RAW" and "servname as = Some s"
  shows "getaddrinfo_async_run e (as, ar, w) =
      (ASYNC_DONE, async_set_state (as\<lparr>as_count := 0\<rparr>) ASR_STATE_HALT,
        ar\<lparr>ar_gai_errno := raw_service_code e (hints as), ar_count := 0, ar_addrinfo := []\<rparr>, w)
    \<and> error_kind (raw_service_code e (hints as)) =
        Some (if raw_service_code e (hints as) = EAI_SERVICE then ServiceNotFound
              else InvalidArgument)"
proof -
  have "check_params e (as\<lparr>as_count := 0\<rparr>) = Some (raw_service_code e (hints as))"
    using assms by (auto simp: check_params_def raw_service_code_def Let_def)
  moreover have "error_kind (raw_service_code e (hints as)) =
        Some (if raw_service_code e (hints as) = EAI_SERVICE then ServiceNotFound
              else InvalidArgument)"
    by (simp add: raw_service_code_def error_kind_def eai_consts)
  ultimately show ?thesis
    using assms(1) by (simp add: run_init_invalid)
qed

definition ex_raw_hints :: addrinfo where
  "ex_raw_hints = zero_addrinfo\<lparr>ai_family := PF_INET, ai_socktype := SOCK_RAW\<rparr>"

theorem raw_with_service_fails_witness:
  "getaddrinfo_async_run ex_env
      (ex_request (Some ''127.0.0.1'') (Some ''80'') (Some ex_raw_hints), ex_res, ex_world) =
    (ASYNC_DONE,
      async_set_state (ex_request (Some ''127.0.0.1'') (Some ''80'') (Some ex_raw_hints))
        ASR_STATE_HALT,
      ex_res\<lparr>ar_gai_errno := EAI_SERVICE\<rparr>, ex_world)
   \<and> error_kind EAI_SERVICE = Some ServiceNotFound"
  using raw_with_service_fails [of "ex_request (Some ''127.0.0.1'') (Some ''80'') (Some ex_raw_hints)"
      "''80''" ex_env ex_res ex_world]
  by (simp add: ex_request_eq async_new_def ex_res_def ex_raw_hints_def zero_addrinfo_def
      raw_service_code_def ex_env_def flag_consts sock_consts eai_consts)

text \<open>
  Claim C2 as stated fails: for the literal \<open>127.0.0.1\<close> with service \<open>80\<close> and
  hints that pin INET and RAW and are otherwise zero, the code reported is not of the
  kind \<open>InvalidArgument\<close>.
\<close>

theorem raw_with_service_not_invalid_argument:
  "error_kind (ar_gai_errno (fst (snd (snd (getaddrinfo_async_run ex_env
      (ex_request (Some ''127.0.0.1'') (Some ''80'') (Some ex_raw_hints), ex_res, ex_world))))))
    \<noteq> Some InvalidArgument"
proof -
  have "check_params ex_env
      ((ex_request (Some ''127.0.0.1'') (Some ''80'') (Some ex_raw_hints))\<lparr>as_count := 0\<rparr>)
      = Some EAI_SERVICE"
    by (simp add: check_params_def ex_request_eq async_new_def ex_raw_hints_def
        zero_addrinfo_def ex_env_def flag_consts sock_consts Let_def)
  then have "getaddrinfo_async_run ex_env
      (ex_request (Some ''127.0.0.1'') (Some ''80'') (Some ex_raw_hints), ex_res, ex_world) =
      (ASYNC_DONE,
        async_set_state ((ex_request (Some ''127.0.0.1'') (Some ''80'') (Some ex_raw_hints))
          \<lparr>as_count := 0\<rparr>) ASR_STATE_HALT,
        ex_res\<lparr>ar_gai_errno := EAI_SERVICE, ar_count := 0, ar_addrinfo := []\<rparr>, ex_world)"
    by (intro run_init_invalid) (simp_all add: ex_request_eq async_new_def)
  then show ?thesis
    by (simp add: error_kind_def eai_consts)
qed


section \<open>Runs through the backends\<close>

text \<open>The code that \<^verbatim>\<open>case ASR_STATE_NOT_FOUND\<close> reports.\<close>

definition not_found_code :: "async \<Rightarrow> int" where
  "not_found_code as = (if flags as AND ASYNC_AGAIN \<noteq> 0 then EAI_AGAIN else EAI_NODATA)"

lemma run_not_found:
  assumes "as_state as = ASR_STATE_NOT_FOUND"
  shows "getaddrinfo_async_run e (as, ar, w) =
      (ASYNC_DONE, async_set_state as ASR_STATE_HALT,
        ar\<lparr>ar_gai_errno := not_found_code as, ar_count := 0, ar_addrinfo := []\<rparr>, w)"
proof -
  have "step e (as, ar, w) = Inr (halt_with as ar w (not_found_code as))"
    using assms by (simp add: step_def state_not_found_def not_found_code_def)
  then have "getaddrinfo_async_run e (as, ar, w) =
      getaddrinfo_async_run e (halt_with as ar w (not_found_code as))"
    by (rule run_jump)
  moreover have "not_found_code as \<noteq> 0"
    by (simp add: not_found_code_def eai_consts)
  ultimately show ?thesis
    by (simp add: run_halt_with state_halt_error)
qed

text \<open>
  Claim C7. When no backend is left to select (the state is \<^verbatim>\<open>ASR_STATE_NOT_FOUND\<close>,
  or it is \<^verbatim>\<open>ASR_STATE_NEXT_DB\<close> with the backend cursor at the end of the configured
  list), the function returns \<^verbatim>\<open>ASYNC_DONE\<close> with no entries, and the code is
  \<^verbatim>\<open>EAI_AGAIN\<close> (kind \<open>Again\<close>) if the request carries the retry mark
  \<^verbatim>\<open>ASYNC_AGAIN\<close>, else \<^verbatim>\<open>EAI_NODATA\<close> (kind \<open>NoData\<close>).
\<close>

theorem backends_exhausted_result:
  assumes "as_state as = ASR_STATE_NOT_FOUND
      \<or> (as_state as = ASR_STATE_NEXT_DB \<and> length (ac_db (as_ctx as)) \<le> as_db_idx as)"
  shows "getaddrinfo_async_run e (as, ar, w) =
      (ASYNC_DONE, async_set_state as ASR_STATE_HALT,
        ar\<lparr>ar_gai_errno := (if flags as AND ASYNC_AGAIN \<noteq> 0 then EAI_AGAIN else EAI_NODATA),
           ar_count := 0, ar_addrinfo := []\<rparr>, w)
    \<and> error_kind (if flags as AND ASYNC_AGAIN \<noteq> 0 then EAI_AGAIN else EAI_NODATA) =
        Some (if flags as AND ASYNC_AGAIN \<noteq> 0 then Again else NoData)"
proof -
  have k: "error_kind (if flags as AND ASYNC_AGAIN \<noteq> 0 then EAI_AGAIN else EAI_NODATA) =
        Some (if flags as AND ASYNC_AGAIN \<noteq> 0 then Again else NoData)"
    by (simp add: error_kind_def eai_consts)
  from assms show ?thesis
  proof
    assume "as_state as = ASR_STATE_NOT_FOUND"
    then show ?thesis using k run_not_found [of as e ar w]
      by (simp add: not_found_code_def)
  next
    assume a: "as_state as = ASR_STATE_NEXT_DB \<and> length (ac_db (as_ctx as)) \<le> as_db_idx as"
    then have "step e (as, ar, w) = Inr (async_set_state as ASR_STATE_NOT_FOUND, ar, w)"
      by (simp add: step_def state_next_db_def asr_iter_db_def)
    then have "getaddrinfo_async_run e (as, ar, w) =
        getaddrinfo_async_run e (async_set_state as ASR_STATE_NOT_FOUND, ar, w)"
      by (rule run_jump)
    then show ?thesis
      using k run_not_found [of "async_set_state as ASR_STATE_NOT_FOUND" e ar w]
      by (simp add: not_found_code_def async_set_state_def)
  qed
qed

text \<open>A request of the concrete resolver that has tried both configured backends.\<close>

definition ex_exhausted :: async where
  "ex_exhausted =
    (ex_request (Some ''nowhere.example.com'') None None)
      \<lparr>as_state := ASR_STATE_NEXT_DB, as_db_idx := 2\<rparr>"

theorem backends_exhausted_result_witness:
  "getaddrinfo_async_run ex_env (ex_exhausted, ex_res, ex_world) =
      (ASYNC_DONE, async_set_state ex_exhausted ASR_STATE_HALT,
        ex_res\<lparr>ar_gai_errno := EAI_NODATA\<rparr>, ex_world)
   \<and> getaddrinfo_async_run ex_env (ex_exhausted\<lparr>flags := ASYNC_AGAIN\<rparr>, ex_res, ex_world) =
      (ASYNC_DONE, async_set_state (ex_exhausted\<lparr>flags := ASYNC_AGAIN\<rparr>) ASR_STATE_HALT,
        ex_res\<lparr>ar_gai_errno := EAI_AGAIN\<rparr>, ex_world)"
  using backends_exhausted_result [of ex_exhausted ex_env ex_res ex_world]
    backends_exhausted_result [of "ex_exhausted\<lparr>flags := ASYNC_AGAIN\<rparr>" ex_env ex_res ex_world]
  by (simp add: ex_exhausted_def ex_request_eq async_new_def ex_ctx_def ex_res_def
      ASYNC_AGAIN_def)







section \<open>What the builder appends\<close>

text \<open>
  The builder as the specification describes it: for one discovered address, one entry
  for each row of the compatibility table whose family is that of the address, whose
  socket type and protocol are compatible with the hints, and whose port is applicable;
  the canonical name is attached only under the canonical-name or the
  fully-qualified-name flag. The function of the source computes this list whenever no
  allocation fails.
\<close>

definition row_emits :: "async \<Rightarrow> sockaddr \<Rightarrow> match \<Rightarrow> bool" where
  "row_emits as sa m \<longleftrightarrow>
    m_family m = sa_family sa \<and> MATCH_SOCKTYPE (ai_socktype (hints as)) m
    \<and> MATCH_PROTO (ai_protocol (hints as)) m \<and> row_port as (row_proto as m) \<noteq> - 1"

definition cname_kept :: "async \<Rightarrow> string option \<Rightarrow> string option" where
  "cname_kept as cname =
    (if cname \<noteq> None \<and> ai_flags (hints as) AND (AI_CANONNAME OR AI_FQDN) \<noteq> 0
     then cname else None)"

definition entries_of_rows ::
  "env \<Rightarrow> async \<Rightarrow> match list \<Rightarrow> sockaddr \<Rightarrow> string option \<Rightarrow> addrinfo list"
where
  "entries_of_rows e as ms sa cname =
    map (\<lambda>m. new_ai e m sa (row_proto as m) (row_port as (row_proto as m)) (cname_kept as cname))
      (filter (row_emits as sa) (takeWhile (\<lambda>m. m_family m \<noteq> - 1) ms))"

definition builder_entries :: "env \<Rightarrow> async \<Rightarrow> sockaddr \<Rightarrow> string option \<Rightarrow> addrinfo list" where
  "builder_entries e as sa cname = entries_of_rows e as matches sa cname"

definition with_entries :: "async \<Rightarrow> addrinfo list \<Rightarrow> async" where
  "with_entries as ais =
    as\<lparr>ailist := ailist as @ ais, as_count := as_count as + int (length ais)\<rparr>"

lemma with_entries_Nil: "with_entries as [] = as"
  by (simp add: with_entries_def)

lemma with_entries_append:
  "with_entries (with_entries as xs) ys = with_entries as (xs @ ys)"
  by (simp add: with_entries_def)

lemma ai_append_with_entries: "ai_append as ai = with_entries as [ai]"
  by (simp add: ai_append_def with_entries_def)

lemma grown_with_entries: "grown as (with_entries as ais)"
  by (simp add: grown_def with_entries_def)

lemma row_emits_grown: "grown as as' \<Longrightarrow> row_emits as' sa m = row_emits as sa m"
  by (simp add: row_emits_def row_port_grown row_proto_grown) (simp add: grown_def)

lemma cname_kept_grown: "grown as as' \<Longrightarrow> cname_kept as' c = cname_kept as c"
  by (simp add: cname_kept_def grown_def)

lemma entries_of_rows_grown:
  "grown as as' \<Longrightarrow> entries_of_rows e as' ms sa c = entries_of_rows e as ms sa c"
  by (simp add: entries_of_rows_def row_emits_grown cname_kept_grown row_port_grown
      row_proto_grown cong: map_cong filter_cong)

lemma builder_entries_grown:
  "grown as as' \<Longrightarrow> builder_entries e as' sa c = builder_entries e as sa c"
  by (simp add: builder_entries_def entries_of_rows_grown)

lemma alloc_unlimited: "w_alloc w = None \<Longrightarrow> alloc w = (True, w)"
  by (simp add: alloc_def)

lemma addrinfo_add_from_ok:
  "w_alloc w = None \<Longrightarrow>
    addrinfo_add_from e ms sa cname as w =
      (0, with_entries as (entries_of_rows e as ms sa cname), w)"
proof (induction ms arbitrary: as)
  case Nil
  then show ?case by (simp add: entries_of_rows_def with_entries_Nil)
next
  case (Cons m ms)
  show ?case
  proof (cases "m_family m = - 1")
    case True
    then show ?thesis by (simp add: entries_of_rows_def with_entries_Nil)
  next
    case False
    note nf = False
    show ?thesis
    proof (cases "row_emits as sa m")
      case False
      then have "entries_of_rows e as (m # ms) sa cname = entries_of_rows e as ms sa cname"
        using nf by (simp add: entries_of_rows_def)
      moreover have "addrinfo_add_from e (m # ms) sa cname as w =
          addrinfo_add_from e ms sa cname as w"
        using nf False by (auto simp: row_emits_def)
      ultimately show ?thesis using Cons by simp
    next
      case True
      define x where "x = new_ai e m sa (row_proto as m) (row_port as (row_proto as m))
          (cname_kept as cname)"
      have e1: "entries_of_rows e as (m # ms) sa cname = x # entries_of_rows e as ms sa cname"
        using nf True by (simp add: entries_of_rows_def x_def)
      have "addrinfo_add_from e (m # ms) sa cname as w =
          addrinfo_add_from e ms sa cname (ai_append as x) w"
        using nf True Cons.prems
        by (auto simp: row_emits_def alloc_unlimited x_def cname_kept_def)
      also have "\<dots> = (0, with_entries (ai_append as x)
            (entries_of_rows e (ai_append as x) ms sa cname), w)"
        using Cons by simp
      also have "entries_of_rows e (ai_append as x) ms sa cname =
          entries_of_rows e as ms sa cname"
        by (rule entries_of_rows_grown) (rule grown_ai_append)
      finally show ?thesis
        by (simp add: e1 ai_append_with_entries with_entries_append)
    qed
  qed
qed

lemma addrinfo_add_ok:
  "w_alloc w = None \<Longrightarrow>
    addrinfo_add e as w sa cname = (0, with_entries as (builder_entries e as sa cname), w)"
  by (simp add: addrinfo_add_def builder_entries_def addrinfo_add_from_ok)

lemma builder_entries_addr:
  "ai \<in> set (builder_entries e as sa c) \<Longrightarrow>
    ai_family ai = sa_family sa \<and> map_option sa_addr (ai_addr ai) = Some (sa_addr sa)"
  by (auto simp: builder_entries_def entries_of_rows_def new_ai_def set_port_def)


section \<open>Canonical names from the local database\<close>

text \<open>
  The name \<^verbatim>\<open>addrinfo_from_file\<close> hands to the builder for a matching line whose
  first name token is \<open>t1\<close>.
\<close>

definition file_cname :: "async \<Rightarrow> string \<Rightarrow> string option" where
  "file_cname as t1 =
    (if ai_flags (hints as) AND (AI_CANONNAME OR AI_FQDN) \<noteq> 0 then Some t1 else None)"

text \<open>
  The policy as the specification words it: the first name token under the canonical-name
  flag, the name the request already knows under the fully-qualified-name flag, else none.
\<close>

definition claimed_file_cname :: "async \<Rightarrow> string \<Rightarrow> string option" where
  "claimed_file_cname as t1 =
    (if ai_flags (hints as) AND AI_CANONNAME \<noteq> 0 then Some t1
     else if ai_flags (hints as) AND AI_FQDN \<noteq> 0 then fqdn as
     else None)"

lemma flag_either:
  "(x AND (a OR b) \<noteq> 0) \<longleftrightarrow> (x AND a \<noteq> 0 \<or> x AND b \<noteq> 0)"
  for x :: "32 word"
  by (simp add: bit.conj_disj_distrib or_eq_0_iff)

lemma cname_kept_file_cname: "cname_kept as (file_cname as t1) = file_cname as t1"
  by (simp add: cname_kept_def file_cname_def)

lemma builder_entries_canonname:
  "ai \<in> set (builder_entries e as sa c) \<Longrightarrow> ai_canonname ai = cname_kept as c"
  by (auto simp: builder_entries_def entries_of_rows_def new_ai_def)

text \<open>
  Claim C9, amended. For a line that matches the query (a name token equals the hostname
  and the address token parses in the family), when no allocation fails, the scan goes
  on from the request extended by the builder's entries for the parsed address and the
  name \<open>file_cname\<close>; every such entry carries the line's first name token when the
  canonical-name flag or the fully-qualified-name flag is set, and no name when neither
  is set.
\<close>

theorem matching_line_forwards_first_name:
  assumes "line_match e (hostname as) family addr (t1 # ts) = Some (Some u)"
    and "w_alloc w = None"
  shows "addrinfo_from_file e as w family ((addr, t1 # ts) # ls) =
      addrinfo_from_file e (with_entries as (builder_entries e as u (file_cname as t1))) w
        family ls
    \<and> (\<forall>ai \<in> set (builder_entries e as u (file_cname as t1)).
          ai_canonname ai =
            (if ai_flags (hints as) AND AI_CANONNAME \<noteq> 0 \<or> ai_flags (hints as) AND AI_FQDN \<noteq> 0
             then Some t1 else None))"
proof -
  have f: "file_cname as t1 =
      (if ai_flags (hints as) AND AI_CANONNAME \<noteq> 0 \<or> ai_flags (hints as) AND AI_FQDN \<noteq> 0
       then Some t1 else None)"
    by (simp add: file_cname_def flag_either)
  have a: "addrinfo_from_file e as w family ((addr, t1 # ts) # ls) =
      addrinfo_from_file e (with_entries as (builder_entries e as u (file_cname as t1))) w
        family ls"
    using assms by (simp add: addrinfo_add_ok file_cname_def)
  have b: "ai_canonname ai =
      (if ai_flags (hints as) AND AI_CANONNAME \<noteq> 0 \<or> ai_flags (hints as) AND AI_FQDN \<noteq> 0
       then Some t1 else None)"
    if "ai \<in> set (builder_entries e as u (file_cname as t1))" for ai
  proof -
    have "ai_canonname ai = cname_kept as (file_cname as t1)"
      using that by (rule builder_entries_canonname)
    also have "\<dots> = file_cname as t1"
      by (rule cname_kept_file_cname)
    also note f
    finally show ?thesis .
  qed
  show ?thesis
    using a b by blast
qed


text \<open>
  In the concrete resolver: the hostname \<open>www\<close> with only the fully-qualified-name
  flag set, looked up in the hosts file for INET.
\<close>

definition ex_fqdn_request :: async where
  "ex_fqdn_request = ex_request (Some ''www'') None (Some (zero_addrinfo\<lparr>ai_flags := AI_FQDN\<rparr>))"

lemma strcasecmp_www1: "strcasecmp ''www'' ''www.example.com''"
  by (simp add: strcasecmp_def)

lemma strcasecmp_www2: "\<not> strcasecmp ''www'' ''www''"
  by (simp add: strcasecmp_def)

lemma strcasecmp_www3: "strcasecmp ''www'' ''localhost''"
  by (simp add: strcasecmp_def tolower_def)

lemma ex_line_match:
  "line_match ex_env (hostname ex_fqdn_request) PF_INET ''192.0.2.7''
      [''www.example.com'', ''www''] = Some (Some ex_sa_192)"
  by (simp add: ex_fqdn_request_def ex_request_eq strcasecmp_www1 strcasecmp_www2
      ex_env_def ex_sockaddr_from_str_def ex_sa_192_def)

lemma ex_fqdn_entries:
  "builder_entries ex_env ex_fqdn_request ex_sa_192 c =
    [\<lparr>ai_flags = 0, ai_family = PF_INET, ai_socktype = SOCK_DGRAM, ai_protocol = IPPROTO_UDP,
      ai_addrlen = 16, ai_addr = Some ex_sa_192, ai_canonname = c, ai_next = False\<rparr>,
     \<lparr>ai_flags = 0, ai_family = PF_INET, ai_socktype = SOCK_STREAM, ai_protocol = IPPROTO_TCP,
      ai_addrlen = 16, ai_addr = Some ex_sa_192, ai_canonname = c, ai_next = False\<rparr>]"
  by (simp add: builder_entries_def entries_of_rows_def matches_def mk_match_def row_emits_def
      MATCH_SOCKTYPE_def MATCH_PROTO_def row_proto_def row_port_def new_ai_def set_port_def
      cname_kept_def ex_fqdn_request_def ex_request_eq async_new_def zero_addrinfo_def
      ex_sa_192_def ex_env_def sock_consts flag_consts)

theorem matching_line_forwards_first_name_witness:
  "addrinfo_from_file ex_env ex_fqdn_request ex_world PF_INET
      [(''192.0.2.7'', [''www.example.com'', ''www''])] =
    Some (0, with_entries ex_fqdn_request
               (builder_entries ex_env ex_fqdn_request ex_sa_192 (Some ''www.example.com'')),
          ex_world)"
  using matching_line_forwards_first_name [of ex_env ex_fqdn_request PF_INET "''192.0.2.7''"
      "''www.example.com''" "[''www'']" ex_sa_192 ex_world "[]"] ex_line_match
  by (simp add: ex_world_def file_cname_def ex_fqdn_request_def ex_request_eq async_new_def
      zero_addrinfo_def flag_consts)


lemma ex_line_nomatch:
  "line_match ex_env (hostname ex_fqdn_request) PF_INET a [''localhost''] = Some None"
  by (simp add: ex_fqdn_request_def ex_request_eq strcasecmp_www3)

text \<open>
  Claim C9 as stated fails: with only the fully-qualified-name flag set and no name known
  to the request, the two entries built from the matching line carry the first name token
  \<open>www.example.com\<close>, where the claim forwards the request's known name, which is
  none.
\<close>

theorem fqdn_flag_forwards_first_name:
  "addrinfo_from_file ex_env ex_fqdn_request ex_world PF_INET ex_hosts =
      Some (0, with_entries ex_fqdn_request
                 (builder_entries ex_env ex_fqdn_request ex_sa_192 (Some ''www.example.com'')),
            ex_world)
   \<and> map ai_canonname
        (builder_entries ex_env ex_fqdn_request ex_sa_192 (Some ''www.example.com'')) =
      [Some ''www.example.com'', Some ''www.example.com'']
   \<and> ai_flags (hints ex_fqdn_request) AND AI_CANONNAME = 0
   \<and> ai_flags (hints ex_fqdn_request) AND AI_FQDN \<noteq> 0
   \<and> fqdn ex_fqdn_request = None
   \<and> claimed_file_cname ex_fqdn_request ''www.example.com'' = None"
proof -
  have w: "w_alloc ex_world = None" by (simp add: ex_world_def)
  have fl: "ai_flags (hints ex_fqdn_request) AND (AI_CANONNAME OR AI_FQDN) \<noteq> 0"
    by (simp add: ex_fqdn_request_def ex_request_eq zero_addrinfo_def flag_consts)
  have "addrinfo_from_file ex_env ex_fqdn_request ex_world PF_INET ex_hosts =
      addrinfo_from_file ex_env ex_fqdn_request ex_world PF_INET
        [(''192.0.2.7'', [''www.example.com'', ''www''])]"
    by (simp add: ex_hosts_def ex_line_nomatch del: line_match.simps)
  also have "\<dots> = Some (0, with_entries ex_fqdn_request
                 (builder_entries ex_env ex_fqdn_request ex_sa_192 (Some ''www.example.com'')),
            ex_world)"
    using ex_line_match fl by (simp add: addrinfo_add_ok [OF w] del: line_match.simps)
  finally show ?thesis
    by (simp add: ex_fqdn_entries claimed_file_cname_def)
      (simp add: ex_fqdn_request_def ex_request_eq async_new_def zero_addrinfo_def flag_consts)
qed


section \<open>Entries from a DNS answer\<close>

text \<open>
  The request after the first matching record: it knows a name, its own if it had one,
  else the printed name of the question without its last character.
\<close>

definition learned :: "async \<Rightarrow> query \<Rightarrow> async" where
  "learned as q = (if fqdn as = None then as\<lparr>fqdn := Some (butlast (q_dname q))\<rparr> else as)"

text \<open>
  The name attached to the entries of a record whose owner is the queried name: the
  stripped name under the canonical-name flag, the name the request then knows under the
  fully-qualified-name flag, else none.
\<close>

definition answer_cname :: "async \<Rightarrow> query \<Rightarrow> string option" where
  "answer_cname as q =
    (if ai_flags (hints as) AND AI_CANONNAME \<noteq> 0 then Some (butlast (q_dname q))
     else if ai_flags (hints as) AND AI_FQDN \<noteq> 0
     then Some (case fqdn as of None \<Rightarrow> butlast (q_dname q) | Some n \<Rightarrow> n)
     else None)"

text \<open>The address structure built for an A record: family INET, port zero.\<close>

definition sockaddr_in :: "8 word list \<Rightarrow> sockaddr" where
  "sockaddr_in a = \<lparr>sa_family = PF_INET, sa_port = 0, sa_addr = a\<rparr>"

text \<open>The rows of the table that yield an entry for an address of a family.\<close>

definition compatible_rows :: "async \<Rightarrow> int \<Rightarrow> match list" where
  "compatible_rows as family =
    filter (\<lambda>m. m_family m = family \<and> MATCH_SOCKTYPE (ai_socktype (hints as)) m
              \<and> MATCH_PROTO (ai_protocol (hints as)) m
              \<and> row_port as (row_proto as m) \<noteq> - 1)
      (takeWhile (\<lambda>m. m_family m \<noteq> - 1) matches)"

lemma length_builder_entries:
  "length (builder_entries e as sa c) = length (compatible_rows as (sa_family sa))"
proof -
  have "row_emits as sa = (\<lambda>m. m_family m = sa_family sa
      \<and> MATCH_SOCKTYPE (ai_socktype (hints as)) m \<and> MATCH_PROTO (ai_protocol (hints as)) m
      \<and> row_port as (row_proto as m) \<noteq> - 1)"
    by (rule ext) (simp add: row_emits_def)
  then show ?thesis
    by (simp add: builder_entries_def entries_of_rows_def compatible_rows_def)
qed

lemma learn_fqdn_ok: "w_alloc w = None \<Longrightarrow> learn_fqdn as w q = (True, learned as q, w)"
  by (simp add: learn_fqdn_def learned_def alloc_unlimited)

lemma grown_learned: "grown as (learned as q)"
  by (simp add: learned_def grown_def)

lemma learned_idem: "fqdn as \<noteq> None \<Longrightarrow> learned as q = as"
  by (simp add: learned_def)

lemma fqdn_learned: "fqdn (learned as q) \<noteq> None"
  by (simp add: learned_def)

lemma fqdn_with_entries: "fqdn (with_entries as xs) = fqdn as"
  by (simp add: with_entries_def)

lemma pkt_cname_learned:
  "rr_dname r = q_dname q \<Longrightarrow> pkt_cname (learned as q) r = answer_cname as q"
  by (auto simp: pkt_cname_def answer_cname_def learned_def split: option.splits)

lemma cname_kept_answer: "cname_kept as (answer_cname as q) = answer_cname as q"
  by (auto simp: cname_kept_def answer_cname_def flag_either)

lemma a_record_step:
  assumes "w_alloc w = None"
    and "rr_type r = T_A" and "q_type q = T_A" and "rr_class r = q_class q"
    and "rr_dname r = q_dname q"
  shows "addrinfo_from_rrs e as w q (r # rs) =
    addrinfo_from_rrs e
      (with_entries (learned as q)
        (builder_entries e as (sockaddr_in (in_a_addr r)) (answer_cname as q))) w q rs"
proof -
  have "sockaddr_of_rr r = Some (sockaddr_in (in_a_addr r))"
    using assms(2) by (simp add: sockaddr_of_rr_def sockaddr_in_def)
  moreover have "builder_entries e (learned as q) (sockaddr_in (in_a_addr r)) (answer_cname as q)
      = builder_entries e as (sockaddr_in (in_a_addr r)) (answer_cname as q)"
    by (rule builder_entries_grown) (rule grown_learned)
  ultimately show ?thesis
    using assms
    by (simp add: learn_fqdn_ok addrinfo_add_ok pkt_cname_learned)
qed

text \<open>
  The records of an answer that the extractor uses: those of the type and the class of
  the question, in their order. It skips every other record.
\<close>

definition answers_to :: "query \<Rightarrow> rr list \<Rightarrow> rr list" where
  "answers_to q rs = filter (\<lambda>r. rr_type r = q_type q \<and> rr_class r = q_class q) rs"

text \<open>
  The number of rows of family INET that yield an entry, read off the hints and the two
  ports: the datagram row, the stream row and the raw row.
\<close>

definition inet_row_count :: "async \<Rightarrow> nat" where
  "inet_row_count as =
    (if (ai_socktype (hints as) = SOCK_DGRAM \<or> ai_socktype (hints as) = 0)
        \<and> (ai_protocol (hints as) = IPPROTO_UDP \<or> ai_protocol (hints as) = 0)
        \<and> port_udp as \<noteq> - 1 then 1 else 0)
    + (if (ai_socktype (hints as) = SOCK_STREAM \<or> ai_socktype (hints as) = 0)
        \<and> (ai_protocol (hints as) = IPPROTO_TCP \<or> ai_protocol (hints as) = 0)
        \<and> port_tcp as \<noteq> - 1 then 1 else 0)
    + (if ai_socktype (hints as) = SOCK_RAW
        \<and> \<not> (ai_protocol (hints as) = IPPROTO_TCP \<and> port_tcp as = - 1)
        \<and> \<not> (ai_protocol (hints as) = IPPROTO_UDP \<and> port_udp as = - 1) then 1 else 0)"

lemma length_compatible_rows_inet:
  "length (compatible_rows as PF_INET) = inet_row_count as"
  by (auto simp: compatible_rows_def inet_row_count_def matches_def mk_match_def
      MATCH_SOCKTYPE_def MATCH_PROTO_def row_proto_def row_port_def sock_consts)

lemma rrs_skip_prefix:
  "\<forall>u \<in> set us. rr_type u \<noteq> q_type q \<or> rr_class u \<noteq> q_class q \<Longrightarrow>
    addrinfo_from_rrs e as w q (us @ vs) = addrinfo_from_rrs e as w q vs"
  by (induction us) auto

lemma rrs_skip_all:
  "answers_to q rs = [] \<Longrightarrow> addrinfo_from_rrs e as w q rs = (0, as, w)"
  using rrs_skip_prefix [of rs q e as w "[]"]
  by (auto simp: answers_to_def filter_empty_conv)

lemma rrs_first_answer:
  assumes "w_alloc w = None" and "q_type q = T_A"
    and "answers_to q rs = r # rest" and "rr_dname r = q_dname q"
  shows "\<exists>vs. answers_to q vs = rest \<and>
    addrinfo_from_rrs e as w q rs =
      addrinfo_from_rrs e
        (with_entries (learned as q)
          (builder_entries e as (sockaddr_in (in_a_addr r)) (answer_cname as q))) w q vs"
proof -
  obtain us vs where rs: "rs = us @ r # vs"
    and us: "\<forall>u \<in> set us. \<not> (rr_type u = q_type q \<and> rr_class u = q_class q)"
    and r: "rr_type r = q_type q \<and> rr_class r = q_class q"
    and vs: "rest = answers_to q vs"
    using assms(3) unfolding answers_to_def filter_eq_Cons_iff by blast
  have "addrinfo_from_rrs e as w q rs = addrinfo_from_rrs e as w q (r # vs)"
    unfolding rs using us by (intro rrs_skip_prefix) simp
  also have "\<dots> = addrinfo_from_rrs e
        (with_entries (learned as q)
          (builder_entries e as (sockaddr_in (in_a_addr r)) (answer_cname as q))) w q vs"
    using assms(1,2,4) r by (intro a_record_step) simp_all
  finally show ?thesis using vs by blast
qed

lemma two_answers_run:
  assumes "w_alloc w = None" and "q_type (pkt_query pkt) = T_A"
    and "answers_to (pkt_query pkt) (pkt_answers pkt) = [r1, r2]"
    and "rr_dname r1 = q_dname (pkt_query pkt)"
    and "rr_dname r2 = q_dname (pkt_query pkt)"
  shows "addrinfo_from_pkt e as w pkt =
      (0, with_entries (learned as (pkt_query pkt))
            (builder_entries e as (sockaddr_in (in_a_addr r1)) (answer_cname as (pkt_query pkt))
             @ builder_entries e as (sockaddr_in (in_a_addr r2)) (answer_cname as (pkt_query pkt))),
       w)"
proof -
  let ?q = "pkt_query pkt"
  let ?c = "answer_cname as ?q"
  let ?b1 = "builder_entries e as (sockaddr_in (in_a_addr r1)) ?c"
  let ?b2 = "builder_entries e as (sockaddr_in (in_a_addr r2)) ?c"
  let ?as1 = "with_entries (learned as ?q) ?b1"
  have g: "grown as ?as1"
    using grown_learned grown_with_entries grown_trans by blast
  have k: "fqdn ?as1 \<noteq> None"
    by (simp add: fqdn_with_entries fqdn_learned)
  have c: "answer_cname ?as1 ?q = ?c"
    using g by (auto simp: answer_cname_def grown_def fqdn_with_entries learned_def
        split: option.splits)
  obtain vs where v1: "answers_to ?q vs = [r2]"
    and s1: "addrinfo_from_rrs e as w ?q (pkt_answers pkt) = addrinfo_from_rrs e ?as1 w ?q vs"
    using rrs_first_answer [OF assms(1,2,3,4), of e as] by blast
  obtain vs' where v2: "answers_to ?q vs' = []"
    and s2: "addrinfo_from_rrs e ?as1 w ?q vs =
      addrinfo_from_rrs e
        (with_entries (learned ?as1 ?q)
          (builder_entries e ?as1 (sockaddr_in (in_a_addr r2)) (answer_cname ?as1 ?q))) w ?q vs'"
    using rrs_first_answer [OF assms(1,2) v1 assms(5), of e ?as1] by blast
  have l: "learned ?as1 ?q = ?as1"
    using k by (rule learned_idem)
  have b: "builder_entries e ?as1 (sockaddr_in (in_a_addr r2)) (answer_cname ?as1 ?q) = ?b2"
    using g by (simp add: c builder_entries_grown)
  show ?thesis
    unfolding addrinfo_from_pkt_def s1 s2 l b rrs_skip_all [OF v2]
    by (simp add: with_entries_append)
qed

text \<open>
  Claim C8, amended. Take an answer to a question of type A in which the records of the
  type and the class of the question are exactly two, \<open>r1\<close> then \<open>r2\<close>, both owned by the
  queried name (records of another type or class may stand anywhere in the answer), and
  let no allocation fail. Then the extractor returns 0 and appends the builder's entries
  for the address of \<open>r1\<close>, then those for the address of \<open>r2\<close>. For each record that
  is one entry of family INET with the address of the record for each row counted by
  \<open>inet_row_count\<close>: the datagram row when the socket type is DGRAM or unset, the
  protocol UDP or unset, and the UDP port is not \<open>-1\<close>; the stream row likewise with
  STREAM and TCP; the raw row when the socket type is RAW and the port of the hinted
  protocol is not \<open>-1\<close>. So the entries appended are twice that number, two exactly when
  one row remains. Every entry carries the name \<open>answer_cname\<close>: the name derived from
  the query name under the canonical-name flag, the name the request knows (learned from
  the query name if it knew none) under the fully-qualified-name flag, and none when
  neither flag is set.
\<close>

theorem two_a_records_entries:
  assumes "w_alloc w = None" and "q_type (pkt_query pkt) = T_A"
    and "answers_to (pkt_query pkt) (pkt_answers pkt) = [r1, r2]"
    and "rr_dname r1 = q_dname (pkt_query pkt)"
    and "rr_dname r2 = q_dname (pkt_query pkt)"
  shows "addrinfo_from_pkt e as w pkt =
      (0, with_entries (learned as (pkt_query pkt))
            (builder_entries e as (sockaddr_in (in_a_addr r1)) (answer_cname as (pkt_query pkt))
             @ builder_entries e as (sockaddr_in (in_a_addr r2)) (answer_cname as (pkt_query pkt))),
       w)
    \<and> length (builder_entries e as (sockaddr_in (in_a_addr r1)) (answer_cname as (pkt_query pkt)))
        = inet_row_count as
    \<and> length (builder_entries e as (sockaddr_in (in_a_addr r2)) (answer_cname as (pkt_query pkt)))
        = inet_row_count as
    \<and> as_count (fst (snd (addrinfo_from_pkt e as w pkt))) =
        as_count as + 2 * int (inet_row_count as)
    \<and> (\<forall>ai \<in> set (builder_entries e as (sockaddr_in (in_a_addr r1))
                      (answer_cname as (pkt_query pkt))).
          ai_family ai = PF_INET \<and> map_option sa_addr (ai_addr ai) = Some (in_a_addr r1))
    \<and> (\<forall>ai \<in> set (builder_entries e as (sockaddr_in (in_a_addr r2))
                      (answer_cname as (pkt_query pkt))).
          ai_family ai = PF_INET \<and> map_option sa_addr (ai_addr ai) = Some (in_a_addr r2))
    \<and> (\<forall>ai \<in> set (builder_entries e as (sockaddr_in (in_a_addr r1))
                      (answer_cname as (pkt_query pkt))
                    @ builder_entries e as (sockaddr_in (in_a_addr r2))
                      (answer_cname as (pkt_query pkt))).
          ai_canonname ai = answer_cname as (pkt_query pkt))"
proof -
  let ?c = "answer_cname as (pkt_query pkt)"
  let ?b1 = "builder_entries e as (sockaddr_in (in_a_addr r1)) ?c"
  let ?b2 = "builder_entries e as (sockaddr_in (in_a_addr r2)) ?c"
  note run = two_answers_run [OF assms, of e as]
  have len: "length (builder_entries e as (sockaddr_in a) ?c) = inet_row_count as" for a
    by (simp add: length_builder_entries sockaddr_in_def length_compatible_rows_inet)
  have cnt: "as_count (fst (snd (addrinfo_from_pkt e as w pkt))) =
      as_count as + 2 * int (inet_row_count as)"
    unfolding run by (simp add: with_entries_def learned_def len)
  have ad: "ai_family ai = PF_INET \<and> map_option sa_addr (ai_addr ai) = Some a"
    if "ai \<in> set (builder_entries e as (sockaddr_in a) ?c)" for ai a
    using builder_entries_addr [OF that] by (simp add: sockaddr_in_def)
  have cn: "ai_canonname ai = ?c" if "ai \<in> set (?b1 @ ?b2)" for ai
    using that builder_entries_canonname [of ai e as _ ?c]
    by (auto simp: cname_kept_answer)
  show ?thesis
    using run len cnt ad cn by simp
qed

text \<open>
  In the concrete resolver: an answer with two A records for \<open>www.example.com\<close>, the
  same answer with a signature record of type 46 between the two, and requests for that
  name under given hints.
\<close>

definition ex_pkt :: packet where
  "ex_pkt =
    \<lparr>pkt_query = \<lparr>q_dname = ''www.example.com.'', q_type = T_A, q_class = C_IN\<rparr>,
     pkt_answers =
       [\<lparr>rr_type = T_A, rr_class = C_IN, rr_dname = ''www.example.com.'',
         in_a_addr = [192, 0, 2, 7], in_aaaa_addr6 = []\<rparr>,
        \<lparr>rr_type = T_A, rr_class = C_IN, rr_dname = ''www.example.com.'',
         in_a_addr = [192, 0, 2, 8], in_aaaa_addr6 = []\<rparr>]\<rparr>"

definition ex_pkt_signed :: packet where
  "ex_pkt_signed =
    \<lparr>pkt_query = \<lparr>q_dname = ''www.example.com.'', q_type = T_A, q_class = C_IN\<rparr>,
     pkt_answers =
       [\<lparr>rr_type = T_A, rr_class = C_IN, rr_dname = ''www.example.com.'',
         in_a_addr = [192, 0, 2, 7], in_aaaa_addr6 = []\<rparr>,
        \<lparr>rr_type = 46, rr_class = C_IN, rr_dname = ''www.example.com.'',
         in_a_addr = [], in_aaaa_addr6 = []\<rparr>,
        \<lparr>rr_type = T_A, rr_class = C_IN, rr_dname = ''www.example.com.'',
         in_a_addr = [192, 0, 2, 8], in_aaaa_addr6 = []\<rparr>]\<rparr>"

definition ex_dns_request :: "addrinfo \<Rightarrow> async" where
  "ex_dns_request hs = ex_request (Some ''www.example.com'') None (Some hs)"

definition ex_stream_hints :: addrinfo where
  "ex_stream_hints =
    zero_addrinfo\<lparr>ai_flags := AI_CANONNAME, ai_family := PF_INET, ai_socktype := SOCK_STREAM\<rparr>"

definition ex_inet_hints :: addrinfo where
  "ex_inet_hints = zero_addrinfo\<lparr>ai_family := PF_INET\<rparr>"

theorem two_a_records_entries_witness:
  "fst (addrinfo_from_pkt ex_env (ex_dns_request ex_stream_hints) ex_world ex_pkt_signed) = 0
   \<and> as_count (fst (snd (addrinfo_from_pkt ex_env (ex_dns_request ex_stream_hints)
        ex_world ex_pkt_signed))) = 2
   \<and> map ai_canonname (ailist (fst (snd (addrinfo_from_pkt ex_env
        (ex_dns_request ex_stream_hints) ex_world ex_pkt_signed)))) =
      [Some ''www.example.com'', Some ''www.example.com'']
   \<and> map ai_socktype (ailist (fst (snd (addrinfo_from_pkt ex_env
        (ex_dns_request ex_stream_hints) ex_world ex_pkt_signed)))) = [SOCK_STREAM, SOCK_STREAM]
   \<and> map (\<lambda>ai. map_option sa_addr (ai_addr ai)) (ailist (fst (snd (addrinfo_from_pkt ex_env
        (ex_dns_request ex_stream_hints) ex_world ex_pkt_signed)))) =
      [Some [192, 0, 2, 7], Some [192, 0, 2, 8]]"
  using two_a_records_entries [of ex_world ex_pkt_signed "pkt_answers ex_pkt_signed ! 0"
      "pkt_answers ex_pkt_signed ! 2" ex_env "ex_dns_request ex_stream_hints"]
  by (simp add: ex_world_def ex_pkt_signed_def answers_to_def T_A_def C_IN_def
      with_entries_def builder_entries_def
      entries_of_rows_def matches_def mk_match_def row_emits_def MATCH_SOCKTYPE_def
      MATCH_PROTO_def row_proto_def row_port_def new_ai_def cname_kept_def answer_cname_def
      sockaddr_in_def ex_dns_request_def ex_request_eq async_new_def ex_stream_hints_def
      zero_addrinfo_def sock_consts flag_consts learned_def set_port_def inet_row_count_def)

text \<open>
  Claim C8 as stated fails: under hints that pin the family INET and nothing else, the
  two A records yield four entries, a datagram and a stream entry for each address.
\<close>

theorem two_a_records_four_entries:
  "as_count (fst (snd (addrinfo_from_pkt ex_env (ex_dns_request ex_inet_hints)
        ex_world ex_pkt))) = 4
   \<and> map ai_socktype (ailist (fst (snd (addrinfo_from_pkt ex_env
        (ex_dns_request ex_inet_hints) ex_world ex_pkt)))) =
      [SOCK_DGRAM, SOCK_STREAM, SOCK_DGRAM, SOCK_STREAM]
   \<and> map (\<lambda>ai. map_option sa_addr (ai_addr ai)) (ailist (fst (snd (addrinfo_from_pkt ex_env
        (ex_dns_request ex_inet_hints) ex_world ex_pkt)))) =
      [Some [192, 0, 2, 7], Some [192, 0, 2, 7], Some [192, 0, 2, 8], Some [192, 0, 2, 8]]"
  using two_answers_run [of ex_world ex_pkt "hd (pkt_answers ex_pkt)"
      "hd (tl (pkt_answers ex_pkt))" ex_env "ex_dns_request ex_inet_hints"]
  by (simp add: ex_world_def ex_pkt_def answers_to_def with_entries_def builder_entries_def
      entries_of_rows_def matches_def mk_match_def row_emits_def MATCH_SOCKTYPE_def
      MATCH_PROTO_def row_proto_def row_port_def new_ai_def cname_kept_def answer_cname_def
      sockaddr_in_def ex_dns_request_def ex_request_eq async_new_def ex_inet_hints_def
      zero_addrinfo_def sock_consts flag_consts learned_def set_port_def)


section \<open>The builder when an allocation may fail\<close>

text \<open>
  The builder never calls a backend: it leaves the record of calls, the pending reports
  and the NIS domain as they are. It returns 0 with all its entries appended, or
  \<^verbatim>\<open>EAI_MEMORY\<close> with the entries appended before the allocation that failed.
\<close>

definition same_backends :: "world \<Rightarrow> world \<Rightarrow> bool" where
  "same_backends w w' \<longleftrightarrow>
    w_trace w' = w_trace w \<and> w_events w' = w_events w \<and> w_domain w' = w_domain w"

lemma same_backends_refl: "same_backends w w"
  by (simp add: same_backends_def)

lemma same_backends_trans: "same_backends a b \<Longrightarrow> same_backends b c \<Longrightarrow> same_backends a c"
  by (simp add: same_backends_def)

lemma alloc_same_backends: "alloc w = (b, w') \<Longrightarrow> same_backends w w'"
  by (auto simp: alloc_def same_backends_def split: option.splits nat.splits)

lemma add_from_skip:
  "m_family m \<noteq> - 1 \<Longrightarrow> \<not> row_emits as sa m \<Longrightarrow>
    addrinfo_add_from e (m # ms) sa c as w = addrinfo_add_from e ms sa c as w"
  by (auto simp: row_emits_def)

lemma add_from_emit:
  "m_family m \<noteq> - 1 \<Longrightarrow> row_emits as sa m \<Longrightarrow>
    addrinfo_add_from e (m # ms) sa c as w =
      (case alloc w of
        (False, w1) \<Rightarrow> (EAI_MEMORY, as, w1)
      | (True, w1) \<Rightarrow>
          (case (if c \<noteq> None \<and> ai_flags (hints as) AND (AI_CANONNAME OR AI_FQDN) \<noteq> 0
                 then alloc w1 else (True, w1)) of
            (False, w2) \<Rightarrow> (EAI_MEMORY, as, w2)
          | (True, w2) \<Rightarrow>
              addrinfo_add_from e ms sa c
                (ai_append as
                  (new_ai e m sa (row_proto as m) (row_port as (row_proto as m))
                    (cname_kept as c))) w2))"
  by (auto simp: row_emits_def cname_kept_def split: prod.splits bool.splits)

lemma addrinfo_add_from_cases:
  "addrinfo_add_from e ms sa c as w = (r, as', w') \<Longrightarrow>
    same_backends w w' \<and>
    ((r = 0 \<and> as' = with_entries as (entries_of_rows e as ms sa c))
     \<or> (r = EAI_MEMORY \<and> (\<exists>n. as' = with_entries as (take n (entries_of_rows e as ms sa c)))))"
proof (induction ms arbitrary: as w)
  case Nil
  then show ?case
    by (simp add: entries_of_rows_def with_entries_Nil same_backends_refl)
next
  case (Cons m ms)
  show ?case
  proof (cases "m_family m = - 1")
    case True
    then show ?thesis
      using Cons.prems by (simp add: entries_of_rows_def with_entries_Nil same_backends_refl)
  next
    case False
    note nf = False
    show ?thesis
    proof (cases "row_emits as sa m")
      case False
      then have e0: "entries_of_rows e as (m # ms) sa c = entries_of_rows e as ms sa c"
        using nf by (simp add: entries_of_rows_def)
      have "addrinfo_add_from e ms sa c as w = (r, as', w')"
        using add_from_skip [OF nf False] Cons.prems by simp
      then show ?thesis using Cons.IH e0 by simp
    next
      case True
      define x where "x = new_ai e m sa (row_proto as m) (row_port as (row_proto as m))
          (cname_kept as c)"
      have e1: "entries_of_rows e as (m # ms) sa c = x # entries_of_rows e as ms sa c"
        using nf True by (simp add: entries_of_rows_def x_def)
      have e2: "entries_of_rows e (with_entries as [x]) ms sa c = entries_of_rows e as ms sa c"
        by (rule entries_of_rows_grown) (rule grown_with_entries)
      note unf = add_from_emit [OF nf True, of e ms c w]
      obtain b1 w1 where a1: "alloc w = (b1, w1)" by (cases "alloc w") auto
      have s1: "same_backends w w1" using a1 by (rule alloc_same_backends)
      show ?thesis
      proof (cases b1)
        case False
        then have "r = EAI_MEMORY \<and> as' = as \<and> w' = w1"
          using unf a1 Cons.prems by simp
        then have "r = EAI_MEMORY \<and> as' = with_entries as (take 0 (entries_of_rows e as (m # ms) sa c))
            \<and> same_backends w w'"
          using s1 by (simp add: with_entries_Nil)
        then show ?thesis by blast
      next
        case True
        note b1 = True
        define keep where "keep \<longleftrightarrow> c \<noteq> None \<and> ai_flags (hints as) AND (AI_CANONNAME OR AI_FQDN) \<noteq> 0"
        obtain b2 w2 where a2: "(if keep then alloc w1 else (True, w1)) = (b2, w2)"
          by (cases "if keep then alloc w1 else (True, w1)") auto
        have s2: "same_backends w1 w2"
          using a2 alloc_same_backends same_backends_refl by (auto split: if_splits)
        have x_eq: "x = new_ai e m sa (row_proto as m) (row_port as (row_proto as m))
            (if keep then c else None)"
          by (simp add: x_def cname_kept_def keep_def)
        show ?thesis
        proof (cases b2)
          case False
          then have "keep" using a2 by (auto split: if_splits)
          then have "r = EAI_MEMORY \<and> as' = as \<and> w' = w2"
            using unf a1 b1 a2 False Cons.prems
            by (simp add: keep_def)
          then have "r = EAI_MEMORY
              \<and> as' = with_entries as (take 0 (entries_of_rows e as (m # ms) sa c))
              \<and> same_backends w w'"
            using s1 s2 same_backends_trans by (auto simp: with_entries_Nil)
          then show ?thesis by blast
        next
          case True
          have "addrinfo_add_from e ms sa c (ai_append as x) w2 = (r, as', w')"
            using unf a1 b1 a2 True Cons.prems
            by (simp add: keep_def x_def)
          from Cons.IH [OF this]
          have ih: "same_backends w2 w' \<and>
            ((r = 0 \<and> as' = with_entries as (x # entries_of_rows e as ms sa c))
             \<or> (r = EAI_MEMORY \<and>
                  (\<exists>n. as' = with_entries as (x # take n (entries_of_rows e as ms sa c)))))"
            by (simp add: e2 ai_append_with_entries with_entries_append)
          have sb: "same_backends w w'"
            using s1 s2 ih same_backends_trans by blast
          from ih have "(r = 0 \<and> as' = with_entries as (entries_of_rows e as (m # ms) sa c))
             \<or> (r = EAI_MEMORY \<and>
                  (\<exists>n. as' = with_entries as (take n (entries_of_rows e as (m # ms) sa c))))"
          proof (elim conjE disjE exE)
            assume "r = 0" "as' = with_entries as (x # entries_of_rows e as ms sa c)"
            then show ?thesis by (simp add: e1)
          next
            fix n assume "r = EAI_MEMORY"
              "as' = with_entries as (x # take n (entries_of_rows e as ms sa c))"
            then have "r = EAI_MEMORY
              \<and> as' = with_entries as (take (Suc n) (entries_of_rows e as (m # ms) sa c))"
              by (simp add: e1)
            then show ?thesis by blast
          qed
          then show ?thesis using sb by simp
        qed
      qed
    qed
  qed
qed

lemma addrinfo_add_cases:
  "addrinfo_add e as w sa c = (r, as', w') \<Longrightarrow>
    same_backends w w' \<and>
    ((r = 0 \<and> as' = with_entries as (builder_entries e as sa c))
     \<or> (r = EAI_MEMORY \<and> (\<exists>n. as' = with_entries as (take n (builder_entries e as sa c)))))"
  unfolding addrinfo_add_def builder_entries_def by (rule addrinfo_add_from_cases)

text \<open>The allocations for one entry: the entry itself, then the copy of the name if kept.\<close>

definition entry_alloc :: "async \<Rightarrow> string option \<Rightarrow> world \<Rightarrow> bool \<times> world" where
  "entry_alloc as c w =
    (case alloc w of
      (False, w1) \<Rightarrow> (False, w1)
    | (True, w1) \<Rightarrow>
        (if c \<noteq> None \<and> ai_flags (hints as) AND (AI_CANONNAME OR AI_FQDN) \<noteq> 0
         then alloc w1 else (True, w1)))"

lemma add_from_emit_alloc:
  "m_family m \<noteq> - 1 \<Longrightarrow> row_emits as sa m \<Longrightarrow>
    addrinfo_add_from e (m # ms) sa c as w =
      (case entry_alloc as c w of
        (False, w2) \<Rightarrow> (EAI_MEMORY, as, w2)
      | (True, w2) \<Rightarrow>
          addrinfo_add_from e ms sa c
            (ai_append as
              (new_ai e m sa (row_proto as m) (row_port as (row_proto as m))
                (cname_kept as c))) w2)"
  by (simp add: add_from_emit entry_alloc_def del: addrinfo_add_from.simps
      split: prod.splits bool.splits)


section \<open>The builder under an allocation budget\<close>

text \<open>
  What the allocator has left: \<open>enough w n\<close> when the next \<open>n\<close> allocations succeed,
  \<open>spend w n\<close> the surroundings after \<open>n\<close> successful allocations, \<open>exhausted w\<close>
  the surroundings after an allocation has failed (nothing left, \<^verbatim>\<open>errno\<close> set to
  \<^verbatim>\<open>ENOMEM\<close>), and \<open>budget w\<close> the number of allocations that still succeed when
  that number is bounded.
\<close>

definition enough :: "world \<Rightarrow> nat \<Rightarrow> bool" where
  "enough w n \<longleftrightarrow> (case w_alloc w of None \<Rightarrow> True | Some k \<Rightarrow> n \<le> k)"

definition spend :: "world \<Rightarrow> nat \<Rightarrow> world" where
  "spend w n = (case w_alloc w of None \<Rightarrow> w | Some k \<Rightarrow> w\<lparr>w_alloc := Some (k - n)\<rparr>)"

definition exhausted :: "world \<Rightarrow> world" where
  "exhausted w = w\<lparr>w_alloc := Some 0, w_errno := ENOMEM\<rparr>"

definition budget :: "world \<Rightarrow> nat" where
  "budget w = (case w_alloc w of None \<Rightarrow> 0 | Some k \<Rightarrow> k)"

text \<open>
  The allocations one entry takes: the entry, and the copy of the name when a name is
  given under the canonical-name or the fully-qualified-name flag.
\<close>

definition entry_cost :: "async \<Rightarrow> string option \<Rightarrow> nat" where
  "entry_cost as c =
    (if c \<noteq> None \<and> ai_flags (hints as) AND (AI_CANONNAME OR AI_FQDN) \<noteq> 0 then 2 else 1)"

lemma spend_0: "spend w 0 = w"
  by (cases w) (simp add: spend_def split: option.splits)

lemma enough_0: "enough w 0"
  by (simp add: enough_def split: option.splits)

lemma spend_spend: "spend (spend w a) b = spend w (a + b)"
  by (simp add: spend_def split: option.splits)

lemma enough_spend: "enough w a \<Longrightarrow> enough (spend w a) b \<longleftrightarrow> enough w (a + b)"
  by (auto simp: enough_def spend_def split: option.splits)

lemma enough_mono: "enough w b \<Longrightarrow> a \<le> b \<Longrightarrow> enough w a"
  by (auto simp: enough_def split: option.splits)

lemma exhausted_spend: "exhausted (spend w a) = exhausted w"
  by (simp add: exhausted_def spend_def split: option.splits)

lemma budget_spend: "enough w a \<Longrightarrow> \<not> enough w b \<Longrightarrow> budget (spend w a) = budget w - a"
  by (auto simp: budget_def spend_def enough_def split: option.splits)

lemma budget_less: "\<not> enough w b \<Longrightarrow> budget w < b"
  by (auto simp: budget_def enough_def split: option.splits)

lemma budget_ge: "enough w a \<Longrightarrow> \<not> enough w b \<Longrightarrow> a \<le> budget w"
  by (auto simp: budget_def enough_def split: option.splits)

lemma alloc_budget:
  "alloc w = (if enough w 1 then (True, spend w 1) else (False, exhausted w))"
  by (cases w)
    (auto simp: alloc_def enough_def spend_def exhausted_def split: option.splits nat.splits)

lemma entry_alloc_budget:
  "entry_alloc as c w =
    (if enough w (entry_cost as c) then (True, spend w (entry_cost as c))
     else (False, exhausted w))"
proof (cases "enough w 1")
  case False
  then have "\<not> enough w 2" using enough_mono [of w 2 1] by auto
  then show ?thesis
    using False by (simp add: entry_alloc_def alloc_budget entry_cost_def)
next
  case True
  have e2: "enough (spend w (Suc 0)) (Suc 0) \<longleftrightarrow> enough w 2"
    using enough_spend [OF True, of 1] by (simp add: numeral_2_eq_2)
  have s2: "spend (spend w (Suc 0)) (Suc 0) = spend w 2"
    by (simp add: spend_spend numeral_2_eq_2)
  show ?thesis
    using True
    by (simp add: entry_alloc_def alloc_budget entry_cost_def e2 s2 exhausted_spend)
qed

lemma entry_cost_grown: "grown as as' \<Longrightarrow> entry_cost as' c = entry_cost as c"
  by (simp add: entry_cost_def grown_def)

lemma entry_cost_pos: "0 < entry_cost as c"
  by (simp add: entry_cost_def)

lemma entry_cost_None: "entry_cost as None = 1"
  by (simp add: entry_cost_def)

text \<open>
  The builder on every budget: with enough allocations left for all its entries it
  returns 0 with all of them appended; otherwise it returns \<^verbatim>\<open>EAI_MEMORY\<close> with
  the entries completed before the failing allocation, and nothing is left.
\<close>

lemma addrinfo_add_from_budget:
  "addrinfo_add_from e ms sa c as w =
    (if enough w (entry_cost as c * length (entries_of_rows e as ms sa c))
     then (0, with_entries as (entries_of_rows e as ms sa c),
           spend w (entry_cost as c * length (entries_of_rows e as ms sa c)))
     else (EAI_MEMORY,
           with_entries as (take (budget w div entry_cost as c) (entries_of_rows e as ms sa c)),
           exhausted w))"
proof (induction ms arbitrary: as w)
  case Nil
  show ?case
    by (simp add: entries_of_rows_def with_entries_Nil enough_0 spend_0)
next
  case (Cons m ms)
  let ?k = "entry_cost as c"
  show ?case
  proof (cases "m_family m = - 1")
    case True
    then show ?thesis
      by (simp add: entries_of_rows_def with_entries_Nil enough_0 spend_0)
  next
    case False
    note nf = False
    show ?thesis
    proof (cases "row_emits as sa m")
      case False
      then have e0: "entries_of_rows e as (m # ms) sa c = entries_of_rows e as ms sa c"
        using nf by (simp add: entries_of_rows_def)
      show ?thesis
        unfolding e0 add_from_skip [OF nf False] by (rule Cons.IH)
    next
      case True
      define x where "x = new_ai e m sa (row_proto as m) (row_port as (row_proto as m))
          (cname_kept as c)"
      let ?R = "entries_of_rows e as ms sa c"
      have e1: "entries_of_rows e as (m # ms) sa c = x # ?R"
        using nf True by (simp add: entries_of_rows_def x_def)
      have e2: "entries_of_rows e (ai_append as x) ms sa c = ?R"
        by (rule entries_of_rows_grown) (rule grown_ai_append)
      have k2: "entry_cost (ai_append as x) c = ?k"
        by (rule entry_cost_grown) (rule grown_ai_append)
      have kpos: "0 < ?k" by (rule entry_cost_pos)
      note unf = add_from_emit_alloc [OF nf True, of e ms c w, folded x_def]
      show ?thesis
      proof (cases "enough w ?k")
        case False
        have ne: "\<not> enough w (?k * length (x # ?R))"
          using False enough_mono [of w "?k * length (x # ?R)" ?k] by auto
        have "budget w div ?k = 0"
          using budget_less [OF False] by simp
        then show ?thesis
          unfolding e1 unf using False ne
          by (simp add: entry_alloc_budget with_entries_Nil del: addrinfo_add_from.simps)
      next
        case True
        note en = True
        have st: "addrinfo_add_from e (m # ms) sa c as w =
            addrinfo_add_from e ms sa c (ai_append as x) (spend w ?k)"
          unfolding unf using True by (simp add: entry_alloc_budget del: addrinfo_add_from.simps)
        have ee: "enough (spend w ?k) (?k * length ?R) \<longleftrightarrow> enough w (?k * length (x # ?R))"
          using enough_spend [OF en, of "?k * length ?R"] by simp
        show ?thesis
        proof (cases "enough w (?k * length (x # ?R))")
          case True
          then show ?thesis
            unfolding st e1 Cons.IH e2 k2 using ee
            by (simp add: ai_append_with_entries with_entries_append spend_spend)
        next
          case False
          have b: "budget (spend w ?k) = budget w - ?k"
            using en False by (rule budget_spend)
          have ge: "?k \<le> budget w" using en False by (rule budget_ge)
          have "budget w div ?k = Suc ((budget w - ?k) div ?k)"
            using ge kpos by (simp add: le_div_geq)
          then show ?thesis
            unfolding st e1 Cons.IH e2 k2 using ee False
            by (simp add: ai_append_with_entries with_entries_append exhausted_spend b)
        qed
      qed
    qed
  qed
qed

lemma addrinfo_add_budget:
  "addrinfo_add e as w sa c =
    (if enough w (entry_cost as c * length (builder_entries e as sa c))
     then (0, with_entries as (builder_entries e as sa c),
           spend w (entry_cost as c * length (builder_entries e as sa c)))
     else (EAI_MEMORY,
           with_entries as (take (budget w div entry_cost as c) (builder_entries e as sa c)),
           exhausted w))"
  unfolding addrinfo_add_def builder_entries_def by (rule addrinfo_add_from_budget)

lemma addrinfo_add_plain:
  "addrinfo_add e as w sa None =
    (if enough w (length (builder_entries e as sa None))
     then (0, with_entries as (builder_entries e as sa None),
           spend w (length (builder_entries e as sa None)))
     else (EAI_MEMORY, with_entries as (take (budget w) (builder_entries e as sa None)),
           exhausted w))"
  by (simp add: addrinfo_add_budget [of e as w sa None] entry_cost_None)

section \<open>An explicit protocol and the RAW rows\<close>

text \<open>
  The entries of the builder for an address of one of the two families under the
  socket-type hint RAW and a protocol hint \<open>P\<close>, TCP or UDP: the RAW row of the family
  is the only row that remains, with the protocol \<open>P\<close> and the port the request holds
  for \<open>P\<close>, unless that port is \<open>-1\<close>.
\<close>

lemma raw_row_entries:
  assumes "P = IPPROTO_TCP \<or> P = IPPROTO_UDP"
    and "ai_protocol (hints as) = P" and "ai_socktype (hints as) = SOCK_RAW"
    and "sa_family sa = PF_INET \<or> sa_family sa = PF_INET6"
  shows "builder_entries e as sa cname =
    (if (if P = IPPROTO_TCP then port_tcp as else port_udp as) = - 1 then []
     else [\<lparr>ai_flags = 0, ai_family = sa_family sa, ai_socktype = SOCK_RAW, ai_protocol = P,
            ai_addrlen = SA_LEN e sa,
            ai_addr = Some (sa\<lparr>sa_port :=
              word_of_int (if P = IPPROTO_TCP then port_tcp as else port_udp as)\<rparr>),
            ai_canonname = cname_kept as cname, ai_next = False\<rparr>])"
  using assms
  by (auto simp: builder_entries_def entries_of_rows_def matches_def mk_match_def
      row_emits_def MATCH_SOCKTYPE_def MATCH_PROTO_def row_proto_def row_port_def new_ai_def
      set_port_def sock_consts)

text \<open>
  Claim C10, amended. The protocol test accepts the two RAW rows (table protocol 0) for
  an explicit protocol hint \<open>P\<close>, TCP or UDP. With the socket-type hint RAW, the protocol
  hint \<open>P\<close> and an address of family INET or INET6, the builder does the following, where
  the port of \<open>P\<close> is \<^verbatim>\<open>port_tcp\<close> for TCP and \<^verbatim>\<open>port_udp\<close> for UDP. If that
  port is \<open>-1\<close> it appends nothing and returns 0. Otherwise, if the allocations the entry
  takes succeed (one, or two when a name is copied), it returns 0 and appends exactly one
  entry, with the family and the address of the discovered address, socket type RAW,
  protocol \<open>P\<close> and the port of \<open>P\<close>. Otherwise it returns \<^verbatim>\<open>EAI_MEMORY\<close>
  and appends nothing.
\<close>

theorem explicit_protocol_keeps_raw_row:
  assumes "P = IPPROTO_TCP \<or> P = IPPROTO_UDP"
    and "ai_protocol (hints as) = P" and "ai_socktype (hints as) = SOCK_RAW"
    and "sa_family sa = PF_INET \<or> sa_family sa = PF_INET6"
  shows "MATCH_PROTO P (mk_match PF_INET SOCK_RAW 0)
    \<and> MATCH_PROTO P (mk_match PF_INET6 SOCK_RAW 0)
    \<and> addrinfo_add e as w sa cname =
        (if (if P = IPPROTO_TCP then port_tcp as else port_udp as) = - 1 then (0, as, w)
         else if enough w (entry_cost as cname)
         then (0, with_entries as
                [\<lparr>ai_flags = 0, ai_family = sa_family sa, ai_socktype = SOCK_RAW,
                  ai_protocol = P, ai_addrlen = SA_LEN e sa,
                  ai_addr = Some (sa\<lparr>sa_port :=
                    word_of_int (if P = IPPROTO_TCP then port_tcp as else port_udp as)\<rparr>),
                  ai_canonname = cname_kept as cname, ai_next = False\<rparr>],
               spend w (entry_cost as cname))
         else (EAI_MEMORY, as, exhausted w))"
proof -
  have z: "budget w div entry_cost as cname = 0" if "\<not> enough w (entry_cost as cname)"
    using budget_less [OF that] by simp
  show ?thesis
    unfolding addrinfo_add_budget [of e as w sa cname] raw_row_entries [OF assms, of e cname]
    using z
    by (simp add: MATCH_PROTO_def mk_match_def with_entries_Nil enough_0 spend_0)
qed

text \<open>
  In the concrete resolver: the request for \<open>192.0.2.7\<close> with the hints RAW and TCP as
  it is created, with all allocations succeeding; and the same request holding the ports
  80 for TCP and 53 for UDP, with one allocation left.
\<close>

definition ex_raw_tcp_hints :: addrinfo where
  "ex_raw_tcp_hints =
    zero_addrinfo\<lparr>ai_family := PF_INET, ai_socktype := SOCK_RAW, ai_protocol := IPPROTO_TCP\<rparr>"

definition ex_raw_request :: async where
  "ex_raw_request = ex_request (Some ''192.0.2.7'') None (Some ex_raw_tcp_hints)"

theorem explicit_protocol_keeps_raw_row_witness:
  "addrinfo_add ex_env ex_raw_request ex_world ex_sa_192 None =
    (0, with_entries ex_raw_request
          [\<lparr>ai_flags = 0, ai_family = PF_INET, ai_socktype = SOCK_RAW,
            ai_protocol = IPPROTO_TCP, ai_addrlen = 16, ai_addr = Some ex_sa_192,
            ai_canonname = None, ai_next = False\<rparr>], ex_world)
   \<and> addrinfo_add ex_env (ex_raw_request\<lparr>port_tcp := 80, port_udp := 53\<rparr>)
        (ex_world\<lparr>w_alloc := Some 1\<rparr>) ex_sa_192 None =
    (0, with_entries (ex_raw_request\<lparr>port_tcp := 80, port_udp := 53\<rparr>)
          [\<lparr>ai_flags = 0, ai_family = PF_INET, ai_socktype = SOCK_RAW,
            ai_protocol = IPPROTO_TCP, ai_addrlen = 16,
            ai_addr = Some (ex_sa_192\<lparr>sa_port := 80\<rparr>),
            ai_canonname = None, ai_next = False\<rparr>], ex_world\<lparr>w_alloc := Some 0\<rparr>)"
  using explicit_protocol_keeps_raw_row [of IPPROTO_TCP ex_raw_request ex_sa_192 ex_env
      ex_world None]
    explicit_protocol_keeps_raw_row [of IPPROTO_TCP
      "ex_raw_request\<lparr>port_tcp := 80, port_udp := 53\<rparr>" ex_sa_192 ex_env
      "ex_world\<lparr>w_alloc := Some 1\<rparr>" None]
  by (simp add: ex_raw_request_def ex_request_eq async_new_def ex_raw_tcp_hints_def
      zero_addrinfo_def ex_sa_192_def ex_world_def ex_env_def cname_kept_def entry_cost_def
      enough_def spend_def sock_consts)

text \<open>
  Claim C10 as stated fails: with no allocation left, the builder appends no entry for
  that request and returns \<^verbatim>\<open>EAI_MEMORY\<close>.
\<close>

theorem raw_row_not_appended_without_memory:
  "ai_socktype (hints ex_raw_request) = SOCK_RAW
   \<and> ai_protocol (hints ex_raw_request) = IPPROTO_TCP
   \<and> addrinfo_add ex_env ex_raw_request (ex_world\<lparr>w_alloc := Some 0\<rparr>) ex_sa_192 None =
      (EAI_MEMORY, ex_raw_request, ex_world\<lparr>w_alloc := Some 0, w_errno := ENOMEM\<rparr>)"
  by (simp add: addrinfo_add_def matches_def mk_match_def MATCH_SOCKTYPE_def MATCH_PROTO_def
      row_proto_def row_port_def alloc_def ex_raw_request_def ex_request_eq async_new_def
      ex_raw_tcp_hints_def zero_addrinfo_def ex_sa_192_def ex_world_def sock_consts)



section \<open>The numeric short-circuit\<close>

text \<open>
  The families the two loops of the initial state run through: the pinned family, or the
  configured families up to the exhaustion marker.
\<close>

definition requested_families :: "async \<Rightarrow> int list" where
  "requested_families as =
    (if ai_family (hints as) \<noteq> PF_UNSPEC
     then (if ai_family (hints as) = - 1 then [] else [ai_family (hints as)])
     else takeWhile (\<lambda>f. f \<noteq> - 1) (ac_family (as_ctx as)))"

text \<open>The address of the hostname read as a literal of the first family that accepts it.\<close>

fun numeric_try :: "env \<Rightarrow> string \<Rightarrow> int list \<Rightarrow> sockaddr option" where
  "numeric_try e h [] = None"
| "numeric_try e h (f # fs) =
    (case sockaddr_from_str e f h of None \<Rightarrow> numeric_try e h fs | Some u \<Rightarrow> Some u)"

text \<open>What the loop leaves once the literal is known: the builder is run on it, if any.\<close>

definition numeric_done ::
  "env \<Rightarrow> sockaddr option \<Rightarrow> async \<Rightarrow> async_res \<Rightarrow> world \<Rightarrow> config"
where
  "numeric_done e lit as ar w =
    (case lit of
      None \<Rightarrow> (as, ar, w)
    | Some u \<Rightarrow>
        (case addrinfo_add e as w u None of (r, as1, w1) \<Rightarrow>
          (as1, (if r \<noteq> 0 then ar\<lparr>ar_gai_errno := r\<rparr> else ar), w1)))"

lemma numeric_loop_unpinned:
  assumes "ai_family (hints as) = PF_UNSPEC"
  shows "\<exists>i. numeric_loop e h (AS_FAMILY as) as ar w =
    numeric_done e
      (numeric_try e h
        (takeWhile (\<lambda>f. f \<noteq> - 1) (drop (as_family_idx as) (ac_family (as_ctx as)))))
      (as\<lparr>as_family_idx := i\<rparr>) ar w"
  using assms
proof (induction "length (ac_family (as_ctx as)) - as_family_idx as" arbitrary: as)
  case 0
  then have "AS_FAMILY as = - 1" by (simp add: AS_FAMILY_def)
  moreover have "drop (as_family_idx as) (ac_family (as_ctx as)) = []" using 0 by simp
  ultimately have "numeric_loop e h (AS_FAMILY as) as ar w =
    numeric_done e
      (numeric_try e h
        (takeWhile (\<lambda>f. f \<noteq> - 1) (drop (as_family_idx as) (ac_family (as_ctx as)))))
      (as\<lparr>as_family_idx := as_family_idx as\<rparr>) ar w"
    by (simp add: numeric_done_def numeric_loop.simps)
  then show ?case by blast
next
  case (Suc n)
  let ?fs = "ac_family (as_ctx as)"
  let ?i = "as_family_idx as"
  have lt: "?i < length ?fs" using Suc.hyps(2) by simp
  have fam: "AS_FAMILY as = ?fs ! ?i" using lt by (simp add: AS_FAMILY_def)
  have dr: "drop ?i ?fs = (?fs ! ?i) # drop (Suc ?i) ?fs"
    using lt by (simp add: Cons_nth_drop_Suc)
  show ?case
  proof (cases "?fs ! ?i = - 1")
    case True
    then have "numeric_loop e h (AS_FAMILY as) as ar w =
      numeric_done e (numeric_try e h (takeWhile (\<lambda>f. f \<noteq> - 1) (drop ?i ?fs)))
        (as\<lparr>as_family_idx := ?i\<rparr>) ar w"
      using fam dr by (simp add: numeric_done_def numeric_loop.simps)
    then show ?thesis by blast
  next
    case False
    note ne = False
    show ?thesis
    proof (cases "sockaddr_from_str e (?fs ! ?i) h")
      case (Some u)
      then have "numeric_loop e h (AS_FAMILY as) as ar w =
        numeric_done e (numeric_try e h (takeWhile (\<lambda>f. f \<noteq> - 1) (drop ?i ?fs)))
          (as\<lparr>as_family_idx := ?i\<rparr>) ar w"
        using fam dr ne by (simp add: numeric_done_def numeric_loop.simps)
      then show ?thesis by blast
    next
      case None
      define as1 where "as1 = as\<lparr>as_family_idx := Suc ?i\<rparr>"
      have it: "iter_family as False = (AS_FAMILY as1, as1)"
        using Suc.prems by (simp add: iter_family_def as1_def Let_def)
      have l: "numeric_loop e h (AS_FAMILY as) as ar w = numeric_loop e h (AS_FAMILY as1) as1 ar w"
        using fam ne None it by (subst numeric_loop.simps) simp
      have "n = length (ac_family (as_ctx as1)) - as_family_idx as1"
        using Suc.hyps(2) by (simp add: as1_def)
      moreover have "ai_family (hints as1) = PF_UNSPEC"
        using Suc.prems by (simp add: as1_def)
      ultimately obtain i where ih: "numeric_loop e h (AS_FAMILY as1) as1 ar w =
        numeric_done e
          (numeric_try e h
            (takeWhile (\<lambda>f. f \<noteq> - 1) (drop (as_family_idx as1) (ac_family (as_ctx as1)))))
          (as1\<lparr>as_family_idx := i\<rparr>) ar w"
        using Suc.hyps(1) [of as1] by blast
      have "numeric_try e h (takeWhile (\<lambda>f. f \<noteq> - 1) (drop ?i ?fs)) =
          numeric_try e h (takeWhile (\<lambda>f. f \<noteq> - 1) (drop (Suc ?i) ?fs))"
        using dr ne None by simp
      then have "numeric_loop e h (AS_FAMILY as) as ar w =
        numeric_done e (numeric_try e h (takeWhile (\<lambda>f. f \<noteq> - 1) (drop ?i ?fs)))
          (as\<lparr>as_family_idx := i\<rparr>) ar w"
        using l ih by (simp add: as1_def)
      then show ?thesis by blast
    qed
  qed
qed

lemma numeric_loop_requested:
  assumes "iter_family as True = (f, as2)"
  shows "\<exists>i. numeric_loop e h f as2 ar w =
    numeric_done e (numeric_try e h (requested_families as)) (as\<lparr>as_family_idx := i\<rparr>) ar w"
proof (cases "ai_family (hints as) = PF_UNSPEC")
  case True
  then have "f = AS_FAMILY (as\<lparr>as_family_idx := 0\<rparr>)" and "as2 = as\<lparr>as_family_idx := 0\<rparr>"
    using assms by (auto simp: iter_family_def Let_def)
  moreover have "requested_families as =
      takeWhile (\<lambda>f. f \<noteq> - 1) (drop (as_family_idx (as\<lparr>as_family_idx := 0\<rparr>))
        (ac_family (as_ctx (as\<lparr>as_family_idx := 0\<rparr>))))"
    using True by (simp add: requested_families_def)
  ultimately show ?thesis
    using numeric_loop_unpinned [of "as\<lparr>as_family_idx := 0\<rparr>" e h ar w] True by simp
next
  case False
  then have f: "f = ai_family (hints as)" and as2: "as2 = as\<lparr>as_family_idx := 0\<rparr>"
    using assms by (auto simp: iter_family_def Let_def)
  have it: "iter_family as2 False = (- 1, as2)"
    using False as2 by (simp add: iter_family_def)
  have "numeric_loop e h f as2 ar w =
    numeric_done e (numeric_try e h (requested_families as)) (as\<lparr>as_family_idx := 0\<rparr>) ar w"
  proof (cases "f = - 1")
    case True
    then show ?thesis
      using f False as2 by (simp add: numeric_loop.simps requested_families_def numeric_done_def)
  next
    case ne: False
    show ?thesis
    proof (cases "sockaddr_from_str e f h")
      case None
      have "numeric_loop e h f as2 ar w = numeric_loop e h (- 1) as2 ar w"
        using ne None it by (subst numeric_loop.simps) simp
      then show ?thesis
        using f False as2 ne None
        by (simp add: numeric_loop.simps requested_families_def numeric_done_def)
    next
      case (Some u)
      then show ?thesis
        using f False as2 ne
        by (simp add: numeric_loop.simps requested_families_def numeric_done_def)
    qed
  qed
  then show ?thesis by blast
qed


text \<open>
  The request as the checks and the port lookups of the initial state leave it, and the
  requests that pass them.
\<close>

definition validated :: "env \<Rightarrow> async \<Rightarrow> async" where
  "validated e as = resolve_ports e (as\<lparr>as_count := 0\<rparr>)"

definition passes_validation :: "env \<Rightarrow> async \<Rightarrow> bool" where
  "passes_validation e as \<longleftrightarrow>
    check_params e (as\<lparr>as_count := 0\<rparr>) = None \<and> \<not> ports_bad (validated e as)"

lemma validated_fields:
  "hostname (validated e as) = hostname as" "hints (validated e as) = hints as"
  "as_ctx (validated e as) = as_ctx as" "as_count (validated e as) = 0"
  "ailist (validated e as) = ailist as" "as_db_idx (validated e as) = as_db_idx as"
  by (simp_all add: validated_def resolve_ports_def Let_def)

lemma requested_families_validated:
  "requested_families (validated e as) = requested_families as"
  by (simp add: requested_families_def validated_fields)

lemma addrinfo_add_from_idx:
  "addrinfo_add_from e ms sa c (as\<lparr>as_family_idx := i\<rparr>) w =
    (case addrinfo_add_from e ms sa c as w of
      (r, as', w') \<Rightarrow> (r, as'\<lparr>as_family_idx := i\<rparr>, w'))"
proof (induction ms arbitrary: as w)
  case Nil
  show ?case by simp
next
  case (Cons m ms)
  have re: "row_emits (as\<lparr>as_family_idx := i\<rparr>) sa m = row_emits as sa m"
    by (simp add: row_emits_def row_port_def row_proto_def)
  show ?case
  proof (cases "m_family m = - 1")
    case True
    then show ?thesis by simp
  next
    case False
    note nf = False
    show ?thesis
    proof (cases "row_emits as sa m")
      case False
      then show ?thesis
        using nf re Cons.IH by (simp add: add_from_skip del: addrinfo_add_from.simps)
    next
      case True
      define x where "x = new_ai e m sa (row_proto as m) (row_port as (row_proto as m))
             (cname_kept as c)"
      have x: "ai_append (as\<lparr>as_family_idx := i\<rparr>)
          (new_ai e m sa (row_proto (as\<lparr>as_family_idx := i\<rparr>) m)
             (row_port (as\<lparr>as_family_idx := i\<rparr>) (row_proto (as\<lparr>as_family_idx := i\<rparr>) m))
             (cname_kept (as\<lparr>as_family_idx := i\<rparr>) c)) =
        (ai_append as x)\<lparr>as_family_idx := i\<rparr>"
        by (simp add: ai_append_def row_port_def row_proto_def cname_kept_def x_def)
      have ea: "entry_alloc (as\<lparr>as_family_idx := i\<rparr>) c w = entry_alloc as c w"
        by (auto simp: entry_alloc_def split: prod.splits bool.splits)
      obtain b w2 where al: "entry_alloc as c w = (b, w2)"
        by (cases "entry_alloc as c w") auto
      have l: "addrinfo_add_from e (m # ms) sa c (as\<lparr>as_family_idx := i\<rparr>) w =
          (if b then addrinfo_add_from e ms sa c ((ai_append as x)\<lparr>as_family_idx := i\<rparr>) w2
           else (EAI_MEMORY, as\<lparr>as_family_idx := i\<rparr>, w2))"
        using nf True re
        by (simp add: add_from_emit_alloc x ea al del: addrinfo_add_from.simps)
      have r: "addrinfo_add_from e (m # ms) sa c as w =
          (if b then addrinfo_add_from e ms sa c (ai_append as x) w2
           else (EAI_MEMORY, as, w2))"
        using nf True
        by (simp add: add_from_emit_alloc al x_def del: addrinfo_add_from.simps)
      show ?thesis
        unfolding l r by (simp add: Cons.IH del: addrinfo_add_from.simps)
    qed
  qed
qed

lemma addrinfo_add_idx:
  "addrinfo_add e as w sa c = (r, as', w') \<Longrightarrow>
    addrinfo_add e (as\<lparr>as_family_idx := i\<rparr>) w sa c = (r, as'\<lparr>as_family_idx := i\<rparr>, w')"
  by (simp add: addrinfo_add_def addrinfo_add_from_idx)

lemma step_init_numeric:
  assumes "as_state as = ASR_STATE_INIT" and "passes_validation e as"
    and "hostname as = Some h"
  shows "step e (as, ar, w) =
    Inr (init_numeric e h (validated e as) (ar\<lparr>ar_gai_errno := 0\<rparr>) w)"
  using assms
  by (simp add: step_def state_init_def passes_validation_def validated_def [symmetric]
      validated_fields Let_def)

lemma init_numeric_none:
  assumes "numeric_try e h (requested_families as) = None"
    and "ar_gai_errno ar = 0" and "as_count as = 0"
  shows "\<exists>i. init_numeric e h as ar w =
    (if ai_flags (hints as) AND AI_NUMERICHOST \<noteq> 0
     then halt_with (as\<lparr>as_family_idx := i\<rparr>) ar w EAI_FAIL
     else (async_set_state (as\<lparr>as_family_idx := i\<rparr>) ASR_STATE_NEXT_DB, ar, w))"
proof -
  obtain f as2 where it: "iter_family as True = (f, as2)"
    by (cases "iter_family as True") auto
  obtain i where "numeric_loop e h f as2 ar w = (as\<lparr>as_family_idx := i\<rparr>, ar, w)"
    using numeric_loop_requested [OF it, of e h ar w] assms(1)
    by (auto simp: numeric_done_def)
  then have "init_numeric e h as ar w =
    (if ai_flags (hints as) AND AI_NUMERICHOST \<noteq> 0
     then halt_with (as\<lparr>as_family_idx := i\<rparr>) ar w EAI_FAIL
     else (async_set_state (as\<lparr>as_family_idx := i\<rparr>) ASR_STATE_NEXT_DB, ar, w))"
    using it assms(2,3) by (simp add: init_numeric_def)
  then show ?thesis by blast
qed

lemma run_rejected_literal:
  assumes "as_state as = ASR_STATE_INIT" and "passes_validation e as"
    and "hostname as = Some h"
    and "numeric_try e h (requested_families as) = None"
    and "ai_flags (hints as) AND AI_NUMERICHOST \<noteq> 0"
  shows "\<exists>as'. getaddrinfo_async_run e (as, ar, w) =
      (ASYNC_DONE, as', ar\<lparr>ar_gai_errno := EAI_FAIL, ar_count := 0, ar_addrinfo := []\<rparr>, w)"
proof -
  obtain i where "init_numeric e h (validated e as) (ar\<lparr>ar_gai_errno := 0\<rparr>) w =
      halt_with ((validated e as)\<lparr>as_family_idx := i\<rparr>) (ar\<lparr>ar_gai_errno := 0\<rparr>) w EAI_FAIL"
    using init_numeric_none [of e h "validated e as" "ar\<lparr>ar_gai_errno := 0\<rparr>" w] assms(4,5)
    by (auto simp: requested_families_validated validated_fields)
  then have "getaddrinfo_async_run e (as, ar, w) =
      getaddrinfo_async_run e
        (halt_with ((validated e as)\<lparr>as_family_idx := i\<rparr>) (ar\<lparr>ar_gai_errno := 0\<rparr>) w EAI_FAIL)"
    using step_init_numeric [OF assms(1,2,3), of ar w] by (simp add: run_jump)
  then show ?thesis
    by (simp add: run_halt_with state_halt_def EAI_FAIL_def)
qed

lemma numeric_try_None_iff:
  "numeric_try e h fs = None \<longleftrightarrow> (\<forall>f \<in> set fs. sockaddr_from_str e f h = None)"
  by (induction fs) (auto split: option.splits)

text \<open>
  Claim C4, amended. A request that passes the checks, has a hostname that no requested
  family accepts as a numeric literal, and sets the numeric-host-only flag, ends in the
  initial state: the function returns \<^verbatim>\<open>ASYNC_DONE\<close> with no entries, the
  surroundings untouched, and the code \<^verbatim>\<open>EAI_FAIL\<close>, which is the code of the kind
  \<open>ProtocolFailure\<close>.
\<close>

theorem numeric_only_rejected:
  assumes "as_state as = ASR_STATE_INIT" and "passes_validation e as"
    and "hostname as = Some h"
    and "\<forall>f \<in> set (requested_families as). sockaddr_from_str e f h = None"
    and "ai_flags (hints as) AND AI_NUMERICHOST \<noteq> 0"
  shows "(\<exists>as'. getaddrinfo_async_run e (as, ar, w) =
      (ASYNC_DONE, as', ar\<lparr>ar_gai_errno := EAI_FAIL, ar_count := 0, ar_addrinfo := []\<rparr>, w))
    \<and> error_kind EAI_FAIL = Some ProtocolFailure"
proof -
  have "numeric_try e h (requested_families as) = None"
    using assms(4) by (simp add: numeric_try_None_iff)
  then show ?thesis
    using run_rejected_literal [OF assms(1,2,3) _ assms(5), of ar w]
    by (simp add: error_kind_def eai_consts)
qed


text \<open>In the concrete resolver: a name that is no literal, with the numeric-host-only flag.\<close>

definition ex_numeric_only :: async where
  "ex_numeric_only =
    ex_request (Some ''nowhere.example.com'') None
      (Some (zero_addrinfo\<lparr>ai_flags := AI_NUMERICHOST\<rparr>))"

lemma ex_numeric_only_valid: "passes_validation ex_env ex_numeric_only"
  by (simp add: passes_validation_def validated_def check_params_def resolve_ports_def
      ports_bad_def get_port_def Let_def ex_numeric_only_def ex_request_eq async_new_def
      zero_addrinfo_def ex_env_def matches_def mk_match_def MATCH_FAMILY_def
      MATCH_SOCKTYPE_def MATCH_PROTO_def sock_consts flag_consts)

lemma ex_numeric_only_families: "requested_families ex_numeric_only = [PF_INET, PF_INET6]"
  by (simp add: requested_families_def ex_numeric_only_def ex_request_eq async_new_def
      zero_addrinfo_def ex_ctx_def sock_consts)

lemma ex_nowhere_rejected:
  "numeric_try ex_env ''nowhere.example.com'' [PF_INET, PF_INET6] = None"
  by (simp add: ex_env_def ex_sockaddr_from_str_def sock_consts)

lemma ex_numeric_only_fields:
  "as_state ex_numeric_only = ASR_STATE_INIT"
  "hostname ex_numeric_only = Some ''nowhere.example.com''"
  "ai_flags (hints ex_numeric_only) AND AI_NUMERICHOST \<noteq> 0"
  by (simp_all add: ex_numeric_only_def ex_request_eq async_new_def zero_addrinfo_def
      flag_consts)

theorem numeric_only_rejected_witness:
  "\<exists>as'. getaddrinfo_async_run ex_env (ex_numeric_only, ex_res, ex_world) =
      (ASYNC_DONE, as', ex_res\<lparr>ar_gai_errno := EAI_FAIL\<rparr>, ex_world)"
proof -
  have "\<forall>f \<in> set (requested_families ex_numeric_only).
      sockaddr_from_str ex_env f ''nowhere.example.com'' = None"
    by (simp add: ex_numeric_only_families ex_env_def ex_sockaddr_from_str_def sock_consts)
  from numeric_only_rejected [OF ex_numeric_only_fields(1) ex_numeric_only_valid
      ex_numeric_only_fields(2) this ex_numeric_only_fields(3), of ex_res ex_world]
  show ?thesis by (simp add: ex_res_def)
qed

text \<open>
  Claim C4 as stated fails: for that request the code reported is of the kind
  \<open>ProtocolFailure\<close>, not \<open>NotNumeric\<close>.
\<close>

theorem numeric_only_not_notnumeric:
  "error_kind (ar_gai_errno (fst (snd (snd
      (getaddrinfo_async_run ex_env (ex_numeric_only, ex_res, ex_world))))))
    = Some ProtocolFailure
   \<and> error_kind (ar_gai_errno (fst (snd (snd
      (getaddrinfo_async_run ex_env (ex_numeric_only, ex_res, ex_world))))))
    \<noteq> Some NotNumeric"
proof -
  have "\<exists>as'. getaddrinfo_async_run ex_env (ex_numeric_only, ex_res, ex_world) =
      (ASYNC_DONE, as', ex_res\<lparr>ar_gai_errno := EAI_FAIL, ar_count := 0, ar_addrinfo := []\<rparr>,
       ex_world)"
    using ex_numeric_only_valid ex_nowhere_rejected ex_numeric_only_fields
    by (intro run_rejected_literal) (simp_all add: ex_numeric_only_families)
  then show ?thesis
    by (auto simp: error_kind_def eai_consts)
qed


lemma init_numeric_some:
  assumes "numeric_try e h (requested_families as) = Some u"
    and "addrinfo_add e as w u None = (r, asB, wB)"
    and "ar_gai_errno ar = 0"
  shows "\<exists>i. init_numeric e h as ar w =
    (if r \<noteq> 0 \<or> as_count asB \<noteq> 0
     then (async_set_state (asB\<lparr>as_family_idx := i\<rparr>) ASR_STATE_HALT,
           (if r \<noteq> 0 then ar\<lparr>ar_gai_errno := r\<rparr> else ar), wB)
     else if ai_flags (hints as) AND AI_NUMERICHOST \<noteq> 0
     then halt_with (asB\<lparr>as_family_idx := i\<rparr>) ar wB EAI_FAIL
     else (async_set_state (asB\<lparr>as_family_idx := i\<rparr>) ASR_STATE_NEXT_DB, ar, wB))"
proof -
  obtain f as2 where it: "iter_family as True = (f, as2)"
    by (cases "iter_family as True") auto
  obtain i where l: "numeric_loop e h f as2 ar w =
      numeric_done e (Some u) (as\<lparr>as_family_idx := i\<rparr>) ar w"
    using numeric_loop_requested [OF it, of e h ar w] assms(1) by auto
  have g: "grown as asB" using assms(2) by (rule addrinfo_add_grown)
  have "numeric_loop e h f as2 ar w =
      (asB\<lparr>as_family_idx := i\<rparr>, (if r \<noteq> 0 then ar\<lparr>ar_gai_errno := r\<rparr> else ar), wB)"
    using l addrinfo_add_idx [OF assms(2), of i] by (simp add: numeric_done_def)
  then have "init_numeric e h as ar w =
    (if r \<noteq> 0 \<or> as_count asB \<noteq> 0
     then (async_set_state (asB\<lparr>as_family_idx := i\<rparr>) ASR_STATE_HALT,
           (if r \<noteq> 0 then ar\<lparr>ar_gai_errno := r\<rparr> else ar), wB)
     else if ai_flags (hints as) AND AI_NUMERICHOST \<noteq> 0
     then halt_with (asB\<lparr>as_family_idx := i\<rparr>) ar wB EAI_FAIL
     else (async_set_state (asB\<lparr>as_family_idx := i\<rparr>) ASR_STATE_NEXT_DB, ar, wB))"
    using it g assms(3) by (auto simp: init_numeric_def grown_def)
  then show ?thesis by blast
qed

lemma run_numeric_literal:
  assumes "as_state as = ASR_STATE_INIT" and "passes_validation e as"
    and "hostname as = Some h"
    and "numeric_try e h (requested_families as) = Some u"
    and "addrinfo_add e (validated e as) w u None = (r, asB, wB)"
  shows "if r \<noteq> 0 then
      (\<exists>as'. getaddrinfo_async_run e (as, ar, w) =
        (ASYNC_DONE, as', ar\<lparr>ar_gai_errno := r, ar_count := 0, ar_addrinfo := []\<rparr>, wB))
    else if as_count asB \<noteq> 0 then
      (\<exists>as'. getaddrinfo_async_run e (as, ar, w) =
        (ASYNC_DONE, as',
         ar\<lparr>ar_gai_errno := 0, ar_count := as_count asB, ar_addrinfo := ailist asB\<rparr>, wB))
    else if ai_flags (hints as) AND AI_NUMERICHOST \<noteq> 0 then
      (\<exists>as'. getaddrinfo_async_run e (as, ar, w) =
        (ASYNC_DONE, as', ar\<lparr>ar_gai_errno := EAI_FAIL, ar_count := 0, ar_addrinfo := []\<rparr>, wB))
    else
      (\<exists>as'. step e (as, ar, w) = Inr (as', ar\<lparr>ar_gai_errno := 0\<rparr>, wB)
        \<and> as_state as' = ASR_STATE_NEXT_DB)"
proof -
  let ?ar0 = "ar\<lparr>ar_gai_errno := 0\<rparr>"
  have st: "step e (as, ar, w) = Inr (init_numeric e h (validated e as) ?ar0 w)"
    using assms(1,2,3) by (rule step_init_numeric)
  have hv: "hints (validated e as) = hints as" by (simp add: validated_fields)
  have nt: "numeric_try e h (requested_families (validated e as)) = Some u"
    using assms(4) by (simp add: requested_families_validated)
  have g0: "ar_gai_errno ?ar0 = 0" by simp
  obtain i where n: "init_numeric e h (validated e as) ?ar0 w =
    (if r \<noteq> 0 \<or> as_count asB \<noteq> 0
     then (async_set_state (asB\<lparr>as_family_idx := i\<rparr>) ASR_STATE_HALT,
           (if r \<noteq> 0 then ?ar0\<lparr>ar_gai_errno := r\<rparr> else ?ar0), wB)
     else if ai_flags (hints (validated e as)) AND AI_NUMERICHOST \<noteq> 0
     then halt_with (asB\<lparr>as_family_idx := i\<rparr>) ?ar0 wB EAI_FAIL
     else (async_set_state (asB\<lparr>as_family_idx := i\<rparr>) ASR_STATE_NEXT_DB, ?ar0, wB))"
    using init_numeric_some [OF nt assms(5) g0] by blast
  show ?thesis
  proof (cases "r \<noteq> 0")
    case True
    then have "getaddrinfo_async_run e (as, ar, w) =
        getaddrinfo_async_run e
          (async_set_state (asB\<lparr>as_family_idx := i\<rparr>) ASR_STATE_HALT, ar\<lparr>ar_gai_errno := r\<rparr>, wB)"
      using st n by (simp add: run_jump)
    also have "\<dots> = (ASYNC_DONE, state_halt (async_set_state (asB\<lparr>as_family_idx := i\<rparr>)
        ASR_STATE_HALT) (ar\<lparr>ar_gai_errno := r\<rparr>) wB)"
      by (rule run_halt) (simp add: async_set_state_def)
    finally show ?thesis using True by (simp add: state_halt_def)
  next
    case False
    note r0 = False
    show ?thesis
    proof (cases "as_count asB \<noteq> 0")
      case True
      then have "getaddrinfo_async_run e (as, ar, w) =
          getaddrinfo_async_run e
            (async_set_state (asB\<lparr>as_family_idx := i\<rparr>) ASR_STATE_HALT, ?ar0, wB)"
        using st n r0 by (simp add: run_jump)
      also have "\<dots> = (ASYNC_DONE, state_halt (async_set_state (asB\<lparr>as_family_idx := i\<rparr>)
          ASR_STATE_HALT) ?ar0 wB)"
        by (rule run_halt) (simp add: async_set_state_def)
      finally show ?thesis
        using r0 True by (simp add: state_halt_def async_set_state_def)
    next
      case False
      note c0 = False
      show ?thesis
      proof (cases "ai_flags (hints as) AND AI_NUMERICHOST \<noteq> 0")
        case True
        then have "getaddrinfo_async_run e (as, ar, w) =
            getaddrinfo_async_run e (halt_with (asB\<lparr>as_family_idx := i\<rparr>) ?ar0 wB EAI_FAIL)"
          using st n r0 c0 hv by (simp add: run_jump)
        then show ?thesis
          using r0 c0 True by (simp add: run_halt_with state_halt_def EAI_FAIL_def)
      next
        case False
        then have "step e (as, ar, w) =
            Inr (async_set_state (asB\<lparr>as_family_idx := i\<rparr>) ASR_STATE_NEXT_DB, ?ar0, wB)"
          using st n r0 c0 hv by simp
        then show ?thesis
          using r0 c0 False by (simp add: async_set_state_def)
      qed
    qed
  qed
qed


text \<open>
  Claim C1, amended. Let a request pass the checks and let its hostname parse as a numeric
  literal in some requested family; the builder is run once, on the address of the first
  family that accepts it, and calls no backend. If the builder fails, the function
  returns \<^verbatim>\<open>ASYNC_DONE\<close> with \<^verbatim>\<open>EAI_MEMORY\<close> and no entries. If it appends at
  least one entry, the function returns \<^verbatim>\<open>ASYNC_DONE\<close> with success and exactly the
  builder's entries for the literal (after whatever the list held before), each of the
  family and the address of the literal; in both cases no backend was attempted. If it
  appends nothing, the request does not halt on the literal: under the numeric-host-only
  flag it fails with \<^verbatim>\<open>EAI_FAIL\<close>, otherwise the next state is the selection of a
  backend.
\<close>

theorem numeric_literal_short_circuit:
  assumes "as_state as = ASR_STATE_INIT" and "passes_validation e as"
    and "hostname as = Some h"
    and "numeric_try e h (requested_families as) = Some u"
  shows "\<exists>r asB wB.
      addrinfo_add e (validated e as) w u None = (r, asB, wB) \<and> same_backends w wB \<and>
      (if r \<noteq> 0 then
         r = EAI_MEMORY \<and>
         (\<exists>as'. getaddrinfo_async_run e (as, ar, w) =
           (ASYNC_DONE, as',
            ar\<lparr>ar_gai_errno := EAI_MEMORY, ar_count := 0, ar_addrinfo := []\<rparr>, wB))
       else if builder_entries e (validated e as) u None \<noteq> [] then
         (\<exists>as'. getaddrinfo_async_run e (as, ar, w) =
           (ASYNC_DONE, as',
            ar\<lparr>ar_gai_errno := 0,
               ar_count := int (length (builder_entries e (validated e as) u None)),
               ar_addrinfo := ailist as @ builder_entries e (validated e as) u None\<rparr>, wB))
       else if ai_flags (hints as) AND AI_NUMERICHOST \<noteq> 0 then
         (\<exists>as'. getaddrinfo_async_run e (as, ar, w) =
           (ASYNC_DONE, as',
            ar\<lparr>ar_gai_errno := EAI_FAIL, ar_count := 0, ar_addrinfo := []\<rparr>, wB))
       else
         (\<exists>as'. step e (as, ar, w) = Inr (as', ar\<lparr>ar_gai_errno := 0\<rparr>, wB)
           \<and> as_state as' = ASR_STATE_NEXT_DB))
      \<and> (\<forall>ai \<in> set (builder_entries e (validated e as) u None).
            ai_family ai = sa_family u \<and> map_option sa_addr (ai_addr ai) = Some (sa_addr u))"
proof -
  let ?B = "builder_entries e (validated e as) u None"
  obtain r asB wB where a: "addrinfo_add e (validated e as) w u None = (r, asB, wB)"
    by (cases "addrinfo_add e (validated e as) w u None") auto
  note c = addrinfo_add_cases [OF a]
  note run = run_numeric_literal [OF assms a, of ar]
  have sb: "same_backends w wB" using c by simp
  have addr: "\<forall>ai \<in> set ?B.
      ai_family ai = sa_family u \<and> map_option sa_addr (ai_addr ai) = Some (sa_addr u)"
    using builder_entries_addr by blast
  have main: "if r \<noteq> 0 then
         r = EAI_MEMORY \<and>
         (\<exists>as'. getaddrinfo_async_run e (as, ar, w) =
           (ASYNC_DONE, as',
            ar\<lparr>ar_gai_errno := EAI_MEMORY, ar_count := 0, ar_addrinfo := []\<rparr>, wB))
       else if ?B \<noteq> [] then
         (\<exists>as'. getaddrinfo_async_run e (as, ar, w) =
           (ASYNC_DONE, as',
            ar\<lparr>ar_gai_errno := 0, ar_count := int (length ?B),
               ar_addrinfo := ailist as @ ?B\<rparr>, wB))
       else if ai_flags (hints as) AND AI_NUMERICHOST \<noteq> 0 then
         (\<exists>as'. getaddrinfo_async_run e (as, ar, w) =
           (ASYNC_DONE, as',
            ar\<lparr>ar_gai_errno := EAI_FAIL, ar_count := 0, ar_addrinfo := []\<rparr>, wB))
       else
         (\<exists>as'. step e (as, ar, w) = Inr (as', ar\<lparr>ar_gai_errno := 0\<rparr>, wB)
           \<and> as_state as' = ASR_STATE_NEXT_DB)"
  proof (cases "r \<noteq> 0")
    case True
    then have "r = EAI_MEMORY" using c by auto
    then show ?thesis using run True by (simp cong: if_cong)
  next
    case False
    then have asB: "asB = with_entries (validated e as) ?B"
      using c by (auto simp: EAI_MEMORY_def)
    have cnt: "as_count asB = int (length ?B)" and lst: "ailist asB = ailist as @ ?B"
      by (simp_all add: asB with_entries_def validated_fields)
    show ?thesis
      using run False by (simp add: cnt lst cong: if_cong)
  qed
  show ?thesis
    using a sb main addr by blast
qed

text \<open>In the concrete resolver: the literal \<open>127.0.0.1\<close> without service or hints.\<close>

definition ex_literal :: async where
  "ex_literal = ex_request (Some ''127.0.0.1'') None None"

definition ex_sa_loopback :: sockaddr where
  "ex_sa_loopback = \<lparr>sa_family = PF_INET, sa_port = 0, sa_addr = [127, 0, 0, 1]\<rparr>"

lemma ex_literal_valid: "passes_validation ex_env ex_literal"
  by (simp add: passes_validation_def validated_def check_params_def resolve_ports_def
      ports_bad_def get_port_def Let_def ex_literal_def ex_request_eq async_new_def
      zero_addrinfo_def ex_env_def matches_def mk_match_def MATCH_FAMILY_def
      MATCH_SOCKTYPE_def MATCH_PROTO_def sock_consts flag_consts)

lemma ex_literal_parses:
  "numeric_try ex_env ''127.0.0.1'' (requested_families ex_literal) = Some ex_sa_loopback"
  by (simp add: requested_families_def ex_literal_def ex_request_eq async_new_def
      zero_addrinfo_def ex_ctx_def ex_env_def ex_sockaddr_from_str_def ex_sa_loopback_def
      sock_consts)

lemma ex_literal_entries:
  "builder_entries ex_env (validated ex_env ex_literal) ex_sa_loopback None =
    [\<lparr>ai_flags = 0, ai_family = PF_INET, ai_socktype = SOCK_DGRAM, ai_protocol = IPPROTO_UDP,
      ai_addrlen = 16, ai_addr = Some ex_sa_loopback, ai_canonname = None, ai_next = False\<rparr>,
     \<lparr>ai_flags = 0, ai_family = PF_INET, ai_socktype = SOCK_STREAM, ai_protocol = IPPROTO_TCP,
      ai_addrlen = 16, ai_addr = Some ex_sa_loopback, ai_canonname = None, ai_next = False\<rparr>]"
  by (simp add: builder_entries_def entries_of_rows_def matches_def mk_match_def row_emits_def
      MATCH_SOCKTYPE_def MATCH_PROTO_def row_proto_def row_port_def new_ai_def set_port_def
      cname_kept_def validated_def resolve_ports_def get_port_def Let_def ex_literal_def
      ex_request_eq async_new_def zero_addrinfo_def ex_sa_loopback_def ex_env_def
      sock_consts flag_consts)

theorem numeric_literal_short_circuit_witness:
  "\<exists>as'. getaddrinfo_async_run ex_env (ex_literal, ex_res, ex_world) =
    (ASYNC_DONE, as',
     ex_res\<lparr>ar_count := 2,
       ar_addrinfo :=
        [\<lparr>ai_flags = 0, ai_family = PF_INET, ai_socktype = SOCK_DGRAM,
          ai_protocol = IPPROTO_UDP, ai_addrlen = 16, ai_addr = Some ex_sa_loopback,
          ai_canonname = None, ai_next = False\<rparr>,
         \<lparr>ai_flags = 0, ai_family = PF_INET, ai_socktype = SOCK_STREAM,
          ai_protocol = IPPROTO_TCP, ai_addrlen = 16, ai_addr = Some ex_sa_loopback,
          ai_canonname = None, ai_next = False\<rparr>]\<rparr>,
     ex_world)"
proof -
  have i: "as_state ex_literal = ASR_STATE_INIT" and h: "hostname ex_literal = Some ''127.0.0.1''"
    and l: "ailist ex_literal = []"
    by (simp_all add: ex_literal_def ex_request_eq async_new_def)
  have w: "w_alloc ex_world = None" by (simp add: ex_world_def)
  have a: "addrinfo_add ex_env (validated ex_env ex_literal) ex_world ex_sa_loopback None =
      (0, with_entries (validated ex_env ex_literal)
            (builder_entries ex_env (validated ex_env ex_literal) ex_sa_loopback None), ex_world)"
    using w by (rule addrinfo_add_ok)
  from numeric_literal_short_circuit [OF i ex_literal_valid h ex_literal_parses,
      of ex_world ex_res]
  show ?thesis
    unfolding a by (simp add: ex_literal_entries l ex_res_def)
qed

text \<open>
  In the concrete resolver: the literal \<open>127.0.0.1\<close> with the service \<open>smtp\<close>, which
  the services database defines for TCP only, and a hint for datagram sockets.
\<close>

definition ex_dgram_smtp :: async where
  "ex_dgram_smtp =
    ex_request (Some ''127.0.0.1'') (Some ''smtp'')
      (Some (zero_addrinfo\<lparr>ai_socktype := SOCK_DGRAM\<rparr>))"

text \<open>
  Claim C1 as stated fails: for that request the hostname parses as a literal of INET, yet
  the function opens the hosts file for both families, creates a DNS sub-query for the
  literal and returns \<^verbatim>\<open>ASYNC_COND\<close> waiting for it.
\<close>

theorem numeric_literal_reaches_backends:
  "numeric_try ex_env ''127.0.0.1'' (requested_families ex_dgram_smtp) = Some ex_sa_loopback
   \<and> fst (getaddrinfo_async_run ex_env (ex_dgram_smtp, ex_res, ex_world)) = ASYNC_COND
   \<and> w_trace (snd (snd (snd (getaddrinfo_async_run ex_env (ex_dgram_smtp, ex_res, ex_world))))) =
      [Call_fopen ''/etc/hosts'', Call_fopen ''/etc/hosts'',
       Call_subq_new \<lparr>sq_search = True, sq_name = ''127.0.0.1'', sq_class = C_IN, sq_type = T_A\<rparr>,
       Call_subq_run]"
  by code_simp


section \<open>Local addresses for an absent hostname\<close>

lemma row_emits_same:
  "hints a = hints b \<Longrightarrow> port_tcp a = port_tcp b \<Longrightarrow> port_udp a = port_udp b \<Longrightarrow>
    row_emits a sa m = row_emits b sa m"
  by (simp add: row_emits_def row_port_def row_proto_def)

lemma builder_entries_same:
  "hints a = hints b \<Longrightarrow> port_tcp a = port_tcp b \<Longrightarrow> port_udp a = port_udp b \<Longrightarrow>
    builder_entries e a sa c = builder_entries e b sa c"
  by (simp add: builder_entries_def entries_of_rows_def row_emits_same [of a b]
      row_port_def row_proto_def cname_kept_def cong: map_cong filter_cong)

text \<open>
  The entries for the local addresses: the builder's entries for the address \<open>la f\<close>
  of each family \<open>f\<close> in turn, without a name.
\<close>

definition local_entries :: "env \<Rightarrow> async \<Rightarrow> (int \<Rightarrow> sockaddr) \<Rightarrow> int list \<Rightarrow> addrinfo list" where
  "local_entries e as la fs = concat (map (\<lambda>f. builder_entries e as (la f) None) fs)"

lemma local_entries_same:
  "hints a = hints b \<Longrightarrow> port_tcp a = port_tcp b \<Longrightarrow> port_udp a = port_udp b \<Longrightarrow>
    local_entries e a la fs = local_entries e b la fs"
  by (simp add: local_entries_def builder_entries_same [of a b])

lemma local_str_same: "hints a = hints b \<Longrightarrow> local_str a f = local_str b f"
  by (simp add: local_str_def)

lemma local_loop_unpinned:
  assumes "ai_family (hints as) = PF_UNSPEC"
    and "\<forall>f \<in> set (takeWhile (\<lambda>f. f \<noteq> - 1) (drop (as_family_idx as) (ac_family (as_ctx as)))).
          sockaddr_from_str e f (local_str as f) = Some (la f)"
    and "L = local_entries e as la
          (takeWhile (\<lambda>f. f \<noteq> - 1) (drop (as_family_idx as) (ac_family (as_ctx as))))"
  shows "\<exists>as'. local_loop e (AS_FAMILY as) sa as ar w =
      Some (as', (if enough w (length L) then ar else ar\<lparr>ar_gai_errno := EAI_MEMORY\<rparr>),
            (if enough w (length L) then spend w (length L) else exhausted w))
    \<and> (enough w (length L) \<longrightarrow> (\<exists>i. as' = (with_entries as L)\<lparr>as_family_idx := i\<rparr>))"
  using assms
proof (induction "length (ac_family (as_ctx as)) - as_family_idx as" arbitrary: as sa w L)
  case 0
  then have "AS_FAMILY as = - 1" by (simp add: AS_FAMILY_def)
  moreover have "drop (as_family_idx as) (ac_family (as_ctx as)) = []" using 0 by simp
  ultimately have "local_loop e (AS_FAMILY as) sa as ar w = Some (as, ar, w)" and "L = []"
    using "0.prems"(3) by (simp_all add: local_loop.simps local_entries_def)
  then have "local_loop e (AS_FAMILY as) sa as ar w =
      Some (as, (if enough w (length L) then ar else ar\<lparr>ar_gai_errno := EAI_MEMORY\<rparr>),
            (if enough w (length L) then spend w (length L) else exhausted w))
    \<and> as = (with_entries as L)\<lparr>as_family_idx := as_family_idx as\<rparr>"
    by (simp add: enough_0 spend_0 with_entries_Nil)
  then show ?case by blast
next
  case (Suc n)
  let ?fs = "ac_family (as_ctx as)"
  let ?i = "as_family_idx as"
  let ?T = "\<lambda>xs. takeWhile (\<lambda>f. f \<noteq> - 1) xs"
  have lt: "?i < length ?fs" using Suc.hyps(2) by simp
  have fam: "AS_FAMILY as = ?fs ! ?i" using lt by (simp add: AS_FAMILY_def)
  have dr: "drop ?i ?fs = (?fs ! ?i) # drop (Suc ?i) ?fs"
    using lt by (simp add: Cons_nth_drop_Suc)
  show ?case
  proof (cases "?fs ! ?i = - 1")
    case True
    then have "local_loop e (AS_FAMILY as) sa as ar w = Some (as, ar, w)" and "L = []"
      using fam dr Suc.prems(3) by (simp_all add: local_loop.simps local_entries_def)
    then have "local_loop e (AS_FAMILY as) sa as ar w =
        Some (as, (if enough w (length L) then ar else ar\<lparr>ar_gai_errno := EAI_MEMORY\<rparr>),
              (if enough w (length L) then spend w (length L) else exhausted w))
      \<and> as = (with_entries as L)\<lparr>as_family_idx := as_family_idx as\<rparr>"
      by (simp add: enough_0 spend_0 with_entries_Nil)
    then show ?thesis by blast
  next
    case False
    note ne = False
    let ?f = "?fs ! ?i"
    let ?B = "builder_entries e as (la ?f) None"
    let ?L' = "local_entries e as la (?T (drop (Suc ?i) ?fs))"
    have tw: "?T (drop ?i ?fs) = ?f # ?T (drop (Suc ?i) ?fs)"
      using dr ne by simp
    have L: "L = ?B @ ?L'"
      using Suc.prems(3) tw by (simp add: local_entries_def)
    have p: "sockaddr_from_str e ?f (local_str as ?f) = Some (la ?f)"
      using Suc.prems(2) tw by simp
    note a = addrinfo_add_plain [of e as w "la ?f"]
    show ?thesis
    proof (cases "enough w (length ?B)")
      case False
      have nl: "\<not> enough w (length L)"
        using False enough_mono [of w "length L" "length ?B"] by (auto simp: L)
      have "local_loop e (AS_FAMILY as) sa as ar w =
          Some (with_entries as (take (budget w) ?B), ar\<lparr>ar_gai_errno := EAI_MEMORY\<rparr>,
                exhausted w)"
        using fam ne p a False by (subst local_loop.simps) (simp add: EAI_MEMORY_def)
      then show ?thesis using nl by simp
    next
      case True
      note en = True
      define as1 where "as1 = (with_entries as ?B)\<lparr>as_family_idx := Suc ?i\<rparr>"
      define w1 where "w1 = spend w (length ?B)"
      have it: "iter_family (with_entries as ?B) False = (AS_FAMILY as1, as1)"
        using Suc.prems(1) by (simp add: iter_family_def as1_def Let_def with_entries_def)
      have l: "local_loop e (AS_FAMILY as) sa as ar w =
          local_loop e (AS_FAMILY as1) (Some (la ?f)) as1 ar w1"
        using fam ne p a it en by (subst local_loop.simps) (simp add: w1_def)
      have h1: "hints as1 = hints as" "port_tcp as1 = port_tcp as" "port_udp as1 = port_udp as"
        "as_ctx as1 = as_ctx as" "as_family_idx as1 = Suc ?i"
        by (simp_all add: as1_def with_entries_def)
      have le: "local_entries e as1 la (?T (drop (Suc ?i) ?fs)) = ?L'"
        by (rule local_entries_same) (simp_all add: h1)
      have i1: "n = length (ac_family (as_ctx as1)) - as_family_idx as1"
        using Suc.hyps(2) by (simp add: h1)
      have i2: "ai_family (hints as1) = PF_UNSPEC"
        using Suc.prems(1) by (simp add: h1)
      have i3: "\<forall>f \<in> set (?T (drop (as_family_idx as1) (ac_family (as_ctx as1)))).
            sockaddr_from_str e f (local_str as1 f) = Some (la f)"
        using Suc.prems(2) tw by (simp add: h1 local_str_same [OF h1(1)])
      have i4: "?L' = local_entries e as1 la
          (?T (drop (as_family_idx as1) (ac_family (as_ctx as1))))"
        by (simp add: h1 le)
      obtain as' where ih: "local_loop e (AS_FAMILY as1) (Some (la ?f)) as1 ar w1 =
          Some (as', (if enough w1 (length ?L') then ar else ar\<lparr>ar_gai_errno := EAI_MEMORY\<rparr>),
                (if enough w1 (length ?L') then spend w1 (length ?L') else exhausted w1))"
        and ih2: "enough w1 (length ?L') \<longrightarrow> (\<exists>i. as' = (with_entries as1 ?L')\<lparr>as_family_idx := i\<rparr>)"
        using Suc.hyps(1) [OF i1 i2 i3 i4, of "Some (la ?f)" w1] by blast
      have ee: "enough w1 (length ?L') \<longleftrightarrow> enough w (length L)"
        using enough_spend [OF en, of "length ?L'"] by (simp add: w1_def L)
      have ss: "spend w1 (length ?L') = spend w (length L)"
        by (simp add: w1_def spend_spend L)
      have xx: "exhausted w1 = exhausted w"
        by (simp add: w1_def exhausted_spend)
      have we: "(with_entries as1 ?L')\<lparr>as_family_idx := i\<rparr> =
          (with_entries as L)\<lparr>as_family_idx := i\<rparr>" for i
        by (simp add: L as1_def with_entries_def)
      have "local_loop e (AS_FAMILY as) sa as ar w =
          Some (as', (if enough w (length L) then ar else ar\<lparr>ar_gai_errno := EAI_MEMORY\<rparr>),
                (if enough w (length L) then spend w (length L) else exhausted w))"
        using l ih ee ss xx by simp
      moreover have "enough w (length L) \<longrightarrow> (\<exists>i. as' = (with_entries as L)\<lparr>as_family_idx := i\<rparr>)"
        using ih2 ee we by simp
      ultimately show ?thesis by blast
    qed
  qed
qed

lemma local_loop_requested:
  assumes "iter_family as True = (f, as2)"
    and "\<forall>f \<in> set (requested_families as).
          sockaddr_from_str e f (local_str as f) = Some (la f)"
    and "L = local_entries e as la (requested_families as)"
  shows "\<exists>as'. local_loop e f None as2 ar w =
      Some (as', (if enough w (length L) then ar else ar\<lparr>ar_gai_errno := EAI_MEMORY\<rparr>),
            (if enough w (length L) then spend w (length L) else exhausted w))
    \<and> (enough w (length L) \<longrightarrow> (\<exists>i. as' = (with_entries as L)\<lparr>as_family_idx := i\<rparr>))"
proof (cases "ai_family (hints as) = PF_UNSPEC")
  case True
  let ?as0 = "as\<lparr>as_family_idx := 0\<rparr>"
  have f: "f = AS_FAMILY ?as0" and as2: "as2 = ?as0"
    using assms(1) True by (auto simp: iter_family_def Let_def)
  have rf: "requested_families as =
      takeWhile (\<lambda>f. f \<noteq> - 1) (drop (as_family_idx ?as0) (ac_family (as_ctx ?as0)))"
    using True by (simp add: requested_families_def)
  have p: "\<forall>f \<in> set (takeWhile (\<lambda>f. f \<noteq> - 1)
            (drop (as_family_idx ?as0) (ac_family (as_ctx ?as0)))).
          sockaddr_from_str e f (local_str ?as0 f) = Some (la f)"
    using assms(2) rf local_str_same [of ?as0 as] by simp
  have "local_entries e ?as0 la (requested_families as) =
      local_entries e as la (requested_families as)"
    by (rule local_entries_same) simp_all
  then have L0: "L = local_entries e ?as0 la
      (takeWhile (\<lambda>f. f \<noteq> - 1) (drop (as_family_idx ?as0) (ac_family (as_ctx ?as0))))"
    using assms(3) rf by simp
  have t: "ai_family (hints ?as0) = PF_UNSPEC" using True by simp
  have we: "(with_entries ?as0 L)\<lparr>as_family_idx := i\<rparr> =
      (with_entries as L)\<lparr>as_family_idx := i\<rparr>" for i
    by (simp add: with_entries_def)
  show ?thesis
    using local_loop_unpinned [OF t p L0, of None ar w] f as2 we by simp
next
  case False
  have f: "f = ai_family (hints as)" and as2: "as2 = as\<lparr>as_family_idx := 0\<rparr>"
    using assms(1) False by (auto simp: iter_family_def Let_def)
  show ?thesis
  proof (cases "f = - 1")
    case True
    then have "local_loop e f None as2 ar w = Some (as2, ar, w)" and "L = []"
      using f False assms(3)
      by (simp_all add: local_loop.simps requested_families_def local_entries_def)
    then have "local_loop e f None as2 ar w =
        Some (as2, (if enough w (length L) then ar else ar\<lparr>ar_gai_errno := EAI_MEMORY\<rparr>),
              (if enough w (length L) then spend w (length L) else exhausted w))
      \<and> as2 = (with_entries as L)\<lparr>as_family_idx := 0\<rparr>"
      by (simp add: enough_0 spend_0 with_entries_Nil as2)
    then show ?thesis by blast
  next
    case ne: False
    let ?B = "builder_entries e as2 (la f) None"
    have rf: "requested_families as = [f]"
      using f False ne by (simp add: requested_families_def)
    have p: "sockaddr_from_str e f (local_str as2 f) = Some (la f)"
      using assms(2) rf as2 local_str_same [of as2 as] by simp
    have B: "?B = builder_entries e as (la f) None"
      by (rule builder_entries_same) (simp_all add: as2)
    have L: "L = ?B"
      using assms(3) rf B by (simp add: local_entries_def)
    note a = addrinfo_add_plain [of e as2 w "la f"]
    show ?thesis
    proof (cases "enough w (length ?B)")
      case False
      have "local_loop e f None as2 ar w =
          Some (with_entries as2 (take (budget w) ?B), ar\<lparr>ar_gai_errno := EAI_MEMORY\<rparr>,
                exhausted w)"
        using ne p a False by (subst local_loop.simps) (simp add: EAI_MEMORY_def)
      then show ?thesis using False L by simp
    next
      case True
      have it: "iter_family (with_entries as2 ?B) False = (- 1, with_entries as2 ?B)"
        using False as2 by (simp add: iter_family_def with_entries_def)
      have "local_loop e f None as2 ar w =
          local_loop e (- 1) (Some (la f)) (with_entries as2 ?B) ar (spend w (length ?B))"
        using ne p a it True by (subst local_loop.simps) simp
      also have "\<dots> = Some (with_entries as2 ?B, ar, spend w (length ?B))"
        by (simp add: local_loop.simps)
      finally have "local_loop e f None as2 ar w =
          Some (with_entries as2 L, (if enough w (length L) then ar else ar\<lparr>ar_gai_errno := EAI_MEMORY\<rparr>),
                (if enough w (length L) then spend w (length L) else exhausted w))
        \<and> with_entries as2 L = (with_entries as L)\<lparr>as_family_idx := 0\<rparr>"
        using True L by (simp add: as2 with_entries_def)
      then show ?thesis by blast
    qed
  qed
qed

lemma step_init_local:
  assumes "as_state as = ASR_STATE_INIT" and "passes_validation e as"
    and "hostname as = None"
  shows "step e (as, ar, w) =
    (case init_local e (validated e as) (ar\<lparr>ar_gai_errno := 0\<rparr>) w of
      None \<Rightarrow> Inl (FAULT, (as, ar, w)) | Some c' \<Rightarrow> Inr c')"
  using assms
  by (simp add: step_def state_init_def passes_validation_def validated_def [symmetric]
      validated_fields Let_def)

text \<open>
  Claim C6, amended. Let a request pass the checks and have no hostname, and let the
  parser read, for every requested family \<open>f\<close>, the literal \<open>local_str as f\<close> as the
  address \<open>la f\<close>. The literal is \<open>0.0.0.0\<close> for INET and \<open>::\<close> for INET6 under
  the passive flag, and \<open>127.0.0.1\<close> and \<open>::1\<close> without it. The function feeds
  one such address per requested family through the builder, in the order of the
  families, and returns \<^verbatim>\<open>ASYNC_DONE\<close> from the initial state without calling a
  backend. If the allocator cannot serve every entry the builder yields for these
  addresses, the result is \<^verbatim>\<open>EAI_MEMORY\<close> with no entries (the families after the
  failing allocation are not reached). Otherwise it is \<^verbatim>\<open>EAI_NODATA\<close> with no
  entries if the builder yields none, else success with the count and the list of those
  entries. The surroundings change by the allocations only.
\<close>

theorem absent_hostname_local_addresses:
  assumes "as_state as = ASR_STATE_INIT" and "passes_validation e as"
    and "hostname as = None"
    and "\<forall>f \<in> set (requested_families as).
          sockaddr_from_str e f (local_str as f) = Some (la f)"
  shows "(\<exists>as'. getaddrinfo_async_run e (as, ar, w) =
      (ASYNC_DONE, as',
       (if \<not> enough w (length (local_entries e (validated e as) la (requested_families as)))
        then ar\<lparr>ar_gai_errno := EAI_MEMORY, ar_count := 0, ar_addrinfo := []\<rparr>
        else if local_entries e (validated e as) la (requested_families as) = []
        then ar\<lparr>ar_gai_errno := EAI_NODATA, ar_count := 0, ar_addrinfo := []\<rparr>
        else ar\<lparr>ar_gai_errno := 0,
               ar_count := int (length (local_entries e (validated e as) la
                 (requested_families as))),
               ar_addrinfo := ailist as @ local_entries e (validated e as) la
                 (requested_families as)\<rparr>),
       (if enough w (length (local_entries e (validated e as) la (requested_families as)))
        then spend w (length (local_entries e (validated e as) la (requested_families as)))
        else exhausted w)))
    \<and> local_entries e (validated e as) la (requested_families as) =
        concat (map (\<lambda>f. builder_entries e (validated e as) (la f) None)
          (requested_families as))
    \<and> local_str as PF_INET =
        (if ai_flags (hints as) AND AI_PASSIVE \<noteq> 0 then ''0.0.0.0'' else ''127.0.0.1'')
    \<and> local_str as PF_INET6 =
        (if ai_flags (hints as) AND AI_PASSIVE \<noteq> 0 then ''::'' else ''::1'')"
proof -
  let ?v = "validated e as"
  let ?L = "local_entries e ?v la (requested_families as)"
  let ?ar0 = "ar\<lparr>ar_gai_errno := 0\<rparr>"
  let ?w' = "if enough w (length ?L) then spend w (length ?L) else exhausted w"
  obtain f as2 where it: "iter_family ?v True = (f, as2)"
    by (cases "iter_family ?v True") auto
  have p: "\<forall>f \<in> set (requested_families ?v).
          sockaddr_from_str e f (local_str ?v f) = Some (la f)"
    using assms(4) local_str_same [of ?v as]
    by (simp add: requested_families_validated validated_fields)
  have Lv: "?L = local_entries e ?v la (requested_families ?v)"
    by (simp add: requested_families_validated)
  obtain as3 where ll: "local_loop e f None as2 ?ar0 w =
      Some (as3, (if enough w (length ?L) then ?ar0 else ?ar0\<lparr>ar_gai_errno := EAI_MEMORY\<rparr>), ?w')"
    and ok: "enough w (length ?L) \<longrightarrow> (\<exists>i. as3 = (with_entries ?v ?L)\<lparr>as_family_idx := i\<rparr>)"
    using local_loop_requested [OF it p Lv, of ?ar0 w] by blast
  have run: "\<exists>as'. getaddrinfo_async_run e (as, ar, w) =
      (ASYNC_DONE, as',
       (if \<not> enough w (length ?L)
        then ar\<lparr>ar_gai_errno := EAI_MEMORY, ar_count := 0, ar_addrinfo := []\<rparr>
        else if ?L = []
        then ar\<lparr>ar_gai_errno := EAI_NODATA, ar_count := 0, ar_addrinfo := []\<rparr>
        else ar\<lparr>ar_gai_errno := 0, ar_count := int (length ?L),
               ar_addrinfo := ailist as @ ?L\<rparr>), ?w')"
  proof (cases "enough w (length ?L)")
    case False
    have il: "init_local e ?v ?ar0 w =
        Some (async_set_state as3 ASR_STATE_HALT, ?ar0\<lparr>ar_gai_errno := EAI_MEMORY\<rparr>,
              exhausted w)"
      using it ll False by (simp add: init_local_def EAI_MEMORY_def)
    have "getaddrinfo_async_run e (as, ar, w) =
        getaddrinfo_async_run e (async_set_state as3 ASR_STATE_HALT,
              ?ar0\<lparr>ar_gai_errno := EAI_MEMORY\<rparr>, exhausted w)"
      using step_init_local [OF assms(1,2,3), of ar w] il by (simp add: run_jump)
    also have "\<dots> = (ASYNC_DONE, state_halt (async_set_state as3 ASR_STATE_HALT)
              (?ar0\<lparr>ar_gai_errno := EAI_MEMORY\<rparr>) (exhausted w))"
      by (rule run_halt) (simp add: async_set_state_def)
    finally show ?thesis
      using False by (simp add: state_halt_def EAI_MEMORY_def)
  next
    case True
    obtain i where as3: "as3 = (with_entries ?v ?L)\<lparr>as_family_idx := i\<rparr>"
      using ok True by blast
    have cnt: "as_count as3 = int (length ?L)" and lst: "ailist as3 = ailist as @ ?L"
      by (simp_all add: as3 with_entries_def validated_fields)
    have il: "init_local e ?v ?ar0 w =
        Some (async_set_state as3 ASR_STATE_HALT,
              (if ?L = [] then ?ar0\<lparr>ar_gai_errno := EAI_NODATA\<rparr> else ?ar0),
              spend w (length ?L))"
      using it ll True by (simp add: init_local_def cnt)
    have "getaddrinfo_async_run e (as, ar, w) =
        getaddrinfo_async_run e (async_set_state as3 ASR_STATE_HALT,
              (if ?L = [] then ?ar0\<lparr>ar_gai_errno := EAI_NODATA\<rparr> else ?ar0),
              spend w (length ?L))"
      using step_init_local [OF assms(1,2,3), of ar w] il by (simp add: run_jump)
    also have "\<dots> = (ASYNC_DONE, state_halt (async_set_state as3 ASR_STATE_HALT)
              (if ?L = [] then ?ar0\<lparr>ar_gai_errno := EAI_NODATA\<rparr> else ?ar0)
              (spend w (length ?L)))"
      by (rule run_halt) (simp add: async_set_state_def)
    finally show ?thesis
      using True by (auto simp: state_halt_def async_set_state_def cnt lst EAI_NODATA_def)
  qed
  have "PF_INET6 \<noteq> PF_INET" by (simp add: sock_consts)
  then show ?thesis
    using run by (simp add: local_entries_def local_str_def)
qed


text \<open>
  In the concrete resolver: no hostname, the service \<open>80\<close>, stream sockets, and the
  given flags.
\<close>

definition ex_local_request :: "32 word \<Rightarrow> async" where
  "ex_local_request fl =
    ex_request None (Some ''80'')
      (Some (zero_addrinfo\<lparr>ai_flags := fl, ai_socktype := SOCK_STREAM\<rparr>))"

definition ex_wildcard :: "int \<Rightarrow> sockaddr" where
  "ex_wildcard f =
    (if f = PF_INET then \<lparr>sa_family = PF_INET, sa_port = 0, sa_addr = [0, 0, 0, 0]\<rparr>
     else \<lparr>sa_family = PF_INET6, sa_port = 0,
           sa_addr = [0, 0, 0, 0, 0, 0, 0, 0, 0, 0, 0, 0, 0, 0, 0, 0]\<rparr>)"

definition ex_loopback :: "int \<Rightarrow> sockaddr" where
  "ex_loopback f =
    (if f = PF_INET then \<lparr>sa_family = PF_INET, sa_port = 0, sa_addr = [127, 0, 0, 1]\<rparr>
     else \<lparr>sa_family = PF_INET6, sa_port = 0,
           sa_addr = [0, 0, 0, 0, 0, 0, 0, 0, 0, 0, 0, 0, 0, 0, 0, 1]\<rparr>)"

definition ex_stream_entry :: "sockaddr \<Rightarrow> nat \<Rightarrow> addrinfo" where
  "ex_stream_entry sa len =
    \<lparr>ai_flags = 0, ai_family = sa_family sa, ai_socktype = SOCK_STREAM,
     ai_protocol = IPPROTO_TCP, ai_addrlen = len, ai_addr = Some (sa\<lparr>sa_port := 80\<rparr>),
     ai_canonname = None, ai_next = False\<rparr>"

lemma ex_local_request_fields:
  "as_state (ex_local_request fl) = ASR_STATE_INIT"
  "hostname (ex_local_request fl) = None"
  "ailist (ex_local_request fl) = []"
  "requested_families (ex_local_request fl) = [PF_INET, PF_INET6]"
  by (simp_all add: ex_local_request_def ex_request_eq async_new_def requested_families_def
      zero_addrinfo_def ex_ctx_def sock_consts)

lemma ex_local_request_valid:
  "fl = AI_PASSIVE \<or> fl = 0 \<Longrightarrow> passes_validation ex_env (ex_local_request fl)"
  by (auto simp: passes_validation_def validated_def check_params_def resolve_ports_def
      ports_bad_def get_port_def Let_def ex_local_request_def ex_request_eq async_new_def
      zero_addrinfo_def ex_env_def ex_strtonum_def matches_def mk_match_def MATCH_FAMILY_def
      MATCH_SOCKTYPE_def MATCH_PROTO_def sock_consts flag_consts)

lemma ex_local_entries:
  "local_entries ex_env (validated ex_env (ex_local_request fl)) la [PF_INET, PF_INET6] =
    concat (map (\<lambda>f. if sa_family (la f) = PF_INET
                       then [ex_stream_entry (la f) 16]
                       else if sa_family (la f) = PF_INET6 then [ex_stream_entry (la f) 28]
                       else []) [PF_INET, PF_INET6])"
  by (simp add: local_entries_def builder_entries_def entries_of_rows_def matches_def
      mk_match_def row_emits_def MATCH_SOCKTYPE_def MATCH_PROTO_def row_proto_def
      row_port_def new_ai_def set_port_def cname_kept_def validated_def resolve_ports_def
      get_port_def Let_def ex_local_request_def ex_request_eq async_new_def
      zero_addrinfo_def ex_env_def ex_strtonum_def ex_stream_entry_def sock_consts)

theorem absent_hostname_local_addresses_witness:
  "(\<exists>as'. getaddrinfo_async_run ex_env (ex_local_request AI_PASSIVE, ex_res, ex_world) =
      (ASYNC_DONE, as',
       ex_res\<lparr>ar_count := 2,
         ar_addrinfo := [ex_stream_entry (ex_wildcard PF_INET) 16,
                         ex_stream_entry (ex_wildcard PF_INET6) 28]\<rparr>, ex_world))
   \<and> (\<exists>as'. getaddrinfo_async_run ex_env
          (ex_local_request 0, ex_res, ex_world\<lparr>w_alloc := Some 2\<rparr>) =
      (ASYNC_DONE, as',
       ex_res\<lparr>ar_count := 2,
         ar_addrinfo := [ex_stream_entry (ex_loopback PF_INET) 16,
                         ex_stream_entry (ex_loopback PF_INET6) 28]\<rparr>,
       ex_world\<lparr>w_alloc := Some 0\<rparr>))"
proof -
  have p1: "\<forall>f \<in> set (requested_families (ex_local_request AI_PASSIVE)).
      sockaddr_from_str ex_env f (local_str (ex_local_request AI_PASSIVE) f) = Some (ex_wildcard f)"
    by (simp add: ex_local_request_fields)
      (simp add: local_str_def ex_local_request_def ex_request_eq zero_addrinfo_def ex_env_def
        ex_sockaddr_from_str_def ex_wildcard_def sock_consts flag_consts)
  have p0: "\<forall>f \<in> set (requested_families (ex_local_request 0)).
      sockaddr_from_str ex_env f (local_str (ex_local_request 0) f) = Some (ex_loopback f)"
    by (simp add: ex_local_request_fields)
      (simp add: local_str_def ex_local_request_def ex_request_eq zero_addrinfo_def ex_env_def
        ex_sockaddr_from_str_def ex_loopback_def sock_consts flag_consts)
  have L1: "local_entries ex_env (validated ex_env (ex_local_request AI_PASSIVE)) ex_wildcard
      (requested_families (ex_local_request AI_PASSIVE)) =
      [ex_stream_entry (ex_wildcard PF_INET) 16, ex_stream_entry (ex_wildcard PF_INET6) 28]"
    by (simp add: ex_local_request_fields ex_local_entries)
      (simp add: ex_wildcard_def sock_consts)
  have L0: "local_entries ex_env (validated ex_env (ex_local_request 0)) ex_loopback
      (requested_families (ex_local_request 0)) =
      [ex_stream_entry (ex_loopback PF_INET) 16, ex_stream_entry (ex_loopback PF_INET6) 28]"
    by (simp add: ex_local_request_fields ex_local_entries)
      (simp add: ex_loopback_def sock_consts)
  note t1 = absent_hostname_local_addresses [OF ex_local_request_fields(1)
      ex_local_request_valid ex_local_request_fields(2) p1, of ex_res ex_world, THEN conjunct1]
  note t0 = absent_hostname_local_addresses [OF ex_local_request_fields(1)
      ex_local_request_valid ex_local_request_fields(2) p0,
      of ex_res "ex_world\<lparr>w_alloc := Some 2\<rparr>", THEN conjunct1]
  have "\<exists>as'. getaddrinfo_async_run ex_env (ex_local_request AI_PASSIVE, ex_res, ex_world) =
      (ASYNC_DONE, as',
       ex_res\<lparr>ar_count := 2,
         ar_addrinfo := [ex_stream_entry (ex_wildcard PF_INET) 16,
                         ex_stream_entry (ex_wildcard PF_INET6) 28]\<rparr>, ex_world)"
    using t1 unfolding L1
    by (simp add: ex_local_request_fields ex_res_def enough_def spend_def ex_world_def)
  moreover have "\<exists>as'. getaddrinfo_async_run ex_env
          (ex_local_request 0, ex_res, ex_world\<lparr>w_alloc := Some 2\<rparr>) =
      (ASYNC_DONE, as',
       ex_res\<lparr>ar_count := 2,
         ar_addrinfo := [ex_stream_entry (ex_loopback PF_INET) 16,
                         ex_stream_entry (ex_loopback PF_INET6) 28]\<rparr>,
       ex_world\<lparr>w_alloc := Some 0\<rparr>)"
    using t0 unfolding L0
    by (simp add: ex_local_request_fields ex_res_def enough_def spend_def ex_world_def)
  ultimately show ?thesis by blast
qed

text \<open>
  Claim C6 as stated fails: the same request with one allocation left passes the checks
  and halts with \<^verbatim>\<open>EAI_MEMORY\<close> and no entries, neither success nor
  \<^verbatim>\<open>EAI_NODATA\<close>, after the builder has made the entry for \<open>127.0.0.1\<close>; no
  address is fed through the builder for INET6.
\<close>

theorem local_addresses_out_of_memory:
  "hostname (ex_local_request 0) = None
   \<and> passes_validation ex_env (ex_local_request 0)
   \<and> fst (getaddrinfo_async_run ex_env
        (ex_local_request 0, ex_res, ex_world\<lparr>w_alloc := Some 1\<rparr>)) = ASYNC_DONE
   \<and> ar_gai_errno (fst (snd (snd (getaddrinfo_async_run ex_env
        (ex_local_request 0, ex_res, ex_world\<lparr>w_alloc := Some 1\<rparr>))))) = EAI_MEMORY
   \<and> ar_count (fst (snd (snd (getaddrinfo_async_run ex_env
        (ex_local_request 0, ex_res, ex_world\<lparr>w_alloc := Some 1\<rparr>))))) = 0
   \<and> ar_addrinfo (fst (snd (snd (getaddrinfo_async_run ex_env
        (ex_local_request 0, ex_res, ex_world\<lparr>w_alloc := Some 1\<rparr>))))) = []
   \<and> map ai_family (ailist (fst (snd (getaddrinfo_async_run ex_env
        (ex_local_request 0, ex_res, ex_world\<lparr>w_alloc := Some 1\<rparr>))))) = [PF_INET]"
  by code_simp


end
